(* ===== verification/Prelude.thy ===== *)
theory Prelude
  imports
    Complex_Main
    "HOL-Library.Word"
    "HOL-Library.List_Lexorder"
    "HOL-Library.Char_ord"
begin

text \<open>
  What every component of the Conformance model shares: Go's \<^verbatim>\<open>time.Time\<close>,
  \<^verbatim>\<open>time.Duration\<close>, fixed-width integers, \<^verbatim>\<open>strings.TrimSpace\<close> and
  \<^verbatim>\<open>float64\<close>; the sum type as an error monad; generic lemmas on lists; and the
  collections of facts the component proofs are run with.

  An instant is its distance from the Unix epoch in nanoseconds, an unbounded \<open>int\<close>
  (Go's \<^verbatim>\<open>Time\<close> is wider than 64 bits); the conversion \<^verbatim>\<open>UnixNano\<close> to a
  signed 64-bit integer wraps, as the Go documentation says. A \<^verbatim>\<open>float64\<close> is a
  real, an infinity or not-a-number; the rounding of arithmetic and the transcendental
  functions of package \<^verbatim>\<open>math\<close> are the parameter \<open>fpu\<close> of every definition that
  computes with floats. The sign of zero is not represented.
\<close>

named_theorems defs "definitions that component proofs unfold"
named_theorems monad_splits "inversion rules of the error monad"

section \<open>Fixed-width integers\<close>

definition MaxInt64 :: nat where
  "MaxInt64 = 2 ^ 63 - 1"

definition MaxInt32 :: nat where
  "MaxInt32 = 2 ^ 31 - 1"

definition MaxUint32 :: nat where
  "MaxUint32 = 2 ^ 32 - 1"

definition MaxUint64 :: nat where
  "MaxUint64 = 2 ^ 64 - 1"

text \<open>The value of an unbounded integer stored in a signed 64-bit variable.\<close>

definition wrap64 :: "int \<Rightarrow> int" where
  "wrap64 n = (n + 2 ^ 63) mod 2 ^ 64 - 2 ^ 63"

lemma wrap64_id: "- (2 ^ 63) \<le> n \<Longrightarrow> n < 2 ^ 63 \<Longrightarrow> wrap64 n = n"
  by (simp add: wrap64_def)

lemma wrap64_bounds: "- (2 ^ 63) \<le> wrap64 n \<and> wrap64 n < 2 ^ 63"
  using pos_mod_bound [of "2 ^ 64" "n + 2 ^ 63"] pos_mod_sign [of "2 ^ 64" "n + 2 ^ 63"]
  by (simp add: wrap64_def)

text \<open>Go's integer division, which truncates towards zero.\<close>

definition quot :: "int \<Rightarrow> int \<Rightarrow> int" where
  "quot a b = sgn a * sgn b * (\<bar>a\<bar> div \<bar>b\<bar>)"

definition rem :: "int \<Rightarrow> int \<Rightarrow> int" where
  "rem a b = a - b * quot a b"

section \<open>Instants and durations\<close>

type_synonym gotime = int
type_synonym duration = int

definition Second :: duration where
  "Second = 1000000000"

text \<open>The zero \<^verbatim>\<open>time.Time\<close> is 0001-01-01T00:00:00Z.\<close>

definition zero_time :: gotime where
  "zero_time = - 62135596800 * 1000000000"

definition IsZero :: "gotime \<Rightarrow> bool" where
  "IsZero t \<longleftrightarrow> t = zero_time"

text \<open>
  Days of the proleptic Gregorian calendar before 1 January of a year, and the instant at
  which that year begins (UTC). \<open>Year t \<ge> y\<close> holds exactly from that instant on.
\<close>

definition days_before_year :: "int \<Rightarrow> int" where
  "days_before_year y = 365 * (y - 1) + (y - 1) div 4 - (y - 1) div 100 + (y - 1) div 400"

definition year_start :: "int \<Rightarrow> gotime" where
  "year_start y = zero_time + days_before_year y * 86400 * 1000000000"

definition year_at_least :: "gotime \<Rightarrow> int \<Rightarrow> bool" where
  "year_at_least t y \<longleftrightarrow> year_start y \<le> t"

definition UnixNano :: "gotime \<Rightarrow> int" where
  "UnixNano t = wrap64 t"

text \<open>\<^verbatim>\<open>t.Sub(u)\<close> saturates at the extreme durations.\<close>

definition Sub :: "gotime \<Rightarrow> gotime \<Rightarrow> duration" where
  "Sub t u = max (- (2 ^ 63)) (min (2 ^ 63 - 1) (t - u))"

section \<open>Strings\<close>

text \<open>
  A Go string is its bytes. The white space of \<^verbatim>\<open>strings.TrimSpace\<close> is the set of code
  points below, each given by its UTF-8 encoding.
\<close>

definition space_codes :: "nat list list" where
  "space_codes =
     [[9], [10], [11], [12], [13], [32], [194, 133], [194, 160], [225, 154, 128],
      [226, 128, 128], [226, 128, 129], [226, 128, 130], [226, 128, 131], [226, 128, 132],
      [226, 128, 133], [226, 128, 134], [226, 128, 135], [226, 128, 136], [226, 128, 137],
      [226, 128, 138], [226, 128, 168], [226, 128, 169], [226, 128, 175], [226, 129, 159],
      [227, 128, 128]]"

definition leading_space :: "nat list \<Rightarrow> nat" where
  "leading_space bs =
     (case filter (\<lambda>c. take (length c) bs = c) space_codes of [] \<Rightarrow> 0 | c # _ \<Rightarrow> length c)"

definition trailing_space :: "nat list \<Rightarrow> nat" where
  "trailing_space bs =
     (case filter (\<lambda>c. take (length c) (rev bs) = rev c) space_codes of
        [] \<Rightarrow> 0 | c # _ \<Rightarrow> length c)"

fun trim_left :: "nat \<Rightarrow> nat list \<Rightarrow> nat list" where
  "trim_left 0 bs = bs"
| "trim_left (Suc n) bs =
     (if leading_space bs = 0 then bs else trim_left n (drop (leading_space bs) bs))"

fun trim_right :: "nat \<Rightarrow> nat list \<Rightarrow> nat list" where
  "trim_right 0 bs = bs"
| "trim_right (Suc n) bs =
     (if trailing_space bs = 0 then bs
      else trim_right n (take (length bs - trailing_space bs) bs))"

definition trim_bytes :: "nat list \<Rightarrow> nat list" where
  "trim_bytes bs = (let l = trim_left (length bs) bs in trim_right (length l) l)"

definition TrimSpace :: "string \<Rightarrow> string" where
  "TrimSpace s = map char_of (trim_bytes (map of_char s))"

definition blank :: "string \<Rightarrow> bool" where
  "blank s \<longleftrightarrow> TrimSpace s = []"

lemma trim_left_Nil [simp]: "trim_left n [] = []"
  by (induction n) (auto simp: leading_space_def space_codes_def)

lemma trim_right_Nil [simp]: "trim_right n [] = []"
  by (induction n) (auto simp: trailing_space_def space_codes_def)

lemma blank_empty [simp]: "blank []"
  by (simp add: blank_def TrimSpace_def trim_bytes_def)

text \<open>A string whose trimmed form is not empty is not empty itself.\<close>

lemma not_blank_not_empty: "\<not> blank s \<Longrightarrow> s \<noteq> []"
  by auto


section \<open>Errors as values\<close>

text \<open>
  A fallible operation returns \<open>Inl\<close> of an error or \<open>Inr\<close> of its result.
  \<open>ebind\<close> is the Go idiom that returns an error at once and goes on otherwise;
  \<open>ensure\<close> is a guard with an early return.
\<close>

definition ebind :: "'e + 'a \<Rightarrow> ('a \<Rightarrow> 'e + 'b) \<Rightarrow> 'e + 'b" where
  "ebind m f = (case m of Inl e \<Rightarrow> Inl e | Inr x \<Rightarrow> f x)"

definition ensure :: "bool \<Rightarrow> 'e \<Rightarrow> 'e + unit" where
  "ensure b e = (if b then Inr () else Inl e)"

lemma ebind_Inl [simp]: "ebind (Inl e) f = Inl e"
  by (simp add: ebind_def)

lemma ebind_Inr [simp]: "ebind (Inr x) f = f x"
  by (simp add: ebind_def)

lemma ebind_eq_Inr [monad_splits]: "ebind m f = Inr y \<longleftrightarrow> (\<exists>x. m = Inr x \<and> f x = Inr y)"
  by (cases m) auto

lemma ebind_eq_Inl [monad_splits]:
  "ebind m f = Inl e \<longleftrightarrow> m = Inl e \<or> (\<exists>x. m = Inr x \<and> f x = Inl e)"
  by (cases m) auto

lemma ebind_cong [fundef_cong]:
  "m = m' \<Longrightarrow> (\<And>x. m' = Inr x \<Longrightarrow> f x = f' x) \<Longrightarrow> ebind m f = ebind m' f'"
  by (cases m') auto

lemma ensure_eq_Inr [simp]: "ensure b e = Inr u \<longleftrightarrow> b"
  by (simp add: ensure_def)

lemma ensure_eq_Inl [simp]: "ensure b e = Inl e' \<longleftrightarrow> \<not> b \<and> e' = e"
  by (auto simp: ensure_def)

lemma ensure_True [simp]: "ensure True e = Inr ()"
  by (simp add: ensure_def)

lemma ensure_False [simp]: "ensure False e = Inl e"
  by (simp add: ensure_def)

section \<open>Floating point\<close>

datatype f64 = FNaN | FInf bool | Fin real

text \<open>
  The arithmetic the processor and package \<^verbatim>\<open>math\<close> provide: \<open>rnd\<close> rounds the exact
  result of an operation, \<open>fcos\<close> and \<open>fhypot\<close> are \<^verbatim>\<open>math.Cos\<close> and
  \<^verbatim>\<open>math.Hypot\<close>.
\<close>

record fpu =
  rnd :: "real \<Rightarrow> f64"
  fcos :: "f64 \<Rightarrow> f64"
  fhypot :: "f64 \<Rightarrow> f64 \<Rightarrow> f64"

fun f_lt :: "f64 \<Rightarrow> f64 \<Rightarrow> bool" where
  "f_lt (Fin x) (Fin y) = (x < y)"
| "f_lt (FInf s) (Fin y) = (\<not> s)"
| "f_lt (Fin x) (FInf t) = t"
| "f_lt (FInf s) (FInf t) = (\<not> s \<and> t)"
| "f_lt _ _ = False"

fun f_le :: "f64 \<Rightarrow> f64 \<Rightarrow> bool" where
  "f_le (Fin x) (Fin y) = (x \<le> y)"
| "f_le (FInf s) (Fin y) = (\<not> s)"
| "f_le (Fin x) (FInf t) = t"
| "f_le (FInf s) (FInf t) = (\<not> s \<or> t)"
| "f_le _ _ = False"

fun finite64 :: "f64 \<Rightarrow> bool" where
  "finite64 (Fin x) = True"
| "finite64 _ = False"

fun f_neg :: "f64 \<Rightarrow> f64" where
  "f_neg (Fin x) = Fin (- x)"
| "f_neg (FInf s) = FInf (\<not> s)"
| "f_neg FNaN = FNaN"

fun f_abs :: "f64 \<Rightarrow> f64" where
  "f_abs (Fin x) = Fin \<bar>x\<bar>"
| "f_abs (FInf s) = FInf True"
| "f_abs FNaN = FNaN"

fun f_add :: "fpu \<Rightarrow> f64 \<Rightarrow> f64 \<Rightarrow> f64" where
  "f_add F (Fin x) (Fin y) = rnd F (x + y)"
| "f_add F (FInf s) (Fin y) = FInf s"
| "f_add F (Fin x) (FInf t) = FInf t"
| "f_add F (FInf s) (FInf t) = (if s = t then FInf s else FNaN)"
| "f_add F _ _ = FNaN"

definition f_sub :: "fpu \<Rightarrow> f64 \<Rightarrow> f64 \<Rightarrow> f64" where
  "f_sub F x y = f_add F x (f_neg y)"

fun f_mul :: "fpu \<Rightarrow> f64 \<Rightarrow> f64 \<Rightarrow> f64" where
  "f_mul F (Fin x) (Fin y) = rnd F (x * y)"
| "f_mul F (FInf s) (Fin y) = (if y = 0 then FNaN else FInf (s = (0 < y)))"
| "f_mul F (Fin x) (FInf t) = (if x = 0 then FNaN else FInf (t = (0 < x)))"
| "f_mul F (FInf s) (FInf t) = FInf (s = t)"
| "f_mul F _ _ = FNaN"

fun f_div :: "fpu \<Rightarrow> f64 \<Rightarrow> f64 \<Rightarrow> f64" where
  "f_div F (Fin x) (Fin y) =
     (if y = 0 then if x = 0 then FNaN else FInf (0 < x) else rnd F (x / y))"
| "f_div F (FInf s) (Fin y) = FInf (s = (0 \<le> y))"
| "f_div F (Fin x) (FInf t) = Fin 0"
| "f_div F _ _ = FNaN"

text \<open>\<^verbatim>\<open>math.Max\<close>: positive infinity wins over NaN, NaN over everything else.\<close>

definition f_max :: "f64 \<Rightarrow> f64 \<Rightarrow> f64" where
  "f_max x y =
     (if x = FInf True \<or> y = FInf True then FInf True
      else if x = FNaN \<or> y = FNaN then FNaN
      else if f_lt y x then x else y)"

text \<open>\<^verbatim>\<open>Duration.Seconds\<close>: whole seconds plus the remaining nanoseconds over 1e9.\<close>

definition Seconds :: "fpu \<Rightarrow> duration \<Rightarrow> f64" where
  "Seconds F d =
     f_add F (rnd F (of_int (quot d Second)))
       (f_div F (rnd F (of_int (rem d Second))) (Fin 1000000000))"

lemma f_le_iff_not_lt: "x \<noteq> FNaN \<Longrightarrow> y \<noteq> FNaN \<Longrightarrow> f_le x y \<longleftrightarrow> \<not> f_lt y x"
  by (cases x; cases y) auto

lemma f_lt_not_le: "f_lt x y \<Longrightarrow> \<not> f_le y x"
  by (cases x; cases y) auto

lemma f_lt_irrefl [simp]: "\<not> f_lt x x"
  by (cases x) auto

lemma finite64_iff: "finite64 x \<longleftrightarrow> (\<exists>r. x = Fin r)"
  by (cases x) auto

text \<open>
  Exact arithmetic: no rounding, the mathematical functions. It is the reference against
  which geometry is specified.
\<close>

definition exact_fpu :: fpu where
  "exact_fpu =
     \<lparr>rnd = Fin,
      fcos = (\<lambda>x. case x of Fin r \<Rightarrow> Fin (cos r) | _ \<Rightarrow> FNaN),
      fhypot = (\<lambda>x y. case (x, y) of (Fin a, Fin b) \<Rightarrow> Fin (sqrt (a\<^sup>2 + b\<^sup>2))
                  | (FInf _, _) \<Rightarrow> FInf True | (_, FInf _) \<Rightarrow> FInf True | _ \<Rightarrow> FNaN)\<rparr>"

lemma rnd_exact [simp]: "rnd exact_fpu = Fin"
  by (simp add: exact_fpu_def)

lemma fcos_exact [simp]: "fcos exact_fpu (Fin r) = Fin (cos r)"
  by (simp add: exact_fpu_def)

lemma fhypot_exact [simp]: "fhypot exact_fpu (Fin a) (Fin b) = Fin (sqrt (a\<^sup>2 + b\<^sup>2))"
  by (simp add: exact_fpu_def)

lemma f_sub_exact [simp]: "f_sub exact_fpu (Fin a) (Fin b) = Fin (a - b)"
  by (simp add: f_sub_def)

end
