(* ===== verification/Domain.thy ===== *)
theory Domain
  imports Prelude
begin

text \<open>
  The infrastructure-independent contracts of \<^verbatim>\<open>internal/domain/types.go\<close>: one record per
  struct, one datatype per set of string constants. A Go string type also has the empty
  value; where the code looks at it (\<^verbatim>\<open>IncidentPhase\<close>, \<^verbatim>\<open>AltitudeReference\<close>) it is a
  constructor of its own.
\<close>

section \<open>Status axes\<close>

datatype condition =
  ConditionUnknown | ConditionConforming | ConditionSuspected | ConditionNonConforming
  | ConditionRecovering

datatype monitoring_status =
  MonitoringReceived | MonitoringArmed | MonitoringCurrent | MonitoringStale
  | MonitoringUnavailable

datatype recording_status = RecordingPending | RecordingConfirmed | RecordingDegraded

datatype violation_type =
  ViolationLateral | ViolationVertical | ViolationTemporal | ViolationTelemetryLoss

datatype altitude_reference = AltitudeUnset | AltitudeMSL | AltitudeAGL

section \<open>Assignments\<close>

record point =
  pt_Latitude :: f64
  pt_Longitude :: f64

record volume =
  vol_ID :: string
  vol_Polygon :: "point list"
  vol_AltitudeLowerM :: f64
  vol_AltitudeUpperM :: f64
  vol_AltitudeReference :: altitude_reference
  vol_StartsAt :: gotime
  vol_EndsAt :: gotime

record assignment =
  asg_ID :: string
  asg_Generation :: nat
  asg_OperatorID :: string
  asg_AircraftID :: string
  asg_AgentID :: string
  asg_FlightID :: string
  asg_IntentID :: string
  asg_IntentVersion :: nat
  asg_PolicyVersion :: string
  asg_EffectiveFrom :: gotime
  asg_EffectiveUntil :: gotime
  asg_Volumes :: "volume list"

datatype assignment_lifecycle =
  AssignmentReceived | AssignmentArmed | AssignmentActive | AssignmentEnding
  | AssignmentCompleted | AssignmentCancelled | AssignmentSuperseded

record assignment_record =
  rec_Assignment :: assignment
  rec_Lifecycle :: assignment_lifecycle
  rec_AuthorityFrom :: "gotime option"
  rec_AuthorityUntil :: "gotime option"
  rec_PreparedAt :: gotime
  rec_ArmedAt :: "gotime option"
  rec_CutoverAt :: "gotime option"

definition Authorizes :: "assignment_record \<Rightarrow> gotime \<Rightarrow> bool" where
  "Authorizes r observedAt \<longleftrightarrow>
     (case rec_AuthorityFrom r of None \<Rightarrow> False
      | Some f \<Rightarrow> \<not> observedAt < f \<and>
          (case rec_AuthorityUntil r of None \<Rightarrow> True | Some u \<Rightarrow> observedAt < u))"

section \<open>Observations, incidents, evaluations\<close>

record observation =
  obs_FrameID :: string
  obs_AgentID :: string
  obs_WALID :: string
  obs_WALSequence :: nat
  obs_AircraftID :: string
  obs_FlightID :: string
  obs_IntentID :: string
  obs_IntentVersion :: nat
  obs_Latitude :: f64
  obs_Longitude :: f64
  obs_AltitudeM :: f64
  obs_AltitudeKnown :: bool
  obs_AltitudeReference :: altitude_reference
  obs_ObservedAt :: gotime

datatype incident_phase =
  PhaseUnset | IncidentClear | IncidentSuspected | IncidentOpen | IncidentRecovering

record incident_state =
  is_Phase :: incident_phase
  is_OpeningFrameID :: string
  is_ConsecutiveOutside :: int
  is_ConsecutiveInside :: int
  is_FirstSuspectedAt :: gotime
  is_OpenedAt :: gotime
  is_LastObservedAt :: gotime
  is_WorstDeviationM :: f64

text \<open>The zero value of the struct: what reading an absent map key gives.\<close>

definition zero_incident :: incident_state where
  "zero_incident =
     \<lparr>is_Phase = PhaseUnset, is_OpeningFrameID = [], is_ConsecutiveOutside = 0,
      is_ConsecutiveInside = 0, is_FirstSuspectedAt = zero_time, is_OpenedAt = zero_time,
      is_LastObservedAt = zero_time, is_WorstDeviationM = Fin 0\<rparr>"

record evaluator_state =
  Violations :: "violation_type \<rightharpoonup> incident_state"

definition empty_state :: evaluator_state where
  "empty_state = \<lparr>Violations = Map.empty\<rparr>"

datatype transition = TransitionOpened | TransitionUpdated | TransitionResolved

record incident_transition =
  tr_Violation :: violation_type
  tr_Transition :: transition
  tr_ObservedAt :: gotime
  tr_FrameID :: string
  tr_OpeningFrameID :: string
  tr_WALID :: string
  tr_WALSequence :: nat
  tr_DeviationM :: f64

record evaluation =
  ev_Condition :: condition
  ev_Monitoring :: monitoring_status
  ev_Recording :: recording_status
  ev_State :: evaluator_state
  ev_Transitions :: "incident_transition list"
  ev_CausalFrom :: gotime
  ev_ObservedAt :: gotime
  ev_FrameID :: string
  ev_WALID :: string
  ev_WALSequence :: nat

section \<open>Facts\<close>

text \<open>Go maps are read with a default: the zero incident for an absent key.\<close>

definition state_of :: "(violation_type \<rightharpoonup> incident_state) \<Rightarrow> violation_type \<Rightarrow> incident_state" where
  "state_of m v = (case m v of None \<Rightarrow> zero_incident | Some s \<Rightarrow> s)"

lemma state_of_upd [simp]: "state_of (m(v \<mapsto> s)) w = (if w = v then s else state_of m w)"
  by (simp add: state_of_def)

lemma state_of_empty [simp]: "state_of Map.empty v = zero_incident"
  by (simp add: state_of_def)

lemma zero_incident_simps [simp]:
  "is_Phase zero_incident = PhaseUnset" "is_OpeningFrameID zero_incident = []"
  "is_ConsecutiveOutside zero_incident = 0" "is_ConsecutiveInside zero_incident = 0"
  "is_FirstSuspectedAt zero_incident = zero_time" "is_OpenedAt zero_incident = zero_time"
  "is_LastObservedAt zero_incident = zero_time" "is_WorstDeviationM zero_incident = Fin 0"
  by (simp_all add: zero_incident_def)

text \<open>The keys a violations map can have.\<close>

definition violation_types :: "violation_type list" where
  "violation_types =
     [ViolationLateral, ViolationVertical, ViolationTemporal, ViolationTelemetryLoss]"

lemma set_violation_types [simp]: "set violation_types = UNIV"
  by (auto simp: violation_types_def intro: violation_type.exhaust)

lemma distinct_violation_types [simp]: "distinct violation_types"
  by (simp add: violation_types_def)

text \<open>
  Authority intervals are half-open: two records whose intervals meet at a boundary never
  both authorise an instant.
\<close>

lemma Authorizes_iff:
  "rec_AuthorityFrom r = Some f \<Longrightarrow> rec_AuthorityUntil r = Some u \<Longrightarrow>
   Authorizes r t \<longleftrightarrow> f \<le> t \<and> t < u"
  by (auto simp: Authorizes_def)

end
