(* ===== verification/Geometry.thy ===== *)
theory Geometry
  imports Domain
begin

text \<open>
  The geometry of \<^verbatim>\<open>internal/evaluator/evaluator.go\<close>: even-odd containment in a polygon
  ring, the distance in metres from an observation to a ring (local equirectangular
  projection) and the vertical distance to a volume's altitude band. Every operation on
  floats goes through the \<open>fpu\<close> parameter; the specification is stated for
  \<open>exact_fpu\<close>.
\<close>

section \<open>Definitions\<close>

text \<open>One edge of the even-odd test: does the ray from \<open>(x, y)\<close> cross it?\<close>

definition crosses :: "fpu \<Rightarrow> f64 \<Rightarrow> f64 \<Rightarrow> point \<Rightarrow> point \<Rightarrow> bool" where
  "crosses F x y p q \<longleftrightarrow>
     (let xi = pt_Longitude p; yi = pt_Latitude p; xj = pt_Longitude q; yj = pt_Latitude q
      in (f_lt y yi \<noteq> f_lt y yj) \<and>
         f_lt x (f_add F (f_div F (f_mul F (f_sub F xj xi) (f_sub F y yi)) (f_sub F yj yi)) xi))"

fun pip_loop :: "fpu \<Rightarrow> f64 \<Rightarrow> f64 \<Rightarrow> point \<Rightarrow> point list \<Rightarrow> bool \<Rightarrow> bool" where
  "pip_loop F x y j [] inside = inside"
| "pip_loop F x y j (i # ring) inside =
     pip_loop F x y i ring (if crosses F x y i j then \<not> inside else inside)"

definition pointInPolygon :: "fpu \<Rightarrow> f64 \<Rightarrow> f64 \<Rightarrow> point list \<Rightarrow> bool" where
  "pointInPolygon F x y ring =
     (if length ring < 3 then False else pip_loop F x y (last ring) ring False)"

text \<open>The untyped constant \<^verbatim>\<open>math.Pi\<close> converted to \<^verbatim>\<open>float64\<close>.\<close>

definition pi64 :: f64 where
  "pi64 = Fin (884279719003555 / 281474976710656)"

definition segment_distance :: "fpu \<Rightarrow> f64 \<Rightarrow> observation \<Rightarrow> point \<Rightarrow> point \<Rightarrow> f64" where
  "segment_distance F lonScale obs p q =
     (let latScale = Fin 111132;
          ax = f_mul F (f_sub F (pt_Longitude p) (obs_Longitude obs)) lonScale;
          ay = f_mul F (f_sub F (pt_Latitude p) (obs_Latitude obs)) latScale;
          bx = f_mul F (f_sub F (pt_Longitude q) (obs_Longitude obs)) lonScale;
          by' = f_mul F (f_sub F (pt_Latitude q) (obs_Latitude obs)) latScale;
          dx = f_sub F bx ax;
          dy = f_sub F by' ay;
          denom = f_add F (f_mul F dx dx) (f_mul F dy dy);
          t0 = f_div F (f_neg (f_add F (f_mul F ax dx) (f_mul F ay dy))) denom;
          t = (if f_lt (Fin 0) denom
               then if f_lt t0 (Fin 0) then Fin 0 else if f_lt (Fin 1) t0 then Fin 1 else t0
               else Fin 0)
      in fhypot F (f_add F ax (f_mul F t dx)) (f_add F ay (f_mul F t dy)))"

fun nearest_loop :: "fpu \<Rightarrow> f64 \<Rightarrow> observation \<Rightarrow> (point \<times> point) list \<Rightarrow> f64 \<Rightarrow> f64" where
  "nearest_loop F lonScale obs [] best = best"
| "nearest_loop F lonScale obs ((p, q) # edges) best =
     (let distance = segment_distance F lonScale obs p q
      in nearest_loop F lonScale obs edges (if f_lt distance best then distance else best))"

text \<open>Edge \<open>i\<close> goes from vertex \<open>i\<close> to vertex \<open>(i + 1) mod n\<close>.\<close>

definition ring_edges :: "point list \<Rightarrow> (point \<times> point) list" where
  "ring_edges ring = zip ring (rotate1 ring)"

definition lon_scale :: "fpu \<Rightarrow> observation \<Rightarrow> f64" where
  "lon_scale F obs =
     f_mul F (Fin 111320) (fcos F (f_div F (f_mul F (obs_Latitude obs) pi64) (Fin 180)))"

definition distanceToRingMeters :: "fpu \<Rightarrow> observation \<Rightarrow> point list \<Rightarrow> f64" where
  "distanceToRingMeters F obs ring =
     (if length ring < 2 then FInf True
      else nearest_loop F (lon_scale F obs) obs (ring_edges ring) (FInf True))"

definition altitudeDeviationFromVolume :: "fpu \<Rightarrow> observation \<Rightarrow> volume \<Rightarrow> f64" where
  "altitudeDeviationFromVolume F obs v =
     (if f_lt (obs_AltitudeM obs) (vol_AltitudeLowerM v)
      then f_sub F (vol_AltitudeLowerM v) (obs_AltitudeM obs)
      else if f_lt (vol_AltitudeUpperM v) (obs_AltitudeM obs)
      then f_sub F (obs_AltitudeM obs) (vol_AltitudeUpperM v)
      else Fin 0)"

definition finite :: "f64 \<Rightarrow> bool" where
  "finite v \<longleftrightarrow> finite64 v"

definition finiteNonnegative :: "f64 \<Rightarrow> bool" where
  "finiteNonnegative v \<longleftrightarrow> finite v \<and> f_le (Fin 0) v"

definition validCoordinate :: "f64 \<Rightarrow> f64 \<Rightarrow> bool" where
  "validCoordinate lat lon \<longleftrightarrow>
     finite lat \<and> finite lon \<and> f_le (Fin (- 90)) lat \<and> f_le lat (Fin 90) \<and>
     f_le (Fin (- 180)) lon \<and> f_le lon (Fin 180)"

section \<open>Containment\<close>

text \<open>A degenerate edge is never crossed, whatever the arithmetic.\<close>

lemma crosses_refl [simp]: "\<not> crosses F x y p p"
  by (simp add: crosses_def)

lemma pip_loop_append:
  "pip_loop F x y j (xs @ ys) b =
   pip_loop F x y (if xs = [] then j else last xs) ys (pip_loop F x y j xs b)"
  by (induction xs arbitrary: j b) auto

text \<open>The crossing parity is what the loop computes.\<close>

fun crossings :: "fpu \<Rightarrow> f64 \<Rightarrow> f64 \<Rightarrow> point \<Rightarrow> point list \<Rightarrow> nat" where
  "crossings F x y j [] = 0"
| "crossings F x y j (i # ring) = of_bool (crosses F x y i j) + crossings F x y i ring"

lemma pip_loop_parity: "pip_loop F x y j ring b \<longleftrightarrow> (b \<noteq> odd (crossings F x y j ring))"
  by (induction ring arbitrary: j b) auto

text \<open>Repeating the first vertex at the end closes the ring without changing the answer.\<close>

lemma pointInPolygon_closed_ring:
  assumes "3 \<le> length ring"
  shows "pointInPolygon F x y (ring @ [hd ring]) = pointInPolygon F x y ring"
proof -
  obtain p ps where "ring = p # ps" and "ps \<noteq> []"
    using assms by (cases ring; cases "tl ring") auto
  then show ?thesis
    using assms by (simp add: pointInPolygon_def pip_loop_append)
      (simp add: pip_loop_parity)
qed

section \<open>Distance: exact arithmetic\<close>

definition finite_point :: "point \<Rightarrow> bool" where
  "finite_point p \<longleftrightarrow> finite64 (pt_Latitude p) \<and> finite64 (pt_Longitude p)"

fun real_of :: "f64 \<Rightarrow> real" where
  "real_of (Fin x) = x"
| "real_of _ = 0"

text \<open>Metres east and north of the observation, for the longitude scale \<open>s\<close>.\<close>

definition east :: "real \<Rightarrow> observation \<Rightarrow> point \<Rightarrow> real" where
  "east s obs p = (real_of (pt_Longitude p) - real_of (obs_Longitude obs)) * s"

definition north :: "observation \<Rightarrow> point \<Rightarrow> real" where
  "north obs p = (real_of (pt_Latitude p) - real_of (obs_Latitude obs)) * 111132"

text \<open>The distance from the observation to the point at parameter \<open>t\<close> of an edge.\<close>

definition edge_distance :: "real \<Rightarrow> observation \<Rightarrow> point \<Rightarrow> point \<Rightarrow> real \<Rightarrow> real" where
  "edge_distance s obs p q t =
     sqrt ((east s obs p + t * (east s obs q - east s obs p))\<^sup>2 +
           (north obs p + t * (north obs q - north obs p))\<^sup>2)"

lemma quadratic_clamp_min:
  fixes a b d e t :: real
  assumes pos: "0 < d\<^sup>2 + e\<^sup>2" and t: "0 \<le> t" "t \<le> 1"
  defines "u \<equiv> - (a * d + b * e) / (d\<^sup>2 + e\<^sup>2)"
  defines "c \<equiv> if u < 0 then 0 else if 1 < u then 1 else u"
  shows "(a + c * d)\<^sup>2 + (b + c * e)\<^sup>2 \<le> (a + t * d)\<^sup>2 + (b + t * e)\<^sup>2"
proof -
  let ?D = "d\<^sup>2 + e\<^sup>2"
  have u: "a * d + b * e = - u * ?D"
    using pos by (simp add: u_def)
  have "((a + t * d)\<^sup>2 + (b + t * e)\<^sup>2) - ((a + c * d)\<^sup>2 + (b + c * e)\<^sup>2) =
      (t - c) * (2 * (a * d + b * e) + (t + c) * ?D)"
    by (simp add: power2_eq_square algebra_simps)
  also have "\<dots> = ?D * ((t - c) * ((t - u) + (c - u)))"
    unfolding u by (simp add: algebra_simps)
  finally have diff': "((a + t * d)\<^sup>2 + (b + t * e)\<^sup>2) - ((a + c * d)\<^sup>2 + (b + c * e)\<^sup>2) =
      ?D * ((t - c) * ((t - u) + (c - u)))" .
  have "0 \<le> (t - c) * ((t - u) + (c - u))"
    using t by (auto simp: c_def mult_nonpos_nonpos)
  with pos have "0 \<le> ?D * ((t - c) * ((t - u) + (c - u)))"
    by simp
  with diff' show ?thesis by linarith
qed

text \<open>One edge: the clamped projection is a nearest point of the segment.\<close>

lemma segment_distance_exact:
  assumes "finite_point p" "finite_point q"
    and "finite64 (obs_Latitude obs)" "finite64 (obs_Longitude obs)"
  obtains c where "0 \<le> c" "c \<le> 1"
    and "segment_distance exact_fpu (Fin s) obs p q = Fin (edge_distance s obs p q c)"
    and "\<And>t. 0 \<le> t \<Longrightarrow> t \<le> 1 \<Longrightarrow> edge_distance s obs p q c \<le> edge_distance s obs p q t"
proof -
  define a b where "a = east s obs p" and "b = north obs p"
  define d e where "d = east s obs q - a" and "e = north obs q - b"
  define u where "u = - (a * d + b * e) / (d\<^sup>2 + e\<^sup>2)"
  define c where "c = (if 0 < d\<^sup>2 + e\<^sup>2 then if u < 0 then 0 else if 1 < u then 1 else u else 0)"
  from assms obtain pl pm ql qm ol om where
    eqs: "pt_Latitude p = Fin pl" "pt_Longitude p = Fin pm" "pt_Latitude q = Fin ql"
      "pt_Longitude q = Fin qm" "obs_Latitude obs = Fin ol" "obs_Longitude obs = Fin om"
    by (auto simp: finite_point_def finite64_iff)
  have sub: "f_sub exact_fpu (Fin (east s obs q)) (Fin a) = Fin d"
      "f_sub exact_fpu (Fin (north obs q)) (Fin b) = Fin e"
    by (simp_all add: d_def e_def)
  have mul: "f_mul exact_fpu (f_sub exact_fpu (pt_Longitude p) (obs_Longitude obs)) (Fin s) = Fin a"
      "f_mul exact_fpu (f_sub exact_fpu (pt_Latitude p) (obs_Latitude obs)) (Fin 111132) = Fin b"
      "f_mul exact_fpu (f_sub exact_fpu (pt_Longitude q) (obs_Longitude obs)) (Fin s) =
         Fin (east s obs q)"
      "f_mul exact_fpu (f_sub exact_fpu (pt_Latitude q) (obs_Latitude obs)) (Fin 111132) =
         Fin (north obs q)"
    by (simp_all add: eqs a_def b_def east_def north_def)
  have "segment_distance exact_fpu (Fin s) obs p q = Fin (sqrt ((a + c * d)\<^sup>2 + (b + c * e)\<^sup>2))"
    unfolding segment_distance_def Let_def mul sub
    by (auto simp add: u_def c_def power2_eq_square)
  moreover have "0 \<le> c" "c \<le> 1"
    by (auto simp: c_def)
  moreover have "sqrt ((a + c * d)\<^sup>2 + (b + c * e)\<^sup>2) \<le> sqrt ((a + t * d)\<^sup>2 + (b + t * e)\<^sup>2)"
    if "0 \<le> t" "t \<le> 1" for t
  proof (cases "0 < d\<^sup>2 + e\<^sup>2")
    case True
    then show ?thesis
      using quadratic_clamp_min [OF True that, of a b, folded u_def] by (simp add: c_def)
  next
    case False
    then have "d = 0" "e = 0"
      by (simp_all add: sum_power2_gt_zero_iff)
    then show ?thesis by simp
  qed
  ultimately show thesis
    by (intro that [of c]) (simp_all add: edge_distance_def a_def b_def d_def e_def)
qed

text \<open>A ring's boundary, as its distances from the observation.\<close>

definition boundary_distances :: "real \<Rightarrow> observation \<Rightarrow> (point \<times> point) list \<Rightarrow> real set" where
  "boundary_distances s obs edges =
     {edge_distance s obs p q t | p q t. (p, q) \<in> set edges \<and> 0 \<le> t \<and> t \<le> 1}"

definition is_least :: "real \<Rightarrow> real set \<Rightarrow> bool" where
  "is_least d S \<longleftrightarrow> d \<in> S \<and> (\<forall>x \<in> S. d \<le> x)"

lemma is_least_unique: "is_least d S \<Longrightarrow> is_least e S \<Longrightarrow> d = e"
  by (auto simp: is_least_def intro: antisym)

lemma boundary_distances_Cons:
  "boundary_distances s obs ((p, q) # edges) =
   {edge_distance s obs p q t | t. 0 \<le> t \<and> t \<le> 1} \<union> boundary_distances s obs edges"
  by (auto simp: boundary_distances_def)

text \<open>The running minimum over a non-empty list of edges.\<close>

lemma nearest_loop_exact:
  assumes "\<And>p q. (p, q) \<in> set edges \<Longrightarrow> finite_point p \<and> finite_point q"
    and "finite64 (obs_Latitude obs)" "finite64 (obs_Longitude obs)"
    and "best = Fin b \<and> is_least b S \<or> best = FInf True \<and> S = {} \<and> edges \<noteq> []"
  shows "\<exists>d. nearest_loop exact_fpu (Fin s) obs edges best = Fin d \<and>
             is_least d (S \<union> boundary_distances s obs edges)"
  using assms(1,4)
proof (induction edges arbitrary: best b S)
  case Nil
  then show ?case by (auto simp: boundary_distances_def)
next
  case (Cons e edges)
  obtain p q where e: "e = (p, q)" by (cases e)
  obtain c where c: "0 \<le> c" "c \<le> 1"
      "segment_distance exact_fpu (Fin s) obs p q = Fin (edge_distance s obs p q c)"
      "\<And>t. 0 \<le> t \<Longrightarrow> t \<le> 1 \<Longrightarrow> edge_distance s obs p q c \<le> edge_distance s obs p q t"
    using segment_distance_exact [of p q obs s] Cons.prems(1) [of p q] assms(2,3) e by auto
  define D where "D = edge_distance s obs p q c"
  define E where "E = {edge_distance s obs p q t | t. 0 \<le> t \<and> t \<le> 1}"
  have E: "is_least D E"
    using c by (auto simp: is_least_def D_def E_def)
  define best' where "best' = (if f_lt (Fin D) best then Fin D else best)"
  have "\<exists>b'. best' = Fin b' \<and> is_least b' (S \<union> E)"
    using Cons.prems(2) E by (force simp: best'_def is_least_def)
  then obtain b' where b': "best' = Fin b' \<and> is_least b' (S \<union> E)" by blast
  obtain d where "nearest_loop exact_fpu (Fin s) obs edges best' = Fin d"
      "is_least d (S \<union> E \<union> boundary_distances s obs edges)"
    using Cons.IH [of best' b' "S \<union> E"] Cons.prems(1) b' by auto
  then show ?case
    by (simp add: e c(3) D_def [symmetric] best'_def [symmetric] boundary_distances_Cons
        E_def [symmetric] Un_assoc)
qed

lemma set_ring_edges: "(p, q) \<in> set (ring_edges ring) \<Longrightarrow> p \<in> set ring \<and> q \<in> set ring"
  by (auto simp: ring_edges_def dest: set_zip_leftD set_zip_rightD)

definition finite_geometry :: "observation \<Rightarrow> point list \<Rightarrow> bool" where
  "finite_geometry obs ring \<longleftrightarrow>
     finite64 (obs_Latitude obs) \<and> finite64 (obs_Longitude obs) \<and> list_all finite_point ring"

lemma lon_scale_exact:
  "finite64 (obs_Latitude obs) \<Longrightarrow> \<exists>s. lon_scale exact_fpu obs = Fin s"
  by (auto simp: lon_scale_def pi64_def finite64_iff)

text \<open>The reference: the metres to a nearest boundary point.\<close>

lemma distanceToRing_is_least:
  assumes "finite_geometry obs ring" and "2 \<le> length ring"
    and "lon_scale exact_fpu obs = Fin s"
  shows "\<exists>d. distanceToRingMeters exact_fpu obs ring = Fin d \<and>
             is_least d (boundary_distances s obs (ring_edges ring))"
proof -
  have "ring_edges ring \<noteq> []"
    using assms(2) by (cases ring) (auto simp: ring_edges_def)
  moreover have "finite_point p \<and> finite_point q" if "(p, q) \<in> set (ring_edges ring)" for p q
    using that assms(1) set_ring_edges [OF that] by (auto simp: finite_geometry_def list_all_iff)
  ultimately show ?thesis
    using nearest_loop_exact [of "ring_edges ring" obs "FInf True" 0 "{}" s] assms
    by (auto simp: distanceToRingMeters_def finite_geometry_def)
qed

lemma altitude_deviation_exact:
  assumes "obs_AltitudeM obs = Fin a" "vol_AltitudeLowerM v = Fin l" "vol_AltitudeUpperM v = Fin u"
    and "l \<le> u"
  shows "altitudeDeviationFromVolume exact_fpu obs v = Fin (max 0 (max (l - a) (a - u)))"
  using assms by (auto simp: altitudeDeviationFromVolume_def)

lemma ring_edges_closed:
  "ring_edges ((p # ps) @ [p]) = ring_edges (p # ps) @ [(p, p)]"
  using zip_append [of "p # ps" "ps @ [p]" "[p]" "[p]"] by (simp add: ring_edges_def)

lemma edge_distance_degenerate:
  "edge_distance s obs p p t = edge_distance s obs p q 0"
  by (simp add: edge_distance_def)

lemma boundary_distances_closed:
  assumes "2 \<le> length ring"
  shows "boundary_distances s obs (ring_edges (ring @ [hd ring])) =
         boundary_distances s obs (ring_edges ring)"
proof -
  obtain p q ps where ring: "ring = p # q # ps"
    using assms by (cases ring; cases "tl ring") auto
  have "(p, q) \<in> set (ring_edges ring)"
    by (simp add: ring ring_edges_def)
  then have "edge_distance s obs p q 0 \<in> boundary_distances s obs (ring_edges ring)"
    by (force simp: boundary_distances_def)
  then have "edge_distance s obs p p t \<in> boundary_distances s obs (ring_edges ring)" for t
    using edge_distance_degenerate [of s obs p t q] by metis
  moreover have "ring_edges (ring @ [hd ring]) = ring_edges ring @ [(p, p)]"
    using ring_edges_closed [of p "q # ps"] by (simp add: ring)
  ultimately show ?thesis
    by (auto simp: boundary_distances_def)
qed

end
