(* ===== verification/Evaluator.thy ===== *)
theory Evaluator
  imports Geometry
begin

text \<open>
  The deterministic evaluator of \<^verbatim>\<open>internal/evaluator/evaluator.go\<close>: policy and assignment
  validation, the evidence one observation gives for each violation type, the incident state
  machine with its hysteresis, and the evaluation of an ordered batch. Go maps are partial
  functions; where the code ranges over a map, whose order Go leaves open, the model ranges
  over the keys in declaration order and a lemma shows that the order does not matter.
\<close>

section \<open>Policy and validation\<close>

record policy =
  pol_Version :: string
  pol_HorizontalToleranceM :: f64
  pol_VerticalToleranceM :: f64
  pol_OpenAfterSamples :: int
  pol_RecoverAfterSamples :: int
  pol_TelemetryFreshness :: duration

text \<open>Every error wraps \<^verbatim>\<open>ErrInvalidInput\<close>; the constructor names the message.\<close>

datatype eval_error =
  IncompletePolicy | InvalidAssignment | InvalidVolume string | InvalidVolumeCoordinate
  | ObservationMismatch | EmptyBatch | BatchNotOrdered

definition Validate :: "policy \<Rightarrow> eval_error + unit" where
  "Validate p =
     (if pol_Version p = [] \<or> \<not> finiteNonnegative (pol_HorizontalToleranceM p) \<or>
         \<not> finiteNonnegative (pol_VerticalToleranceM p) \<or> pol_OpenAfterSamples p < 1 \<or>
         pol_RecoverAfterSamples p < 1 \<or> pol_TelemetryFreshness p \<le> 0
      then Inl IncompletePolicy else Inr ())"

definition New :: "policy \<Rightarrow> eval_error + policy" where
  "New p = ebind (Validate p) (\<lambda>_. Inr p)"

fun validatePoints :: "point list \<Rightarrow> eval_error + unit" where
  "validatePoints [] = Inr ()"
| "validatePoints (p # ps) =
     (if \<not> validCoordinate (pt_Latitude p) (pt_Longitude p) then Inl InvalidVolumeCoordinate
      else validatePoints ps)"

fun validateVolumes :: "volume list \<Rightarrow> eval_error + unit" where
  "validateVolumes [] = Inr ()"
| "validateVolumes (v # vs) =
     (if vol_ID v = [] \<or> length (vol_Polygon v) < 3 \<or> \<not> vol_StartsAt v < vol_EndsAt v \<or>
         f_lt (vol_AltitudeUpperM v) (vol_AltitudeLowerM v) \<or>
         \<not> finite (vol_AltitudeLowerM v) \<or> \<not> finite (vol_AltitudeUpperM v)
      then Inl (InvalidVolume (vol_ID v))
      else ebind (validatePoints (vol_Polygon v)) (\<lambda>_. validateVolumes vs))"

definition validateAssignment :: "assignment \<Rightarrow> policy \<Rightarrow> eval_error + unit" where
  "validateAssignment a p =
     (if asg_ID a = [] \<or> asg_Generation a = 0 \<or> asg_AircraftID a = [] \<or> asg_AgentID a = [] \<or>
         asg_FlightID a = [] \<or> asg_IntentID a = [] \<or> asg_IntentVersion a = 0 \<or>
         asg_PolicyVersion a \<noteq> pol_Version p \<or> IsZero (asg_EffectiveFrom a) \<or>
         \<not> asg_EffectiveFrom a < asg_EffectiveUntil a \<or> asg_Volumes a = []
      then Inl InvalidAssignment
      else validateVolumes (asg_Volumes a))"

definition observation_matches :: "assignment \<Rightarrow> observation \<Rightarrow> bool" where
  "observation_matches a obs \<longleftrightarrow>
     \<not> (obs_FrameID obs = [] \<or> obs_AgentID obs = [] \<or> obs_WALID obs = [] \<or>
        obs_AircraftID obs \<noteq> asg_AircraftID a \<or> obs_AgentID obs \<noteq> asg_AgentID a \<or>
        obs_FlightID obs \<noteq> asg_FlightID a \<or> obs_IntentID obs \<noteq> asg_IntentID a \<or>
        obs_IntentVersion obs \<noteq> asg_IntentVersion a \<or> IsZero (obs_ObservedAt obs) \<or>
        \<not> validCoordinate (obs_Latitude obs) (obs_Longitude obs) \<or>
        obs_AltitudeKnown obs \<and> \<not> finite (obs_AltitudeM obs))"

section \<open>The incident state machine\<close>

definition transition_at ::
  "violation_type \<Rightarrow> transition \<Rightarrow> string \<Rightarrow> f64 \<Rightarrow> observation \<Rightarrow> incident_transition" where
  "transition_at v tr opening deviation obs =
     \<lparr>tr_Violation = v, tr_Transition = tr, tr_ObservedAt = obs_ObservedAt obs,
      tr_FrameID = obs_FrameID obs, tr_OpeningFrameID = opening, tr_WALID = obs_WALID obs,
      tr_WALSequence = obs_WALSequence obs, tr_DeviationM = deviation\<rparr>"

definition cleared_at :: "gotime \<Rightarrow> incident_state" where
  "cleared_at t = zero_incident\<lparr>is_Phase := IncidentClear, is_LastObservedAt := t\<rparr>"

text \<open>The counters are Go \<^verbatim>\<open>int\<close>s: an increment wraps at 64 bits.\<close>

definition advance_breached ::
  "policy \<Rightarrow> violation_type \<Rightarrow> incident_state \<Rightarrow> f64 \<Rightarrow> observation \<Rightarrow>
   incident_state \<times> incident_transition option" where
  "advance_breached p v s deviation obs =
     (let s1 = s\<lparr>is_LastObservedAt := obs_ObservedAt obs, is_ConsecutiveInside := 0,
                 is_ConsecutiveOutside := wrap64 (is_ConsecutiveOutside s + 1)\<rparr>;
          s2 = (if f_lt (is_WorstDeviationM s1) deviation
                then s1\<lparr>is_WorstDeviationM := deviation\<rparr> else s1);
          s3 = (case is_Phase s2 of
                  PhaseUnset \<Rightarrow> s2\<lparr>is_Phase := IncidentSuspected,
                                  is_FirstSuspectedAt := obs_ObservedAt obs\<rparr>
                | IncidentClear \<Rightarrow> s2\<lparr>is_Phase := IncidentSuspected,
                                     is_FirstSuspectedAt := obs_ObservedAt obs\<rparr>
                | IncidentRecovering \<Rightarrow> s2\<lparr>is_Phase := IncidentOpen\<rparr>
                | _ \<Rightarrow> s2)
      in if is_Phase s3 = IncidentSuspected \<and> pol_OpenAfterSamples p \<le> is_ConsecutiveOutside s3
         then (s3\<lparr>is_Phase := IncidentOpen, is_OpenedAt := is_FirstSuspectedAt s3,
                  is_OpeningFrameID := obs_FrameID obs\<rparr>,
               Some (transition_at v TransitionOpened (obs_FrameID obs) deviation obs))
         else (s3, None))"

definition advance_inside ::
  "policy \<Rightarrow> violation_type \<Rightarrow> incident_state \<Rightarrow> observation \<Rightarrow>
   incident_state \<times> incident_transition option" where
  "advance_inside p v s obs =
     (let s1 = s\<lparr>is_LastObservedAt := obs_ObservedAt obs, is_ConsecutiveOutside := 0,
                 is_ConsecutiveInside := wrap64 (is_ConsecutiveInside s + 1)\<rparr>
      in if is_Phase s1 = IncidentSuspected then (cleared_at (obs_ObservedAt obs), None)
         else
           let s2 = (if is_Phase s1 = IncidentOpen then s1\<lparr>is_Phase := IncidentRecovering\<rparr> else s1)
           in if is_Phase s2 = IncidentRecovering \<and>
                 pol_RecoverAfterSamples p \<le> is_ConsecutiveInside s2
              then (cleared_at (obs_ObservedAt obs),
                    Some (transition_at v TransitionResolved (is_OpeningFrameID s2) (Fin 0) obs))
              else if is_Phase s2 = PhaseUnset then (s2\<lparr>is_Phase := IncidentClear\<rparr>, None)
              else (s2, None))"

definition advance ::
  "policy \<Rightarrow> violation_type \<Rightarrow> incident_state \<Rightarrow> bool \<Rightarrow> f64 \<Rightarrow> observation \<Rightarrow>
   incident_state \<times> incident_transition option" where
  "advance p v s breached deviation obs =
     (if breached then advance_breached p v s deviation obs else advance_inside p v s obs)"

definition markNotEvaluated ::
  "(violation_type \<rightharpoonup> incident_state) \<Rightarrow> violation_type \<Rightarrow> (violation_type \<rightharpoonup> incident_state)" where
  "markNotEvaluated states v =
     (case states v of
        None \<Rightarrow> states(v := None)
      | Some s \<Rightarrow>
          if is_Phase s = PhaseUnset \<or> is_Phase s = IncidentClear then states(v := None)
          else states)"

section \<open>Evidence\<close>

record evidence =
  known :: bool
  breached :: bool
  deviation :: f64

definition no_evidence :: evidence where
  "no_evidence = \<lparr>known = False, breached = False, deviation = Fin 0\<rparr>"

definition clampTime :: "gotime \<Rightarrow> gotime \<Rightarrow> gotime \<Rightarrow> gotime" where
  "clampTime t lower upper = (if t < lower then lower else if upper < t then upper else t)"

definition active_at :: "gotime \<Rightarrow> volume \<Rightarrow> bool" where
  "active_at t v \<longleftrightarrow> \<not> (t < vol_StartsAt v \<or> \<not> t < vol_EndsAt v)"

fun latest_loop ::
  "volume list \<Rightarrow> nat \<Rightarrow> gotime \<times> nat option \<times> bool \<Rightarrow> gotime \<times> nat option \<times> bool" where
  "latest_loop [] index acc = acc"
| "latest_loop (v # vs) index (latestEnd, latestIndex, ambiguous) =
     latest_loop vs (Suc index)
       (if IsZero latestEnd \<or> latestEnd < vol_EndsAt v then (vol_EndsAt v, Some index, False)
        else if vol_EndsAt v = latestEnd then (latestEnd, latestIndex, True)
        else (latestEnd, latestIndex, ambiguous))"

definition terminalOverrunVolumes :: "assignment \<Rightarrow> gotime \<Rightarrow> volume list" where
  "terminalOverrunVolumes a t =
     (if t < asg_EffectiveFrom a \<or> \<not> t < asg_EffectiveUntil a then []
      else case latest_loop (asg_Volumes a) 0 (zero_time, None, False) of
             (latestEnd, None, ambiguous) \<Rightarrow> []
           | (latestEnd, Some i, ambiguous) \<Rightarrow>
               if t < latestEnd \<or> ambiguous then [] else [asg_Volumes a ! i])"

definition temporal_evidence :: "fpu \<Rightarrow> assignment \<Rightarrow> gotime \<Rightarrow> evidence" where
  "temporal_evidence F a t =
     (if filter (active_at t) (asg_Volumes a) = []
      then \<lparr>known = True, breached = True, deviation = Fin 0\<rparr>
      else if t < asg_EffectiveFrom a \<or> \<not> t < asg_EffectiveUntil a
      then \<lparr>known = True, breached = True,
            deviation = f_abs (Seconds F (Sub t (clampTime t (asg_EffectiveFrom a)
                                                            (asg_EffectiveUntil a))))\<rparr>
      else \<lparr>known = True, breached = False, deviation = Fin 0\<rparr>)"

record spatial_acc =
  bestScore :: f64
  bestLateral :: f64
  bestVertical :: f64
  nearestLateral :: f64
  anyLateralPass :: bool
  compatibleVolume :: bool
  jointPass :: bool

definition spatial_init :: spatial_acc where
  "spatial_init =
     \<lparr>bestScore = FInf True, bestLateral = FInf True, bestVertical = FInf True,
      nearestLateral = FInf True, anyLateralPass = False, compatibleVolume = False,
      jointPass = False\<rparr>"

definition insideLateral :: "fpu \<Rightarrow> policy \<Rightarrow> observation \<Rightarrow> volume \<Rightarrow> bool" where
  "insideLateral F p obs v \<longleftrightarrow>
     pointInPolygon F (obs_Longitude obs) (obs_Latitude obs) (vol_Polygon v) \<or>
     f_le (distanceToRingMeters F obs (vol_Polygon v)) (pol_HorizontalToleranceM p)"

definition compatible :: "observation \<Rightarrow> volume \<Rightarrow> bool" where
  "compatible obs v \<longleftrightarrow>
     \<not> (\<not> obs_AltitudeKnown obs \<or> obs_AltitudeReference obs \<noteq> vol_AltitudeReference v)"

definition spatial_step :: "fpu \<Rightarrow> policy \<Rightarrow> observation \<Rightarrow> volume \<Rightarrow> spatial_acc \<Rightarrow> spatial_acc" where
  "spatial_step F p obs v acc =
     (let lateralDistance = distanceToRingMeters F obs (vol_Polygon v);
          inside = insideLateral F p obs v;
          acc1 = acc\<lparr>nearestLateral := (if f_lt lateralDistance (nearestLateral acc)
                                         then lateralDistance else nearestLateral acc),
                     anyLateralPass := anyLateralPass acc \<or> inside\<rparr>
      in if \<not> compatible obs v then acc1
         else
           let vertical = altitudeDeviationFromVolume F obs v;
               score = f_add F
                 (f_max (Fin 0) (f_sub F lateralDistance (pol_HorizontalToleranceM p)))
                 (f_max (Fin 0) (f_sub F vertical (pol_VerticalToleranceM p)));
               acc2 = acc1\<lparr>compatibleVolume := True\<rparr>;
               acc3 = (if f_lt score (bestScore acc2)
                       then acc2\<lparr>bestScore := score, bestLateral := lateralDistance,
                                 bestVertical := vertical\<rparr>
                       else acc2)
           in if inside \<and> f_le vertical (pol_VerticalToleranceM p)
              then acc3\<lparr>jointPass := True\<rparr> else acc3)"

text \<open>The loop over the spatial volumes leaves at the first joint pass.\<close>

fun spatial_loop :: "fpu \<Rightarrow> policy \<Rightarrow> observation \<Rightarrow> volume list \<Rightarrow> spatial_acc \<Rightarrow> spatial_acc" where
  "spatial_loop F p obs [] acc = acc"
| "spatial_loop F p obs (v # vs) acc =
     (let acc' = spatial_step F p obs v acc
      in if jointPass acc' then acc' else spatial_loop F p obs vs acc')"

definition spatial_evidence ::
  "fpu \<Rightarrow> policy \<Rightarrow> observation \<Rightarrow> volume list \<Rightarrow> violation_type \<rightharpoonup> evidence" where
  "spatial_evidence F p obs vs =
     (if vs = [] then Map.empty
      else
        let r = spatial_loop F p obs vs spatial_init
        in if jointPass r then
             [ViolationLateral \<mapsto> \<lparr>known = True, breached = False, deviation = Fin 0\<rparr>,
              ViolationVertical \<mapsto> \<lparr>known = True, breached = False, deviation = Fin 0\<rparr>]
           else if compatibleVolume r then
             [ViolationLateral \<mapsto>
                \<lparr>known = True, breached = f_lt (pol_HorizontalToleranceM p) (bestLateral r),
                 deviation = bestLateral r\<rparr>,
              ViolationVertical \<mapsto>
                \<lparr>known = True, breached = f_lt (pol_VerticalToleranceM p) (bestVertical r),
                 deviation = bestVertical r\<rparr>]
           else
             [ViolationLateral \<mapsto>
                \<lparr>known = True, breached = \<not> anyLateralPass r, deviation = nearestLateral r\<rparr>])"

definition spatialVolumes :: "assignment \<Rightarrow> gotime \<Rightarrow> volume list" where
  "spatialVolumes a t =
     (let activeVolumes = filter (active_at t) (asg_Volumes a)
      in if activeVolumes = [] then terminalOverrunVolumes a t else activeVolumes)"

definition evidenceByType ::
  "fpu \<Rightarrow> policy \<Rightarrow> assignment \<Rightarrow> observation \<Rightarrow> violation_type \<rightharpoonup> evidence" where
  "evidenceByType F p a obs =
     (spatial_evidence F p obs (spatialVolumes a (obs_ObservedAt obs)))
       (ViolationTemporal \<mapsto> temporal_evidence F a (obs_ObservedAt obs))"

section \<open>Evaluation of one observation\<close>

definition map_items :: "'k list \<Rightarrow> ('k \<rightharpoonup> 'v) \<Rightarrow> ('k \<times> 'v) list" where
  "map_items order m = List.map_filter (\<lambda>k. map_option (Pair k) (m k)) order"

fun causal_loop :: "incident_state list \<Rightarrow> gotime \<Rightarrow> gotime" where
  "causal_loop [] earliest = earliest"
| "causal_loop (s # ss) earliest =
     (if is_Phase s = IncidentClear \<or> is_Phase s = PhaseUnset then causal_loop ss earliest
      else
        let e1 = (if \<not> IsZero (is_FirstSuspectedAt s) \<and> is_FirstSuspectedAt s < earliest
                  then is_FirstSuspectedAt s else earliest);
            e2 = (if \<not> IsZero (is_OpenedAt s) \<and> is_OpenedAt s < e1 then is_OpenedAt s else e1)
        in causal_loop ss e2)"

definition earliestCausalTimestamp :: "evaluator_state \<Rightarrow> gotime \<Rightarrow> gotime" where
  "earliestCausalTimestamp s fallback =
     causal_loop (map snd (map_items violation_types (Violations s))) fallback"

text \<open>The first loop over \<^verbatim>\<open>{Lateral, Vertical}\<close>, then the advancing loop over three types.\<close>

definition forget_unknown ::
  "(violation_type \<rightharpoonup> evidence) \<Rightarrow> violation_type \<Rightarrow>
   (violation_type \<rightharpoonup> incident_state) \<Rightarrow> (violation_type \<rightharpoonup> incident_state)" where
  "forget_unknown ev v states =
     (case ev v of
        Some e \<Rightarrow> if known e then states else markNotEvaluated states v
      | None \<Rightarrow> markNotEvaluated states v)"

fun advance_all ::
  "policy \<Rightarrow> (violation_type \<rightharpoonup> evidence) \<Rightarrow> observation \<Rightarrow> violation_type list \<Rightarrow>
   (violation_type \<rightharpoonup> incident_state) \<Rightarrow> incident_transition list \<Rightarrow>
   (violation_type \<rightharpoonup> incident_state) \<times> incident_transition list" where
  "advance_all p ev obs [] states trs = (states, trs)"
| "advance_all p ev obs (v # vs) states trs =
     (let signal = (case ev v of None \<Rightarrow> no_evidence | Some e \<Rightarrow> e)
      in if \<not> known signal then advance_all p ev obs vs states trs
         else
           let (next, tr) = advance p v (state_of states v) (breached signal) (deviation signal) obs
           in advance_all p ev obs vs (states(v \<mapsto> next))
                (case tr of None \<Rightarrow> trs | Some x \<Rightarrow> trs @ [x]))"

fun condition_loop :: "(violation_type \<times> incident_state) list \<Rightarrow> condition \<Rightarrow> condition" where
  "condition_loop [] c = c"
| "condition_loop ((v, s) # rest) c =
     (if v = ViolationTelemetryLoss then condition_loop rest c
      else condition_loop rest
        (case is_Phase s of
           IncidentOpen \<Rightarrow> ConditionNonConforming
         | IncidentSuspected \<Rightarrow> if c \<noteq> ConditionNonConforming then ConditionSuspected else c
         | IncidentRecovering \<Rightarrow> if c = ConditionConforming then ConditionRecovering else c
         | _ \<Rightarrow> c))"

definition next_states ::
  "fpu \<Rightarrow> policy \<Rightarrow> assignment \<Rightarrow> observation \<Rightarrow> evaluator_state \<Rightarrow>
   (violation_type \<rightharpoonup> incident_state) \<times> incident_transition list" where
  "next_states F p a obs previous =
     (let ev = evidenceByType F p a obs;
          cloned = forget_unknown ev ViolationVertical
                     (forget_unknown ev ViolationLateral (Violations previous))
      in advance_all p ev obs [ViolationLateral, ViolationVertical, ViolationTemporal] cloned [])"

definition conclude ::
  "fpu \<Rightarrow> policy \<Rightarrow> assignment \<Rightarrow> observation \<Rightarrow> (violation_type \<rightharpoonup> incident_state) \<Rightarrow> condition" where
  "conclude F p a obs states =
     (let c = condition_loop (map_items violation_types states) ConditionConforming
      in if evidenceByType F p a obs ViolationVertical = None \<and> c = ConditionConforming
         then ConditionUnknown else c)"

definition Evaluate ::
  "fpu \<Rightarrow> policy \<Rightarrow> gotime \<Rightarrow> assignment \<Rightarrow> observation \<Rightarrow> evaluator_state \<Rightarrow>
   eval_error + evaluation" where
  "Evaluate F p now a obs previous =
     ebind (validateAssignment a p) (\<lambda>_.
       if \<not> observation_matches a obs then Inl ObservationMismatch
       else
         let (states, trs) = next_states F p a obs previous
         in Inr \<lparr>ev_Condition = conclude F p a obs states, ev_Monitoring = MonitoringCurrent,
                 ev_Recording = RecordingPending, ev_State = \<lparr>Violations = states\<rparr>,
                 ev_Transitions = trs,
                 ev_CausalFrom = earliestCausalTimestamp previous (obs_ObservedAt obs),
                 ev_ObservedAt = obs_ObservedAt obs, ev_FrameID = obs_FrameID obs,
                 ev_WALID = obs_WALID obs, ev_WALSequence = obs_WALSequence obs\<rparr>)"

definition AssessMonitoring :: "policy \<Rightarrow> gotime \<Rightarrow> gotime \<Rightarrow> bool \<Rightarrow> monitoring_status" where
  "AssessMonitoring p now latestArrival dependencyAvailable =
     (if \<not> dependencyAvailable then MonitoringUnavailable
      else if IsZero latestArrival \<or> pol_TelemetryFreshness p < Sub now latestArrival
      then MonitoringStale else MonitoringCurrent)"

section \<open>Evaluation of a batch\<close>

definition observationBefore :: "observation \<Rightarrow> observation \<Rightarrow> bool" where
  "observationBefore a b =
     (if obs_ObservedAt a \<noteq> obs_ObservedAt b then obs_ObservedAt a < obs_ObservedAt b
      else if obs_AgentID a \<noteq> obs_AgentID b then obs_AgentID a < obs_AgentID b
      else if obs_WALID a \<noteq> obs_WALID b then obs_WALID a < obs_WALID b
      else if obs_WALSequence a \<noteq> obs_WALSequence b then obs_WALSequence a < obs_WALSequence b
      else obs_FrameID a < obs_FrameID b)"

text \<open>
  The loop of \<^verbatim>\<open>EvaluateBatch\<close>: \<open>prior\<close> is the preceding observation (none at index 0),
  \<open>result\<close> the last evaluation, \<open>trs\<close> all transitions so far.
\<close>

fun batch_loop ::
  "fpu \<Rightarrow> policy \<Rightarrow> assignment \<Rightarrow> observation option \<Rightarrow> observation list \<Rightarrow>
   evaluator_state \<Rightarrow> evaluation option \<Rightarrow> incident_transition list \<Rightarrow>
   eval_error + evaluation option \<times> incident_transition list" where
  "batch_loop F p a prior [] previous result trs = Inr (result, trs)"
| "batch_loop F p a prior (obs # rest) previous result trs =
     (if (case prior of None \<Rightarrow> False | Some o' \<Rightarrow> observationBefore obs o')
      then Inl BatchNotOrdered
      else ebind (Evaluate F p (obs_ObservedAt obs) a obs previous) (\<lambda>r.
             batch_loop F p a (Some obs) rest (ev_State r) (Some r) (trs @ ev_Transitions r)))"

definition EvaluateBatch ::
  "fpu \<Rightarrow> policy \<Rightarrow> assignment \<Rightarrow> observation list \<Rightarrow> evaluator_state \<Rightarrow> eval_error + evaluation" where
  "EvaluateBatch F p a observations previous =
     (case observations of
        [] \<Rightarrow> Inl EmptyBatch
      | obs # _ \<Rightarrow>
          ebind (batch_loop F p a None observations previous None []) (\<lambda>(result, trs).
            case result of
              None \<Rightarrow> Inl EmptyBatch
            | Some r \<Rightarrow>
                Inr (r\<lparr>ev_Transitions := trs,
                       ev_CausalFrom := earliestCausalTimestamp previous (obs_ObservedAt obs)\<rparr>)))"

end
