(* ===== verification/Incidents.thy ===== *)
theory Incidents
  imports Evaluator
begin

text \<open>
  The incident state machine of \<^verbatim>\<open>(*Evaluator).advance\<close>: its well-formedness invariant, its
  refinement of an abstract hysteresis machine, and the runs of that machine. The abstract
  machine knows only a phase, the opening frame of the open episode and one counter.
\<close>

section \<open>The abstract machine\<close>

datatype phase = PClear | PSuspected int | POpen string | PRecovering string int

text \<open>What a step reports: an opening or a resolution, with the frame that opened the episode.\<close>

datatype report = Opened string | Resolved string

fun hysteresis :: "int \<Rightarrow> int \<Rightarrow> bool \<times> string \<Rightarrow> phase \<Rightarrow> phase \<times> report option" where
  "hysteresis m n (True, f) PClear =
     (if m \<le> 1 then (POpen f, Some (Opened f)) else (PSuspected 1, None))"
| "hysteresis m n (True, f) (PSuspected k) =
     (if m \<le> k + 1 then (POpen f, Some (Opened f)) else (PSuspected (k + 1), None))"
| "hysteresis m n (True, f) (POpen g) = (POpen g, None)"
| "hysteresis m n (True, f) (PRecovering g k) = (POpen g, None)"
| "hysteresis m n (False, f) PClear = (PClear, None)"
| "hysteresis m n (False, f) (PSuspected k) = (PClear, None)"
| "hysteresis m n (False, f) (POpen g) =
     (if n \<le> 1 then (PClear, Some (Resolved g)) else (PRecovering g 1, None))"
| "hysteresis m n (False, f) (PRecovering g k) =
     (if n \<le> k + 1 then (PClear, Some (Resolved g)) else (PRecovering g (k + 1), None))"

fun hysteresis_run ::
  "int \<Rightarrow> int \<Rightarrow> phase \<Rightarrow> (bool \<times> string) list \<Rightarrow> phase \<times> report list" where
  "hysteresis_run m n c [] = (c, [])"
| "hysteresis_run m n c (x # xs) =
     (let (c', r) = hysteresis m n x c; (c'', rs) = hysteresis_run m n c' xs
      in (c'', (case r of None \<Rightarrow> rs | Some y \<Rightarrow> y # rs)))"

definition phase_of :: "incident_state \<Rightarrow> phase" where
  "phase_of s =
     (case is_Phase s of
        PhaseUnset \<Rightarrow> PClear
      | IncidentClear \<Rightarrow> PClear
      | IncidentSuspected \<Rightarrow> PSuspected (is_ConsecutiveOutside s)
      | IncidentOpen \<Rightarrow> POpen (is_OpeningFrameID s)
      | IncidentRecovering \<Rightarrow> PRecovering (is_OpeningFrameID s) (is_ConsecutiveInside s))"

fun report_of :: "incident_transition \<Rightarrow> report" where
  "report_of t =
     (if tr_Transition t = TransitionOpened then Opened (tr_OpeningFrameID t)
      else Resolved (tr_OpeningFrameID t))"

section \<open>The invariant\<close>

text \<open>A policy whose counters are Go \<^verbatim>\<open>int\<close>s and which \<^verbatim>\<open>New\<close> accepts.\<close>

definition valid_policy :: "policy \<Rightarrow> bool" where
  "valid_policy p \<longleftrightarrow>
     Validate p = Inr () \<and> pol_OpenAfterSamples p < 2 ^ 63 \<and> pol_RecoverAfterSamples p < 2 ^ 63"

definition incident_inv :: "policy \<Rightarrow> incident_state \<Rightarrow> bool" where
  "incident_inv p s \<longleftrightarrow>
     (case is_Phase s of
        PhaseUnset \<Rightarrow> is_ConsecutiveOutside s = 0
      | IncidentClear \<Rightarrow> is_ConsecutiveOutside s = 0
      | IncidentSuspected \<Rightarrow>
          1 \<le> is_ConsecutiveOutside s \<and> is_ConsecutiveOutside s < pol_OpenAfterSamples p
      | IncidentOpen \<Rightarrow> is_ConsecutiveInside s = 0 \<and> is_OpeningFrameID s \<noteq> []
      | IncidentRecovering \<Rightarrow>
          1 \<le> is_ConsecutiveInside s \<and> is_ConsecutiveInside s < pol_RecoverAfterSamples p \<and>
          is_OpeningFrameID s \<noteq> [])"

definition state_inv :: "policy \<Rightarrow> evaluator_state \<Rightarrow> bool" where
  "state_inv p st \<longleftrightarrow> (\<forall>v s. Violations st v = Some s \<longrightarrow> incident_inv p s)"

lemmas advance_defs =
  advance_def advance_breached_def advance_inside_def cleared_at_def transition_at_def Let_def

lemma valid_policyD:
  "valid_policy p \<Longrightarrow> 1 \<le> pol_OpenAfterSamples p \<and> pol_OpenAfterSamples p < 2 ^ 63 \<and>
     1 \<le> pol_RecoverAfterSamples p \<and> pol_RecoverAfterSamples p < 2 ^ 63"
  by (auto simp: valid_policy_def Validate_def split: if_splits)

lemma incident_inv_zero [simp]: "incident_inv p zero_incident"
  by (simp add: incident_inv_def)

lemma state_inv_empty [simp]: "state_inv p empty_state"
  by (simp add: state_inv_def empty_state_def)

lemma phase_of_zero [simp]: "phase_of zero_incident = PClear"
  by (simp add: phase_of_def)

lemma state_inv_state_of: "state_inv p st \<Longrightarrow> incident_inv p (state_of (Violations st) v)"
  by (auto simp: state_inv_def state_of_def split: option.splits)

text \<open>Below a sample limit the 64-bit counter does not wrap.\<close>

lemma wrap64_inc: "0 \<le> k \<Longrightarrow> k < n \<Longrightarrow> n < 2 ^ 63 \<Longrightarrow> wrap64 (k + 1) = k + 1"
  by (rule wrap64_id) auto

lemma advance_breached_refines:
  assumes "valid_policy p" "incident_inv p s"
  shows "phase_of (fst (advance_breached p v s d obs)) =
           fst (hysteresis (pol_OpenAfterSamples p) (pol_RecoverAfterSamples p)
                  (True, obs_FrameID obs) (phase_of s))"
    and "map_option report_of (snd (advance_breached p v s d obs)) =
           snd (hysteresis (pol_OpenAfterSamples p) (pol_RecoverAfterSamples p)
                  (True, obs_FrameID obs) (phase_of s))"
    and "obs_FrameID obs \<noteq> [] \<Longrightarrow> incident_inv p (fst (advance_breached p v s d obs))"
  using assms(2) valid_policyD [OF assms(1)]
  by (cases "is_Phase s"; cases "f_lt (is_WorstDeviationM s) d";
      auto simp: advance_defs phase_of_def incident_inv_def wrap64_inc wrap64_id)+

lemma advance_inside_refines:
  assumes "valid_policy p" "incident_inv p s"
  shows "phase_of (fst (advance_inside p v s obs)) =
           fst (hysteresis (pol_OpenAfterSamples p) (pol_RecoverAfterSamples p)
                  (False, obs_FrameID obs) (phase_of s))"
    and "map_option report_of (snd (advance_inside p v s obs)) =
           snd (hysteresis (pol_OpenAfterSamples p) (pol_RecoverAfterSamples p)
                  (False, obs_FrameID obs) (phase_of s))"
    and "incident_inv p (fst (advance_inside p v s obs))"
  using assms(2) valid_policyD [OF assms(1)]
  by (cases "is_Phase s";
      auto simp: advance_defs phase_of_def incident_inv_def wrap64_inc wrap64_id)+

text \<open>One sample of a violation type: what the evidence said, and the observation.\<close>

lemma advance_refines:
  assumes "valid_policy p" "incident_inv p s"
  shows "hysteresis (pol_OpenAfterSamples p) (pol_RecoverAfterSamples p) (b, obs_FrameID obs)
           (phase_of s) =
         (phase_of (fst (advance p v s b d obs)), map_option report_of (snd (advance p v s b d obs)))"
  using advance_breached_refines [OF assms, where v = v and d = d and obs = obs]
    advance_inside_refines [OF assms, where v = v and obs = obs]
  by (cases b) (simp_all add: advance_def prod_eq_iff)

lemma advance_inv:
  assumes "valid_policy p" "incident_inv p s" "obs_FrameID obs \<noteq> []"
  shows "incident_inv p (fst (advance p v s b d obs))"
  using assms advance_breached_refines(3) advance_inside_refines(3) by (simp add: advance_def)

lemma advance_violation: "snd (advance p v s b d obs) = Some t \<Longrightarrow> tr_Violation t = v"
  by (auto simp: advance_defs split: if_splits incident_phase.splits)

lemma advance_last_observed: "is_LastObservedAt (fst (advance p v s b d obs)) = obs_ObservedAt obs"
  by (auto simp: advance_defs split: incident_phase.splits)

section \<open>Runs of the abstract machine\<close>

text \<open>\<open>starts_with k q xs\<close>: the first \<open>k\<close> samples exist and all are \<open>q\<close>.\<close>

definition starts_with :: "nat \<Rightarrow> bool \<Rightarrow> (bool \<times> string) list \<Rightarrow> bool" where
  "starts_with k q xs \<longleftrightarrow> k \<le> length xs \<and> list_all (\<lambda>x. fst x = q) (take k xs)"

text \<open>\<open>has_run k q xs\<close>: somewhere there are \<open>k\<close> consecutive samples \<open>q\<close>.\<close>

fun has_run :: "nat \<Rightarrow> bool \<Rightarrow> (bool \<times> string) list \<Rightarrow> bool" where
  "has_run k q [] = (k = 0)"
| "has_run k q (x # xs) = (starts_with k q (x # xs) \<or> has_run k q xs)"

lemma starts_with_Cons:
  "starts_with k q (x # xs) \<longleftrightarrow> k = 0 \<or> fst x = q \<and> starts_with (k - 1) q xs"
  by (cases k) (auto simp: starts_with_def)

lemma starts_with_Nil: "starts_with k q [] \<longleftrightarrow> k = 0"
  by (auto simp: starts_with_def)

lemma starts_with_mono: "starts_with k q xs \<Longrightarrow> j \<le> k \<Longrightarrow> starts_with j q xs"
  by (auto simp: starts_with_def list_all_iff dest: set_take_subset_set_take [THEN subsetD, rotated])

lemma starts_with_has_run: "starts_with k q xs \<Longrightarrow> has_run k q xs"
  by (cases xs) (auto simp: starts_with_Nil)

definition suspected :: "int \<Rightarrow> phase" where
  "suspected k = (if k = 0 then PClear else PSuspected k)"

definition recovering :: "string \<Rightarrow> int \<Rightarrow> phase" where
  "recovering g k = (if k = 0 then POpen g else PRecovering g k)"

lemma hysteresis_suspected:
  "0 \<le> k \<Longrightarrow> hysteresis m n (True, f) (suspected k) =
     (if m \<le> k + 1 then (POpen f, Some (Opened f)) else (suspected (k + 1), None))"
  "0 \<le> k \<Longrightarrow> hysteresis m n (False, f) (suspected k) = (suspected 0, None)"
  by (auto simp: suspected_def)

lemma hysteresis_recovering:
  "0 \<le> k \<Longrightarrow> hysteresis m n (False, f) (recovering g k) =
     (if n \<le> k + 1 then (PClear, Some (Resolved g)) else (recovering g (k + 1), None))"
  "0 \<le> k \<Longrightarrow> hysteresis m n (True, f) (recovering g k) = (recovering g 0, None)"
  by (auto simp: recovering_def)

lemma opens_iff_run:
  "0 \<le> k \<Longrightarrow> k < m \<Longrightarrow>
   snd (hysteresis_run m n (suspected k) xs) \<noteq> [] \<longleftrightarrow>
   starts_with (nat (m - k)) True xs \<or> has_run (nat m) True xs"
proof (induction xs arbitrary: k)
  case Nil
  then show ?case by (simp add: starts_with_Nil)
next
  case (Cons x xs)
  obtain b f where x: "x = (b, f)" by (cases x)
  show ?case
  proof (cases b)
    case True
    show ?thesis
    proof (cases "m \<le> k + 1")
      case open_now: True
      with Cons.prems have "nat (m - k) = 1" by simp
      with open_now Cons.prems True show ?thesis
        by (simp add: x hysteresis_suspected starts_with_Cons starts_with_def split: prod.splits)
    next
      case False
      have "starts_with (nat m - 1) True xs \<Longrightarrow> starts_with (nat (m - (k + 1))) True xs"
        using Cons.prems by (auto intro: starts_with_mono)
      moreover have "nat (m - k) - 1 = nat (m - (k + 1))" "nat (m - k) \<noteq> 0"
        using Cons.prems by auto
      ultimately show ?thesis
        using Cons.IH [of "k + 1"] Cons.prems False True
        by (auto simp: x hysteresis_suspected starts_with_Cons split: prod.splits)
    qed
  next
    case False
    then show ?thesis
      using Cons.IH [of 0] Cons.prems starts_with_has_run [of "nat m" True xs]
      by (auto simp: x hysteresis_suspected starts_with_Cons split: prod.splits)
  qed
qed

lemma resolves_iff_run:
  "0 \<le> k \<Longrightarrow> k < n \<Longrightarrow>
   snd (hysteresis_run m n (recovering g k) xs) \<noteq> [] \<longleftrightarrow>
   starts_with (nat (n - k)) False xs \<or> has_run (nat n) False xs"
proof (induction xs arbitrary: k)
  case Nil
  then show ?case by (simp add: starts_with_Nil)
next
  case (Cons x xs)
  obtain b f where x: "x = (b, f)" by (cases x)
  show ?case
  proof (cases b)
    case False
    show ?thesis
    proof (cases "n \<le> k + 1")
      case resolve_now: True
      with Cons.prems have "nat (n - k) = 1" by simp
      with resolve_now Cons.prems False show ?thesis
        by (simp add: x hysteresis_recovering starts_with_Cons starts_with_def split: prod.splits)
    next
      case wait: False
      have "starts_with (nat n - 1) False xs \<Longrightarrow> starts_with (nat (n - (k + 1))) False xs"
        using Cons.prems by (auto intro: starts_with_mono)
      moreover have "nat (n - k) - 1 = nat (n - (k + 1))" "nat (n - k) \<noteq> 0"
        using Cons.prems by auto
      ultimately show ?thesis
        using Cons.IH [of "k + 1"] Cons.prems False wait
        by (auto simp: x hysteresis_recovering starts_with_Cons split: prod.splits)
    qed
  next
    case True
    then show ?thesis
      using Cons.IH [of 0] Cons.prems starts_with_has_run [of "nat n" False xs]
      by (auto simp: x hysteresis_recovering starts_with_Cons split: prod.splits)
  qed
qed

lemma opens_iff_run_clear:
  "1 \<le> m \<Longrightarrow> snd (hysteresis_run m n PClear xs) \<noteq> [] \<longleftrightarrow> has_run (nat m) True xs"
  using opens_iff_run [of 0 m n xs] starts_with_has_run [of "nat m" True xs]
  by (auto simp: suspected_def)

lemma resolves_iff_run_open:
  "1 \<le> n \<Longrightarrow> snd (hysteresis_run m n (POpen g) xs) \<noteq> [] \<longleftrightarrow> has_run (nat n) False xs"
  using resolves_iff_run [of 0 n m g xs] starts_with_has_run [of "nat n" False xs]
  by (auto simp: recovering_def)

text \<open>Reports alternate: an episode that opened is resolved, under its own frame, before the next.\<close>

fun episodes :: "string option \<Rightarrow> report list \<Rightarrow> bool" where
  "episodes cur [] = True"
| "episodes None (Opened f # rs) = episodes (Some f) rs"
| "episodes None (Resolved f # rs) = False"
| "episodes (Some g) (Opened f # rs) = False"
| "episodes (Some g) (Resolved f # rs) = (f = g \<and> episodes None rs)"

fun open_frame :: "phase \<Rightarrow> string option" where
  "open_frame (POpen f) = Some f"
| "open_frame (PRecovering f k) = Some f"
| "open_frame _ = None"

lemma hysteresis_episode:
  "hysteresis m n x c = (c', r) \<Longrightarrow>
   (case r of None \<Rightarrow> open_frame c' = open_frame c
    | Some (Opened f) \<Rightarrow> open_frame c = None \<and> open_frame c' = Some f
    | Some (Resolved f) \<Rightarrow> open_frame c = Some f \<and> open_frame c' = None)"
  by (cases x; cases c; cases "fst x") (auto split: if_splits)

lemma hysteresis_run_episodes: "episodes (open_frame c) (snd (hysteresis_run m n c xs))"
proof (induction xs arbitrary: c)
  case (Cons x xs)
  obtain c' r where step: "hysteresis m n x c = (c', r)" by force
  show ?case
    using hysteresis_episode [OF step] Cons.IH [of c']
    by (auto simp: step split: prod.splits option.splits report.splits)
qed simp

end
