(* ===== verification/Evaluation.thy ===== *)
theory Evaluation
  imports Incidents
begin

text \<open>
  Facts about \<^verbatim>\<open>Evaluate\<close> and \<^verbatim>\<open>EvaluateBatch\<close>: the next state and the transitions seen
  one violation type at a time, the invariant of evaluator states, the batch as a run of the
  abstract hysteresis machine per type, replay from a checkpoint, the condition as the worst
  phase, and what a conforming verdict means geometrically.
\<close>

section \<open>One step, per violation type\<close>

definition step_state ::
  "fpu \<Rightarrow> policy \<Rightarrow> assignment \<Rightarrow> observation \<Rightarrow> evaluator_state \<Rightarrow> violation_type \<rightharpoonup> incident_state" where
  "step_state F p a obs prev v =
     (case evidenceByType F p a obs v of
        Some e \<Rightarrow> Some (fst (advance p v (state_of (Violations prev) v) (breached e) (deviation e) obs))
      | None \<Rightarrow>
          if v = ViolationLateral \<or> v = ViolationVertical
          then markNotEvaluated (Violations prev) v v else Violations prev v)"

definition step_transitions ::
  "fpu \<Rightarrow> policy \<Rightarrow> assignment \<Rightarrow> observation \<Rightarrow> evaluator_state \<Rightarrow> violation_type \<Rightarrow>
   incident_transition list" where
  "step_transitions F p a obs prev v =
     (case evidenceByType F p a obs v of
        Some e \<Rightarrow>
          (case snd (advance p v (state_of (Violations prev) v) (breached e) (deviation e) obs) of
             None \<Rightarrow> [] | Some t \<Rightarrow> [t])
      | None \<Rightarrow> [])"

lemma evidence_known: "evidenceByType F p a obs v = Some e \<Longrightarrow> known e"
  by (auto simp: evidenceByType_def spatial_evidence_def temporal_evidence_def Let_def
      split: if_splits)

lemma evidence_temporal [simp]:
  "evidenceByType F p a obs ViolationTemporal =
   Some (temporal_evidence F a (obs_ObservedAt obs))"
  by (simp add: evidenceByType_def)

lemma evidence_loss [simp]: "evidenceByType F p a obs ViolationTelemetryLoss = None"
  by (simp add: evidenceByType_def spatial_evidence_def Let_def)

lemma markNotEvaluated_other: "w \<noteq> v \<Longrightarrow> markNotEvaluated states v w = states w"
  by (auto simp: markNotEvaluated_def split: option.splits)

lemma markNotEvaluated_same:
  "markNotEvaluated m v v =
   (case m v of None \<Rightarrow> None
    | Some s \<Rightarrow> if is_Phase s = PhaseUnset \<or> is_Phase s = IncidentClear then None else Some s)"
  by (auto simp: markNotEvaluated_def split: option.splits)

lemma temporal_known [simp]: "known (temporal_evidence F a t)"
  by (simp add: temporal_evidence_def)

lemma next_states_eq:
  "next_states F p a obs prev =
   (step_state F p a obs prev,
    concat (map (step_transitions F p a obs prev)
      [ViolationLateral, ViolationVertical, ViolationTemporal]))"
proof -
  let ?ev = "evidenceByType F p a obs"
  have known: "\<And>v e. ?ev v = Some e \<Longrightarrow> known e"
    by (rule evidence_known)
  have "fst (next_states F p a obs prev) v = step_state F p a obs prev v" for v
    by (cases v; cases "?ev ViolationLateral"; cases "?ev ViolationVertical")
      (auto simp: next_states_def step_state_def forget_unknown_def Let_def no_evidence_def known
        markNotEvaluated_other markNotEvaluated_same state_of_def split: prod.splits)
  moreover have "snd (next_states F p a obs prev) = concat (map (step_transitions F p a obs prev)
      [ViolationLateral, ViolationVertical, ViolationTemporal])"
    by (cases "?ev ViolationLateral"; cases "?ev ViolationVertical")
      (auto simp: next_states_def step_transitions_def forget_unknown_def Let_def no_evidence_def
        known markNotEvaluated_other state_of_def split: prod.splits option.splits)
  ultimately show ?thesis
    by (auto simp: prod_eq_iff)
qed

lemma step_transitions_violation:
  "t \<in> set (step_transitions F p a obs prev v) \<Longrightarrow> tr_Violation t = v"
  by (auto simp: step_transitions_def advance_violation split: option.splits)

lemma filter_step_transitions:
  "filter (\<lambda>t. tr_Violation t = v) (step_transitions F p a obs prev w) =
   (if w = v then step_transitions F p a obs prev w else [])"
  using step_transitions_violation [of _ F p a obs prev w] by (auto intro!: filter_True filter_False)

lemma filter_next_transitions:
  "filter (\<lambda>t. tr_Violation t = v) (snd (next_states F p a obs prev)) =
   step_transitions F p a obs prev v"
  by (cases v) (auto simp: next_states_eq filter_step_transitions, simp add: step_transitions_def)

section \<open>The result of one evaluation\<close>

lemma Evaluate_Inr:
  "Evaluate F p now a obs prev = Inr r \<longleftrightarrow>
   validateAssignment a p = Inr () \<and> observation_matches a obs \<and>
   r = \<lparr>ev_Condition = conclude F p a obs (step_state F p a obs prev),
        ev_Monitoring = MonitoringCurrent, ev_Recording = RecordingPending,
        ev_State = \<lparr>Violations = step_state F p a obs prev\<rparr>,
        ev_Transitions = snd (next_states F p a obs prev),
        ev_CausalFrom = earliestCausalTimestamp prev (obs_ObservedAt obs),
        ev_ObservedAt = obs_ObservedAt obs, ev_FrameID = obs_FrameID obs,
        ev_WALID = obs_WALID obs, ev_WALSequence = obs_WALSequence obs\<rparr>"
  by (auto simp: Evaluate_def monad_splits next_states_eq Let_def)

lemma observation_matches_frame: "observation_matches a obs \<Longrightarrow> obs_FrameID obs \<noteq> []"
  by (simp add: observation_matches_def)

lemma phase_of_markNotEvaluated:
  "phase_of (state_of (markNotEvaluated m v) v) = phase_of (state_of m v)"
  by (auto simp: markNotEvaluated_def state_of_def phase_of_def split: option.splits)

lemma markNotEvaluated_Some: "markNotEvaluated m v w = Some s \<Longrightarrow> m w = Some s"
  by (auto simp: markNotEvaluated_def split: option.splits if_splits)

lemma step_state_inv:
  assumes "valid_policy p" "state_inv p prev" "obs_FrameID obs \<noteq> []"
  shows "state_inv p \<lparr>Violations = step_state F p a obs prev\<rparr>"
  using assms advance_inv [OF assms(1) state_inv_state_of [OF assms(2)] assms(3)]
  by (auto simp: state_inv_def step_state_def dest: markNotEvaluated_Some
      split: option.splits if_splits)

section \<open>Batches\<close>

text \<open>The evidence samples a batch gives for one violation type.\<close>

definition samples ::
  "fpu \<Rightarrow> policy \<Rightarrow> assignment \<Rightarrow> violation_type \<Rightarrow> observation list \<Rightarrow> (bool \<times> string) list" where
  "samples F p a v observations =
     List.map_filter (\<lambda>obs. map_option (\<lambda>e. (breached e, obs_FrameID obs))
                              (evidenceByType F p a obs v)) observations"

text \<open>The state after a list of observations, without the checks.\<close>

fun run_states ::
  "fpu \<Rightarrow> policy \<Rightarrow> assignment \<Rightarrow> observation list \<Rightarrow> evaluator_state \<Rightarrow> evaluator_state" where
  "run_states F p a [] st = st"
| "run_states F p a (obs # rest) st =
     run_states F p a rest \<lparr>Violations = step_state F p a obs st\<rparr>"

fun run_transitions ::
  "fpu \<Rightarrow> policy \<Rightarrow> assignment \<Rightarrow> observation list \<Rightarrow> evaluator_state \<Rightarrow> incident_transition list" where
  "run_transitions F p a [] st = []"
| "run_transitions F p a (obs # rest) st =
     snd (next_states F p a obs st) @
     run_transitions F p a rest \<lparr>Violations = step_state F p a obs st\<rparr>"

lemma run_states_append:
  "run_states F p a (xs @ ys) st = run_states F p a ys (run_states F p a xs st)"
  by (induction xs arbitrary: st) auto

lemma run_transitions_append:
  "run_transitions F p a (xs @ ys) st =
   run_transitions F p a xs st @ run_transitions F p a ys (run_states F p a xs st)"
  by (induction xs arbitrary: st) auto

text \<open>Canonical order: no observation sorts before its predecessor.\<close>

fun canonical :: "observation option \<Rightarrow> observation list \<Rightarrow> bool" where
  "canonical prior [] = True"
| "canonical prior (obs # rest) =
     ((case prior of None \<Rightarrow> True | Some o' \<Rightarrow> \<not> observationBefore obs o') \<and>
      canonical (Some obs) rest)"

definition acceptable :: "policy \<Rightarrow> assignment \<Rightarrow> observation list \<Rightarrow> bool" where
  "acceptable p a observations \<longleftrightarrow>
     validateAssignment a p = Inr () \<and> list_all (observation_matches a) observations \<and>
     canonical None observations"

definition final_of :: "fpu \<Rightarrow> policy \<Rightarrow> assignment \<Rightarrow> observation \<Rightarrow> evaluator_state \<Rightarrow> evaluation" where
  "final_of F p a obs prev =
     \<lparr>ev_Condition = conclude F p a obs (step_state F p a obs prev),
      ev_Monitoring = MonitoringCurrent, ev_Recording = RecordingPending,
      ev_State = \<lparr>Violations = step_state F p a obs prev\<rparr>,
      ev_Transitions = snd (next_states F p a obs prev),
      ev_CausalFrom = earliestCausalTimestamp prev (obs_ObservedAt obs),
      ev_ObservedAt = obs_ObservedAt obs, ev_FrameID = obs_FrameID obs,
      ev_WALID = obs_WALID obs, ev_WALSequence = obs_WALSequence obs\<rparr>"

lemma Evaluate_Inr_final:
  "Evaluate F p now a obs prev = Inr r \<longleftrightarrow>
   validateAssignment a p = Inr () \<and> observation_matches a obs \<and> r = final_of F p a obs prev"
  by (simp add: Evaluate_Inr final_of_def)

lemma batch_loop_Inr:
  "batch_loop F p a prior xs prev res trs = Inr (res', trs') \<longleftrightarrow>
   (xs \<noteq> [] \<longrightarrow> validateAssignment a p = Inr ()) \<and> list_all (observation_matches a) xs \<and>
   canonical prior xs \<and> trs' = trs @ run_transitions F p a xs prev \<and>
   res' = (if xs = [] then res
           else Some (final_of F p a (last xs) (run_states F p a (butlast xs) prev)))"
proof (induction xs arbitrary: prior prev res trs)
  case Nil
  then show ?case by auto
next
  case (Cons obs xs)
  show ?case
    by (auto simp: monad_splits Evaluate_Inr_final Cons.IH final_of_def split: option.splits)
qed

theorem EvaluateBatch_Inr:
  "EvaluateBatch F p a xs prev = Inr r \<longleftrightarrow>
   xs \<noteq> [] \<and> acceptable p a xs \<and>
   r = (final_of F p a (last xs) (run_states F p a (butlast xs) prev))
         \<lparr>ev_Transitions := run_transitions F p a xs prev,
          ev_CausalFrom := earliestCausalTimestamp prev (obs_ObservedAt (hd xs))\<rparr>"
  by (cases xs)
    (auto simp: EvaluateBatch_def monad_splits batch_loop_Inr acceptable_def simp del: batch_loop.simps
      split: prod.splits option.splits)

section \<open>A batch is a run of the hysteresis machine\<close>

abbreviation machine :: "policy \<Rightarrow> phase \<Rightarrow> (bool \<times> string) list \<Rightarrow> phase \<times> report list" where
  "machine p \<equiv> hysteresis_run (pol_OpenAfterSamples p) (pol_RecoverAfterSamples p)"

abbreviation phase_at :: "evaluator_state \<Rightarrow> violation_type \<Rightarrow> phase" where
  "phase_at st v \<equiv> phase_of (state_of (Violations st) v)"

definition reports_of :: "violation_type \<Rightarrow> incident_transition list \<Rightarrow> report list" where
  "reports_of v trs = map report_of (filter (\<lambda>t. tr_Violation t = v) trs)"

lemma reports_of_append [simp]: "reports_of v (xs @ ys) = reports_of v xs @ reports_of v ys"
  by (simp add: reports_of_def)

lemma step_unknown:
  assumes "evidenceByType F p a obs v = None"
  shows "phase_at \<lparr>Violations = step_state F p a obs st\<rparr> v = phase_at st v"
    and "reports_of v (snd (next_states F p a obs st)) = []"
  using assms phase_of_markNotEvaluated [of "Violations st" v]
  by (auto simp: reports_of_def filter_next_transitions step_transitions_def state_of_def
      step_state_def)

lemma step_known:
  assumes "valid_policy p" "state_inv p st" "evidenceByType F p a obs v = Some e"
  shows "hysteresis (pol_OpenAfterSamples p) (pol_RecoverAfterSamples p)
           (breached e, obs_FrameID obs) (phase_at st v) =
         (phase_at \<lparr>Violations = step_state F p a obs st\<rparr> v,
          (case reports_of v (snd (next_states F p a obs st)) of [] \<Rightarrow> None | r # _ \<Rightarrow> Some r))"
    and "length (reports_of v (snd (next_states F p a obs st))) \<le> 1"
  using advance_refines [OF assms(1) state_inv_state_of [OF assms(2)], of "breached e" obs v v
      "deviation e"] assms(3)
  by (auto simp: reports_of_def filter_next_transitions step_transitions_def step_state_def
      state_of_def split: option.splits)

lemma run_is_machine_run:
  assumes "valid_policy p"
  shows "state_inv p st \<Longrightarrow> list_all (observation_matches a) xs \<Longrightarrow>
    machine p (phase_at st v) (samples F p a v xs) =
    (phase_at (run_states F p a xs st) v, reports_of v (run_transitions F p a xs st))"
proof (induction xs arbitrary: st)
  case Nil
  then show ?case by (simp add: samples_def map_filter_def reports_of_def)
next
  case (Cons obs xs)
  let ?st' = "\<lparr>Violations = step_state F p a obs st\<rparr>"
  have "state_inv p ?st'"
    using step_state_inv [OF assms Cons.prems(1)] Cons.prems(2) observation_matches_frame by auto
  then have IH: "machine p (phase_at ?st' v) (samples F p a v xs) =
      (phase_at (run_states F p a xs ?st') v, reports_of v (run_transitions F p a xs ?st'))"
    using Cons.IH [of ?st'] Cons.prems by simp
  show ?case
  proof (cases "evidenceByType F p a obs v")
    case None
    then have "samples F p a v (obs # xs) = samples F p a v xs"
      by (simp add: samples_def map_filter_def)
    with IH step_unknown [OF None, of st] show ?thesis by simp
  next
    case (Some e)
    then have "samples F p a v (obs # xs) = (breached e, obs_FrameID obs) # samples F p a v xs"
      by (simp add: samples_def map_filter_def)
    with IH step_known [OF assms Cons.prems(1) Some] show ?thesis
      by (cases "reports_of v (snd (next_states F p a obs st))") simp_all
  qed
qed

lemma run_states_inv:
  "valid_policy p \<Longrightarrow> state_inv p st \<Longrightarrow> list_all (observation_matches a) xs \<Longrightarrow>
   state_inv p (run_states F p a xs st)"
  by (induction xs arbitrary: st)
    (auto dest: observation_matches_frame intro: step_state_inv)

lemma final_state:
  "xs \<noteq> [] \<Longrightarrow>
   ev_State (final_of F p a (last xs) (run_states F p a (butlast xs) prev)) =
   run_states F p a xs prev"
  using run_states_append [of F p a "butlast xs" "[last xs]" prev] by (simp add: final_of_def)

text \<open>What a successful batch returns, as the two runs.\<close>

lemma EvaluateBatch_result:
  assumes "EvaluateBatch F p a xs prev = Inr r"
  shows "xs \<noteq> []" "acceptable p a xs" "list_all (observation_matches a) xs"
    and "ev_State r = run_states F p a xs prev"
    and "ev_Transitions r = run_transitions F p a xs prev"
    and "ev_CausalFrom r = earliestCausalTimestamp prev (obs_ObservedAt (hd xs))"
    and "ev_ObservedAt r = obs_ObservedAt (last xs)" "ev_FrameID r = obs_FrameID (last xs)"
    and "ev_WALID r = obs_WALID (last xs)" "ev_WALSequence r = obs_WALSequence (last xs)"
  using assms final_state [of xs F p a prev]
  by (auto simp: EvaluateBatch_Inr acceptable_def) (simp_all add: final_of_def)

lemma batch_is_machine_run:
  assumes "valid_policy p" "state_inv p prev" "EvaluateBatch F p a xs prev = Inr r"
  shows "machine p (phase_at prev v) (samples F p a v xs) =
         (phase_at (ev_State r) v, reports_of v (ev_Transitions r))"
  using run_is_machine_run [OF assms(1,2)] EvaluateBatch_result [OF assms(3)] by simp

section \<open>The condition is the worst phase\<close>

definition counted :: "(violation_type \<times> incident_state) list \<Rightarrow> incident_phase set" where
  "counted items = {is_Phase s | v s. (v, s) \<in> set items \<and> v \<noteq> ViolationTelemetryLoss}"

lemma counted_Nil [simp]: "counted [] = {}"
  by (simp add: counted_def)

lemma counted_Cons:
  "counted ((v, s) # items) =
   (if v = ViolationTelemetryLoss then counted items else insert (is_Phase s) (counted items))"
  by (auto simp: counted_def)

definition worst :: "incident_phase set \<Rightarrow> condition" where
  "worst phases =
     (if IncidentOpen \<in> phases then ConditionNonConforming
      else if IncidentSuspected \<in> phases then ConditionSuspected
      else if IncidentRecovering \<in> phases then ConditionRecovering
      else ConditionConforming)"

lemma condition_loop_from:
  "condition_loop items ConditionNonConforming = ConditionNonConforming"
  "condition_loop items ConditionSuspected =
     (if IncidentOpen \<in> counted items then ConditionNonConforming else ConditionSuspected)"
  "condition_loop items ConditionRecovering =
     (if IncidentOpen \<in> counted items then ConditionNonConforming
      else if IncidentSuspected \<in> counted items then ConditionSuspected else ConditionRecovering)"
  by (induction items)
    (auto simp: counted_Cons split: incident_phase.splits if_splits)

lemma condition_loop_worst:
  "condition_loop items ConditionConforming = worst (counted items)"
proof (induction items)
  case (Cons x items)
  then show ?case
    by (cases x)
      (auto simp: counted_Cons worst_def condition_loop_from
        split: incident_phase.splits if_splits)
qed (simp add: worst_def)

lemma set_map_items: "set (map_items order m) = {(k, x). k \<in> set order \<and> m k = Some x}"
  by (force simp: map_items_def map_filter_def image_iff)

lemma counted_map_items:
  "counted (map_items violation_types m) =
   {is_Phase s | v s. m v = Some s \<and> v \<noteq> ViolationTelemetryLoss}"
  by (auto simp: counted_def set_map_items)

end
