(* ===== verification/Containment.thy ===== *)
theory Containment
  imports Evaluation
begin

text \<open>
  What the evaluator's spatial evidence means: the loop over the spatial volumes of
  \<^verbatim>\<open>(*Evaluator).Evaluate\<close>, the terminal-overrun reference, and the link from a
  conforming verdict to a single volume that contains the observation in all four dimensions.
\<close>

section \<open>The loop over the spatial volumes\<close>

text \<open>One volume that holds the observation laterally and vertically, within tolerance.\<close>

definition contains4D :: "fpu \<Rightarrow> policy \<Rightarrow> observation \<Rightarrow> volume \<Rightarrow> bool" where
  "contains4D F p obs v \<longleftrightarrow>
     insideLateral F p obs v \<and> compatible obs v \<and>
     f_le (altitudeDeviationFromVolume F obs v) (pol_VerticalToleranceM p)"

definition best_from :: "fpu \<Rightarrow> observation \<Rightarrow> volume \<Rightarrow> spatial_acc \<Rightarrow> bool" where
  "best_from F obs v acc \<longleftrightarrow>
     compatible obs v \<and> bestLateral acc = distanceToRingMeters F obs (vol_Polygon v) \<and>
     bestVertical acc = altitudeDeviationFromVolume F obs v \<and>
     bestLateral acc \<noteq> FNaN \<and> bestVertical acc \<noteq> FNaN"

text \<open>
  While no volume passed jointly, the best pair is unset or comes from one of the volumes
  \<open>seen\<close>, none of which contains the observation.
\<close>

definition spatial_inv :: "fpu \<Rightarrow> policy \<Rightarrow> observation \<Rightarrow> volume set \<Rightarrow> spatial_acc \<Rightarrow> bool" where
  "spatial_inv F p obs seen acc \<longleftrightarrow>
     (if jointPass acc then \<exists>v \<in> seen. contains4D F p obs v
      else (bestLateral acc = FInf True \<or> (\<exists>v \<in> seen. best_from F obs v acc)) \<and>
           (\<forall>v \<in> seen. \<not> contains4D F p obs v) \<and>
           (anyLateralPass acc \<longleftrightarrow> (\<exists>v \<in> seen. insideLateral F p obs v)) \<and>
           (compatibleVolume acc \<longleftrightarrow> (\<exists>v \<in> seen. compatible obs v)))"

lemma f_add_not_NaN: "f_add F x y \<noteq> FNaN \<Longrightarrow> x \<noteq> FNaN \<and> y \<noteq> FNaN"
  by (cases x; cases y) auto

lemma f_max_sub_not_NaN: "f_max (Fin 0) (f_sub F x y) \<noteq> FNaN \<Longrightarrow> x \<noteq> FNaN"
  by (cases y) (auto simp: f_max_def f_sub_def)

lemma f_lt_not_NaN: "f_lt x y \<Longrightarrow> x \<noteq> FNaN \<and> y \<noteq> FNaN"
  by (cases x; cases y) auto

lemma spatial_init_inv: "spatial_inv F p obs {} spatial_init"
  by (simp add: spatial_inv_def spatial_init_def)

lemma spatial_step_inv:
  assumes "spatial_inv F p obs seen acc" "\<not> jointPass acc"
  shows "spatial_inv F p obs (insert v seen) (spatial_step F p obs v acc)"
proof (cases "compatible obs v")
  case False
  with assms show ?thesis
    by (auto simp: spatial_inv_def spatial_step_def Let_def contains4D_def best_from_def)
next
  case True
  let ?ld = "distanceToRingMeters F obs (vol_Polygon v)"
  let ?vd = "altitudeDeviationFromVolume F obs v"
  let ?score = "f_add F (f_max (Fin 0) (f_sub F ?ld (pol_HorizontalToleranceM p)))
                        (f_max (Fin 0) (f_sub F ?vd (pol_VerticalToleranceM p)))"
  have "f_lt ?score b \<Longrightarrow> ?ld \<noteq> FNaN \<and> ?vd \<noteq> FNaN" for b
    by (auto dest!: f_lt_not_NaN [THEN conjunct1] f_add_not_NaN dest: f_max_sub_not_NaN)
  with True assms show ?thesis
    by (auto simp: spatial_inv_def spatial_step_def Let_def contains4D_def best_from_def)
qed

lemma spatial_loop_inv:
  "spatial_inv F p obs seen acc \<Longrightarrow> \<not> jointPass acc \<Longrightarrow>
   \<exists>seen'. seen' \<subseteq> seen \<union> set vs \<and> spatial_inv F p obs seen' (spatial_loop F p obs vs acc) \<and>
     (jointPass (spatial_loop F p obs vs acc) \<or> seen' = seen \<union> set vs)"
proof (induction vs arbitrary: seen acc)
  case (Cons v vs)
  let ?acc = "spatial_step F p obs v acc"
  have step: "spatial_inv F p obs (insert v seen) ?acc"
    by (rule spatial_step_inv [OF Cons.prems])
  show ?case
  proof (cases "jointPass ?acc")
    case True
    with step show ?thesis by (intro exI [of _ "insert v seen"]) auto
  next
    case False
    from Cons.IH [OF step this] show ?thesis
      using False by (auto simp: Un_assoc)
  qed
qed auto

text \<open>Joint pass is exactly the existence of a containing volume.\<close>

lemma jointPass_iff:
  "jointPass (spatial_loop F p obs vs spatial_init) \<longleftrightarrow> (\<exists>v \<in> set vs. contains4D F p obs v)"
proof -
  obtain seen where "seen \<subseteq> set vs"
      "spatial_inv F p obs seen (spatial_loop F p obs vs spatial_init)"
      "jointPass (spatial_loop F p obs vs spatial_init) \<or> seen = set vs"
    using spatial_loop_inv [OF spatial_init_inv, of vs F p obs]
    by (auto simp: spatial_init_def)
  then show ?thesis
    by (auto simp: spatial_inv_def split: if_splits)
qed

lemma no_joint_best:
  assumes "\<not> jointPass (spatial_loop F p obs vs spatial_init)"
  defines "r \<equiv> spatial_loop F p obs vs spatial_init"
  shows "bestLateral r = FInf True \<or> (\<exists>v \<in> set vs. best_from F obs v r)"
    and "anyLateralPass r \<longleftrightarrow> (\<exists>v \<in> set vs. insideLateral F p obs v)"
    and "compatibleVolume r \<longleftrightarrow> (\<exists>v \<in> set vs. compatible obs v)"
proof -
  have "spatial_inv F p obs (set vs) r"
    using spatial_loop_inv [OF spatial_init_inv, of vs F p obs] assms(1)
    by (auto simp: spatial_init_def r_def)
  with assms(1) show "bestLateral r = FInf True \<or> (\<exists>v \<in> set vs. best_from F obs v r)"
    and "anyLateralPass r \<longleftrightarrow> (\<exists>v \<in> set vs. insideLateral F p obs v)"
    and "compatibleVolume r \<longleftrightarrow> (\<exists>v \<in> set vs. compatible obs v)"
    by (auto simp: spatial_inv_def r_def)
qed

lemma valid_policy_finite:
  "valid_policy p \<Longrightarrow> \<exists>h w. pol_HorizontalToleranceM p = Fin h \<and> pol_VerticalToleranceM p = Fin w \<and>
     0 \<le> h \<and> 0 \<le> w"
  by (auto simp: valid_policy_def Validate_def finiteNonnegative_def finite_def finite64_iff
      split: if_splits)

text \<open>With both spatial signals known and neither breached, one volume contains the observation.\<close>

lemma spatial_clear_contains:
  assumes "valid_policy p"
    and "spatial_evidence F p obs vs ViolationLateral = Some l" "\<not> breached l"
    and "spatial_evidence F p obs vs ViolationVertical = Some w" "\<not> breached w"
  shows "\<exists>v \<in> set vs. contains4D F p obs v"
proof (rule ccontr)
  assume none: "\<not> ?thesis"
  let ?r = "spatial_loop F p obs vs spatial_init"
  have nj: "\<not> jointPass ?r" using none by (simp add: jointPass_iff)
  obtain h k where tol: "pol_HorizontalToleranceM p = Fin h" "pol_VerticalToleranceM p = Fin k"
    using valid_policy_finite [OF assms(1)] by blast
  have "\<not> f_lt (Fin h) (bestLateral ?r)" "\<not> f_lt (Fin k) (bestVertical ?r)"
    using assms(2-5) nj tol by (auto simp: spatial_evidence_def Let_def split: if_splits)
  moreover obtain v where "v \<in> set vs" "best_from F obs v ?r"
    using no_joint_best(1) [OF nj] calculation(1) by auto
  ultimately have "contains4D F p obs v"
    using tol by (auto simp: contains4D_def best_from_def insideLateral_def f_le_iff_not_lt)
  with none \<open>v \<in> set vs\<close> show False by blast
qed

section \<open>Verdicts\<close>

text \<open>After a breached sample an incident is suspected or open, never clear.\<close>

lemma advance_breached_phase:
  "is_Phase (fst (advance p v s True d obs)) \<in> {IncidentSuspected, IncidentOpen}"
  by (auto simp: advance_defs split: incident_phase.splits)

lemma conforming_not_breached:
  assumes "Evaluate F p now a obs prev = Inr r" "ev_Condition r = ConditionConforming"
    and "evidenceByType F p a obs v = Some e" "v \<noteq> ViolationTelemetryLoss"
  shows "\<not> breached e"
proof
  assume b: "breached e"
  let ?s = "fst (advance p v (state_of (Violations prev) v) True (deviation e) obs)"
  have "step_state F p a obs prev v = Some ?s"
    using assms(3) b by (simp add: step_state_def)
  then have "is_Phase ?s \<in> counted (map_items violation_types (step_state F p a obs prev))"
    using assms(4) by (auto simp: counted_map_items)
  moreover have "ev_Condition r = conclude F p a obs (step_state F p a obs prev)"
    using assms(1) by (simp add: Evaluate_Inr)
  ultimately show False
    using assms(2) advance_breached_phase [of p v "state_of (Violations prev) v" "deviation e" obs]
    by (auto simp: conclude_def condition_loop_worst worst_def Let_def split: if_splits)
qed

lemma conforming_vertical_known:
  assumes "Evaluate F p now a obs prev = Inr r" "ev_Condition r = ConditionConforming"
  shows "\<exists>e. evidenceByType F p a obs ViolationVertical = Some e"
  using assms by (cases "evidenceByType F p a obs ViolationVertical")
    (auto simp: Evaluate_Inr conclude_def Let_def split: if_splits)

lemma vertical_known_lateral_known:
  "evidenceByType F p a obs ViolationVertical = Some e \<Longrightarrow>
   \<exists>l. evidenceByType F p a obs ViolationLateral = Some l"
  by (auto simp: evidenceByType_def spatial_evidence_def Let_def split: if_splits)

section \<open>The terminal-overrun reference\<close>

lemma latest_loop_append:
  "latest_loop (xs @ ys) k acc = latest_loop ys (k + length xs) (latest_loop xs k acc)"
  by (induction xs arbitrary: k acc) (auto split: prod.splits)

text \<open>The scan keeps the first volume with the latest end and whether another one ties with it.\<close>

definition latest_so_far :: "volume list \<Rightarrow> gotime \<times> nat option \<times> bool \<Rightarrow> bool" where
  "latest_so_far vs acc \<longleftrightarrow>
     (case acc of
        (m, None, amb) \<Rightarrow> vs = [] \<and> m = zero_time \<and> \<not> amb
      | (m, Some i, amb) \<Rightarrow>
          i < length vs \<and> vol_EndsAt (vs ! i) = m \<and> (\<forall>v \<in> set vs. vol_EndsAt v \<le> m) \<and>
          (amb \<longleftrightarrow> (\<exists>j < length vs. j \<noteq> i \<and> vol_EndsAt (vs ! j) = m)))"

lemma latest_loop_so_far:
  "\<forall>v \<in> set vs. \<not> IsZero (vol_EndsAt v) \<Longrightarrow>
   latest_so_far vs (latest_loop vs 0 (zero_time, None, False))"
proof (induction vs rule: rev_induct)
  case Nil
  then show ?case by (simp add: latest_so_far_def)
next
  case (snoc v vs)
  obtain m i amb where acc: "latest_loop vs 0 (zero_time, None, False) = (m, i, amb)"
    by (metis prod_cases3)
  have IH: "latest_so_far vs (m, i, amb)"
    using snoc by (simp flip: acc)
  show ?case
  proof (cases i)
    case None
    with IH acc show ?thesis
      by (simp add: latest_so_far_def latest_loop_append IsZero_def)
  next
    case (Some k)
    with IH have "m \<noteq> zero_time"
      using snoc.prems by (auto simp: latest_so_far_def IsZero_def)
    have le: "\<And>j. j < length vs \<Longrightarrow> vol_EndsAt (vs ! j) \<le> m" "\<And>w. w \<in> set vs \<Longrightarrow> vol_EndsAt w \<le> m"
      and k: "k < length vs" "vol_EndsAt (vs ! k) = m"
      and amb: "amb \<longleftrightarrow> (\<exists>j < length vs. j \<noteq> k \<and> vol_EndsAt (vs ! j) = m)"
      using Some IH by (auto simp: latest_so_far_def)
    consider "m < vol_EndsAt v" | "vol_EndsAt v = m" | "vol_EndsAt v < m" by linarith
    then show ?thesis
    proof cases
      case 1
      have "j < length vs \<Longrightarrow> vol_EndsAt (vs ! j) \<noteq> vol_EndsAt v" for j
        using le(1) [of j] 1 by linarith
      moreover have "w \<in> set vs \<Longrightarrow> vol_EndsAt w \<le> vol_EndsAt v" for w
        using le(2) [of w] 1 by linarith
      ultimately show ?thesis
        using 1 Some acc by (simp add: latest_so_far_def latest_loop_append nth_append)
    next
      case 2
      then have "\<exists>j < Suc (length vs). j \<noteq> k \<and> vol_EndsAt ((vs @ [v]) ! j) = m"
        using k by (intro exI [of _ "length vs"]) simp
      then show ?thesis
        using 2 Some acc k le(2) \<open>m \<noteq> zero_time\<close>
        by (simp add: latest_so_far_def latest_loop_append nth_append IsZero_def)
    next
      case 3
      then have "(\<exists>j < Suc (length vs). j \<noteq> k \<and> vol_EndsAt ((vs @ [v]) ! j) = m) \<longleftrightarrow> amb"
        using k amb by (auto simp: nth_append less_Suc_eq)
      then show ?thesis
        using 3 Some acc k le(2) \<open>m \<noteq> zero_time\<close>
        by (simp add: latest_so_far_def latest_loop_append nth_append IsZero_def)
    qed
  qed
qed

end
