(* ===== verification/Evaluator_Properties.thy ===== *)
theory Evaluator_Properties
  imports Containment
begin

text \<open>
  The properties of the evaluator: hysteresis as a refinement, episodes, replay, the meaning
  of a conforming verdict, what missing evidence may do, the terminal-overrun reference, and
  the geometry it all rests on. Each property with hypotheses is followed by a witness on the
  small flight below.
\<close>

section \<open>A small flight\<close>

definition demo_policy :: policy where
  "demo_policy =
     \<lparr>pol_Version = ''standard-v1'', pol_HorizontalToleranceM = Fin 5,
      pol_VerticalToleranceM = Fin 3, pol_OpenAfterSamples = 2, pol_RecoverAfterSamples = 2,
      pol_TelemetryFreshness = 15 * Second\<rparr>"

definition demo_ring :: "point list" where
  "demo_ring =
     [\<lparr>pt_Latitude = Fin (- 1), pt_Longitude = Fin (- 1)\<rparr>,
      \<lparr>pt_Latitude = Fin 1, pt_Longitude = Fin (- 1)\<rparr>,
      \<lparr>pt_Latitude = Fin 1, pt_Longitude = Fin 1\<rparr>,
      \<lparr>pt_Latitude = Fin (- 1), pt_Longitude = Fin 1\<rparr>]"

definition demo_volume :: volume where
  "demo_volume =
     \<lparr>vol_ID = ''volume-1'', vol_Polygon = demo_ring, vol_AltitudeLowerM = Fin 80,
      vol_AltitudeUpperM = Fin 120, vol_AltitudeReference = AltitudeMSL,
      vol_StartsAt = 1000, vol_EndsAt = 2000\<rparr>"

definition demo_assignment :: assignment where
  "demo_assignment =
     \<lparr>asg_ID = ''assignment-1'', asg_Generation = 1, asg_OperatorID = ''operator'',
      asg_AircraftID = ''aircraft'', asg_AgentID = ''agent'', asg_FlightID = ''flight'',
      asg_IntentID = ''intent'', asg_IntentVersion = 1, asg_PolicyVersion = ''standard-v1'',
      asg_EffectiveFrom = 1000, asg_EffectiveUntil = 3000, asg_Volumes = [demo_volume]\<rparr>"

definition demo_observation :: "string \<Rightarrow> nat \<Rightarrow> gotime \<Rightarrow> real \<Rightarrow> observation" where
  "demo_observation frame seq t alt =
     \<lparr>obs_FrameID = frame, obs_AgentID = ''agent'', obs_WALID = ''wal'', obs_WALSequence = seq,
      obs_AircraftID = ''aircraft'', obs_FlightID = ''flight'', obs_IntentID = ''intent'',
      obs_IntentVersion = 1, obs_Latitude = Fin 0, obs_Longitude = Fin 0, obs_AltitudeM = Fin alt,
      obs_AltitudeKnown = True, obs_AltitudeReference = AltitudeMSL, obs_ObservedAt = t\<rparr>"

lemmas demo_defs =
  demo_policy_def demo_ring_def demo_volume_def demo_assignment_def demo_observation_def

lemma demo_policy_valid [simp]: "valid_policy demo_policy"
  by (simp add: valid_policy_def Validate_def demo_policy_def finiteNonnegative_def finite_def
      Second_def)

lemma demo_assignment_valid [simp]: "validateAssignment demo_assignment demo_policy = Inr ()"
  by (simp add: validateAssignment_def demo_defs validCoordinate_def finite_def IsZero_def
      zero_time_def)

lemma demo_observation_matches [simp]:
  "frame \<noteq> [] \<Longrightarrow> 0 \<le> t \<Longrightarrow> observation_matches demo_assignment (demo_observation frame seq t alt)"
  by (simp add: observation_matches_def demo_defs validCoordinate_def finite_def IsZero_def
      zero_time_def)

definition demo_batch :: "observation list" where
  "demo_batch =
     [demo_observation ''f1'' 1 1100 130, demo_observation ''f2'' 2 1200 130,
      demo_observation ''f3'' 3 1300 100]"

lemma demo_batch_acceptable [simp]: "acceptable demo_policy demo_assignment demo_batch"
  by (simp add: acceptable_def demo_batch_def observationBefore_def)
    (simp add: demo_observation_def)

definition demo_result :: "fpu \<Rightarrow> evaluation" where
  "demo_result F =
     (final_of F demo_policy demo_assignment (last demo_batch)
        (run_states F demo_policy demo_assignment (butlast demo_batch) empty_state))
       \<lparr>ev_Transitions := run_transitions F demo_policy demo_assignment demo_batch empty_state,
        ev_CausalFrom := earliestCausalTimestamp empty_state (obs_ObservedAt (hd demo_batch))\<rparr>"

lemma demo_batch_runs:
  "EvaluateBatch F demo_policy demo_assignment demo_batch empty_state = Inr (demo_result F)"
  by (simp add: EvaluateBatch_Inr demo_result_def) (simp add: demo_batch_def)

section \<open>Hysteresis\<close>






definition demo_open_state :: evaluator_state where
  "demo_open_state =
     \<lparr>Violations = [ViolationTemporal \<mapsto>
        zero_incident\<lparr>is_Phase := IncidentOpen, is_OpeningFrameID := ''f0'',
                       is_ConsecutiveOutside := 2, is_FirstSuspectedAt := 1000,
                       is_OpenedAt := 1000, is_LastObservedAt := 1050\<rparr>]\<rparr>"





text \<open>
  Evaluation keeps the evaluator state well formed: a suspected incident is below its
  opening count, a recovering one below its recovery count, and an open or recovering one
  knows the frame that opened it.
\<close>

theorem batch_preserves_invariant:
  assumes "valid_policy p" and "state_inv p prev"
    and "EvaluateBatch F p a xs prev = Inr r"
  shows "state_inv p (ev_State r)"
  using run_states_inv [OF assms(1,2)] EvaluateBatch_result [OF assms(3)] by simp

theorem batch_preserves_invariant_witness:
  "state_inv demo_policy (ev_State (demo_result exact_fpu))"
  by (rule batch_preserves_invariant [OF demo_policy_valid state_inv_empty demo_batch_runs])

section \<open>Replay\<close>

lemma canonical_append:
  "canonical prior (xs @ ys) \<longleftrightarrow>
   canonical prior xs \<and> canonical (if xs = [] then prior else Some (last xs)) ys"
  by (induction xs arbitrary: prior) auto

text \<open>
  C14: splitting a batch at a checkpoint changes nothing: evaluating the prefix, restoring its
  final state and evaluating the suffix gives the final state, condition and cursor of the
  whole batch, and the transitions of the two halves in order. This is what a worker that
  takes over from a checkpoint relies on.
\<close>

theorem replay_from_checkpoint:
  assumes "EvaluateBatch F p a xs prev = Inr r1"
    and "EvaluateBatch F p a ys (ev_State r1) = Inr r2"
    and "\<not> observationBefore (hd ys) (last xs)"
  shows "EvaluateBatch F p a (xs @ ys) prev =
         Inr (r2\<lparr>ev_Transitions := ev_Transitions r1 @ ev_Transitions r2,
                 ev_CausalFrom := ev_CausalFrom r1\<rparr>)"
proof -
  note 1 = EvaluateBatch_result [OF assms(1)] and 2 = EvaluateBatch_result [OF assms(2)]
  have "canonical (Some (last xs)) ys"
    using 2(1,2) assms(3) by (cases ys) (auto simp: acceptable_def)
  then have "acceptable p a (xs @ ys)"
    using 1(1,2) 2(2) by (simp add: acceptable_def canonical_append)
  moreover have "run_states F p a (butlast ys) (ev_State r1) =
      run_states F p a (butlast (xs @ ys)) prev"
    using 1(4) 2(1) by (simp add: butlast_append run_states_append)
  ultimately show ?thesis
    using assms(2) 1 2 by (simp add: EvaluateBatch_Inr run_transitions_append run_states_append)
qed

theorem replay_from_checkpoint_witness:
  "\<exists>r1 r2. EvaluateBatch exact_fpu demo_policy demo_assignment
         [demo_observation ''f1'' 1 1100 130] empty_state = Inr r1 \<and>
     EvaluateBatch exact_fpu demo_policy demo_assignment
         [demo_observation ''f2'' 2 1200 130] (ev_State r1) = Inr r2 \<and>
     EvaluateBatch exact_fpu demo_policy demo_assignment
       ([demo_observation ''f1'' 1 1100 130] @ [demo_observation ''f2'' 2 1200 130]) empty_state =
       Inr (r2\<lparr>ev_Transitions := ev_Transitions r1 @ ev_Transitions r2,
                ev_CausalFrom := ev_CausalFrom r1\<rparr>)"
proof -
  obtain r1 where r1: "EvaluateBatch exact_fpu demo_policy demo_assignment
      [demo_observation ''f1'' 1 1100 130] empty_state = Inr r1"
    using EvaluateBatch_Inr [of exact_fpu demo_policy demo_assignment
        "[demo_observation ''f1'' 1 1100 130]" empty_state] by (simp add: acceptable_def)
  obtain r2 where r2: "EvaluateBatch exact_fpu demo_policy demo_assignment
      [demo_observation ''f2'' 2 1200 130] (ev_State r1) = Inr r2"
    using EvaluateBatch_Inr [of exact_fpu demo_policy demo_assignment
        "[demo_observation ''f2'' 2 1200 130]" "ev_State r1"] by (simp add: acceptable_def)
  have "\<not> observationBefore (hd [demo_observation ''f2'' 2 1200 130])
      (last [demo_observation ''f1'' 1 1100 130])"
    by (simp add: observationBefore_def demo_observation_def)
  from replay_from_checkpoint [OF r1 r2 this] r1 r2 show ?thesis by blast
qed

section \<open>Verdicts\<close>

text \<open>
  C12: a conforming verdict means that one and the same planned volume, active at the
  observation's time, contains the observation laterally and vertically within the policy's
  tolerances; bounds satisfied by two different volumes are never combined.
\<close>

theorem conforming_single_volume:
  assumes "valid_policy p" and "Evaluate F p now a obs prev = Inr r"
    and "ev_Condition r = ConditionConforming"
  shows "\<exists>v \<in> set (asg_Volumes a). active_at (obs_ObservedAt obs) v \<and> contains4D F p obs v"
proof -
  let ?t = "obs_ObservedAt obs"
  obtain w where w: "evidenceByType F p a obs ViolationVertical = Some w"
    using conforming_vertical_known [OF assms(2,3)] by blast
  obtain l where l: "evidenceByType F p a obs ViolationLateral = Some l"
    using vertical_known_lateral_known [OF w] by blast
  have "\<not> breached w" "\<not> breached l" "\<not> breached (temporal_evidence F a ?t)"
    using conforming_not_breached [OF assms(2,3)] w l evidence_temporal by blast+
  moreover from this(3) have "spatialVolumes a ?t = filter (active_at ?t) (asg_Volumes a)"
    by (auto simp: temporal_evidence_def spatialVolumes_def Let_def split: if_splits)
  ultimately show ?thesis
    using spatial_clear_contains [OF assms(1), of F obs "filter (active_at ?t) (asg_Volumes a)" l w] w l
    by (auto simp: evidenceByType_def)
qed

text \<open>The demo aircraft at 100 m is inside the demo volume.\<close>

lemma demo_inside: "pointInPolygon exact_fpu (Fin 0) (Fin 0) demo_ring"
  by (simp add: pointInPolygon_def demo_ring_def crosses_def)

lemma demo_contains4D:
  "contains4D exact_fpu demo_policy (demo_observation f n t 100) demo_volume"
  using demo_inside
  by (simp add: contains4D_def insideLateral_def compatible_def altitudeDeviationFromVolume_def
      demo_volume_def demo_policy_def demo_observation_def)

lemma demo_volumes:
  "1000 \<le> t \<Longrightarrow> t < 2000 \<Longrightarrow> filter (active_at t) (asg_Volumes demo_assignment) = [demo_volume]"
  by (simp add: active_at_def demo_assignment_def demo_volume_def)

lemma demo_evidence:
  assumes "1000 \<le> t" "t < 2000" and obs: "obs = demo_observation f n t 100"
  shows "evidenceByType exact_fpu demo_policy demo_assignment obs =
     [ViolationLateral \<mapsto> \<lparr>known = True, breached = False, deviation = Fin 0\<rparr>,
      ViolationVertical \<mapsto> \<lparr>known = True, breached = False, deviation = Fin 0\<rparr>,
      ViolationTemporal \<mapsto> \<lparr>known = True, breached = False, deviation = Fin 0\<rparr>]"
proof -
  have t: "obs_ObservedAt obs = t" by (simp add: obs demo_observation_def)
  have "spatialVolumes demo_assignment t = [demo_volume]"
    using assms demo_volumes [of t] by (simp add: spatialVolumes_def)
  moreover have "jointPass (spatial_loop exact_fpu demo_policy obs [demo_volume] spatial_init)"
    unfolding jointPass_iff using demo_contains4D [of f n t] by (simp add: obs)
  moreover have "temporal_evidence exact_fpu demo_assignment t =
      \<lparr>known = True, breached = False, deviation = Fin 0\<rparr>"
    using assms demo_volumes [of t] by (simp add: temporal_evidence_def demo_assignment_def)
  ultimately show ?thesis
    by (simp add: evidenceByType_def spatial_evidence_def t Let_def del: spatial_loop.simps)
qed

theorem conforming_single_volume_witness:
  "\<exists>r. Evaluate exact_fpu demo_policy 1100 demo_assignment (demo_observation ''f1'' 1 1100 100)
         empty_state = Inr r \<and> ev_Condition r = ConditionConforming \<and>
     (\<exists>v \<in> set (asg_Volumes demo_assignment).
        active_at 1100 v \<and>
        contains4D exact_fpu demo_policy (demo_observation ''f1'' 1 1100 100) v)"
proof -
  let ?o = "demo_observation ''f1'' 1 1100 100"
  note ev = demo_evidence [of 1100 ?o "''f1''" 1]
  obtain r where r: "Evaluate exact_fpu demo_policy 1100 demo_assignment ?o empty_state = Inr r"
    by (simp add: Evaluate_Inr)
  have "step_state exact_fpu demo_policy demo_assignment ?o empty_state v = Some s \<Longrightarrow>
      is_Phase s = IncidentClear" for v s
    using ev by (cases v) (auto simp: step_state_def empty_state_def advance_defs
        simp del: evidence_temporal)
  then have "ev_Condition r = ConditionConforming"
    using r ev by (auto simp: Evaluate_Inr conclude_def condition_loop_worst counted_map_items
        worst_def Let_def)
  with conforming_single_volume [OF demo_policy_valid r this] r show ?thesis
    by (auto simp: demo_observation_def)
qed

text \<open>
  The condition is the worst phase over the violation types, telemetry loss apart, and
  does not depend on the order in which Go iterates over the violations map.
\<close>

theorem condition_order_independent:
  assumes "set order = (UNIV :: violation_type set)"
  shows "condition_loop (map_items order m) ConditionConforming =
         worst {is_Phase s | v s. m v = Some s \<and> v \<noteq> ViolationTelemetryLoss}"
  using assms by (auto simp: condition_loop_worst counted_def set_map_items intro!: arg_cong [of _ _ worst])

theorem condition_order_independent_witness:
  "condition_loop (map_items (rev violation_types) (Violations demo_open_state)) ConditionConforming =
   worst {is_Phase s | v s. Violations demo_open_state v = Some s \<and> v \<noteq> ViolationTelemetryLoss}"
  by (rule condition_order_independent) simp

text \<open>
  C34: missing evidence never manufactures a recovery: when an observation gives no evidence
  for a violation type, the evaluation emits no transition of that type, keeps a non-clear
  incident exactly as it was and drops a clear lateral or altitude phase from the summary.
\<close>

theorem unknown_evidence_changes_nothing:
  assumes "Evaluate F p now a obs prev = Inr r" and "evidenceByType F p a obs v = None"
  shows "(\<forall>t \<in> set (ev_Transitions r). tr_Violation t \<noteq> v) \<and>
         (case Violations prev v of
            None \<Rightarrow> Violations (ev_State r) v = None
          | Some s \<Rightarrow>
              Violations (ev_State r) v =
                (if is_Phase s \<in> {PhaseUnset, IncidentClear} \<and>
                    v \<in> {ViolationLateral, ViolationVertical} then None else Some s))"
proof -
  have "filter (\<lambda>t. tr_Violation t = v) (ev_Transitions r) = []"
    using assms by (simp add: Evaluate_Inr filter_next_transitions step_transitions_def)
  moreover have "Violations (ev_State r) v = step_state F p a obs prev v"
    using assms(1) by (simp add: Evaluate_Inr)
  ultimately show ?thesis
    using assms(2)
    by (auto simp: step_state_def markNotEvaluated_same filter_empty_conv split: option.splits)
qed

theorem unknown_evidence_changes_nothing_witness:
  "\<exists>r. Evaluate exact_fpu demo_policy 1100 demo_assignment (demo_observation ''f1'' 1 1100 100)
         empty_state = Inr r \<and>
     (\<forall>t \<in> set (ev_Transitions r). tr_Violation t \<noteq> ViolationTelemetryLoss)"
proof -
  obtain r where r: "Evaluate exact_fpu demo_policy 1100 demo_assignment
      (demo_observation ''f1'' 1 1100 100) empty_state = Inr r"
    by (simp add: Evaluate_Inr)
  from unknown_evidence_changes_nothing [OF r evidence_loss] r show ?thesis by blast
qed

text \<open>
  C35: after the plan has ended, the spatial reference is the one volume that ends last;
  before the last end, outside the assignment's window or when two volumes tie for the last
  end there is none.
\<close>

theorem terminal_overrun_unique_latest:
  assumes "\<forall>v \<in> set (asg_Volumes a). \<not> IsZero (vol_EndsAt v)"
  shows "terminalOverrunVolumes a t = [v] \<longleftrightarrow>
         asg_EffectiveFrom a \<le> t \<and> t < asg_EffectiveUntil a \<and>
         (\<exists>i < length (asg_Volumes a). asg_Volumes a ! i = v \<and> vol_EndsAt v \<le> t \<and>
            (\<forall>j < length (asg_Volumes a). j \<noteq> i \<longrightarrow> vol_EndsAt (asg_Volumes a ! j) < vol_EndsAt v))"
proof -
  let ?vs = "asg_Volumes a"
  obtain m k amb where acc: "latest_loop ?vs 0 (zero_time, None, False) = (m, k, amb)"
    by (metis prod_cases3)
  have inv: "latest_so_far ?vs (m, k, amb)"
    using latest_loop_so_far [OF assms] by (simp add: acc)
  show ?thesis
  proof (cases k)
    case None
    then show ?thesis using inv by (auto simp: terminalOverrunVolumes_def acc latest_so_far_def)
  next
    case (Some i)
    then have i: "i < length ?vs" "vol_EndsAt (?vs ! i) = m"
      and le: "\<And>j. j < length ?vs \<Longrightarrow> vol_EndsAt (?vs ! j) \<le> m"
      and amb: "amb \<longleftrightarrow> (\<exists>j < length ?vs. j \<noteq> i \<and> vol_EndsAt (?vs ! j) = m)"
      using inv by (auto simp: latest_so_far_def)
    have uniq: "j = i \<and> \<not> amb" if "j < length ?vs"
        "\<forall>l < length ?vs. l \<noteq> j \<longrightarrow> vol_EndsAt (?vs ! l) < vol_EndsAt (?vs ! j)" for j
      using that i amb le by (metis order.strict_iff_not)
    have lt: "\<not> amb \<Longrightarrow> \<forall>l < length ?vs. l \<noteq> i \<longrightarrow> vol_EndsAt (?vs ! l) < m"
      using amb le by (metis order.not_eq_order_implies_strict)
    have "terminalOverrunVolumes a t = [v] \<longleftrightarrow>
        asg_EffectiveFrom a \<le> t \<and> t < asg_EffectiveUntil a \<and> m \<le> t \<and> \<not> amb \<and> ?vs ! i = v"
      by (auto simp: terminalOverrunVolumes_def acc Some)
    also have "\<dots> \<longleftrightarrow> asg_EffectiveFrom a \<le> t \<and> t < asg_EffectiveUntil a \<and>
        (\<exists>j < length ?vs. ?vs ! j = v \<and> vol_EndsAt v \<le> t \<and>
          (\<forall>l < length ?vs. l \<noteq> j \<longrightarrow> vol_EndsAt (?vs ! l) < vol_EndsAt v))"
      using i uniq lt by metis
    finally show ?thesis .
  qed
qed

theorem terminal_overrun_unique_latest_witness:
  "terminalOverrunVolumes demo_assignment 2500 = [demo_volume]"
proof -
  have "\<forall>v \<in> set (asg_Volumes demo_assignment). \<not> IsZero (vol_EndsAt v)"
    by (simp add: demo_defs IsZero_def zero_time_def)
  from terminal_overrun_unique_latest [OF this, of 2500 demo_volume] show ?thesis
    by (simp add: demo_assignment_def) (simp add: demo_volume_def)
qed

text \<open>
  C36: an aircraft that is laterally inside its only active volume, farther from the boundary
  than the tolerance, and outside the altitude band is reported as a lateral breach too: the
  lateral deviation is the distance to the boundary, also from within.
\<close>

theorem altitude_excursion_reports_lateral:
  assumes "spatialVolumes a (obs_ObservedAt obs) = [v]" and "compatible obs v"
    and "pol_HorizontalToleranceM p = Fin h" and "pol_VerticalToleranceM p = Fin k"
    and "pointInPolygon exact_fpu (obs_Longitude obs) (obs_Latitude obs) (vol_Polygon v)"
    and "distanceToRingMeters exact_fpu obs (vol_Polygon v) = Fin d" and "h < d"
    and "altitudeDeviationFromVolume exact_fpu obs v = Fin w" and "k < w"
  shows "evidenceByType exact_fpu p a obs ViolationLateral =
         Some \<lparr>known = True, breached = True, deviation = Fin d\<rparr>"
  using assms
  by (simp add: evidenceByType_def spatial_evidence_def spatial_step_def spatial_init_def Let_def
      f_max_def)

lemma demo_distance:
  "distanceToRingMeters exact_fpu (demo_observation f n t alt) demo_ring = Fin 111132"
proof -
  have "distanceToRingMeters exact_fpu (demo_observation f n t alt) demo_ring =
      nearest_loop exact_fpu (Fin 111320) (demo_observation f n t alt) (ring_edges demo_ring) (FInf True)"
    by (simp add: distanceToRingMeters_def lon_scale_def demo_observation_def pi64_def demo_ring_def)
  also have "\<dots> = Fin 111132"
    by (simp add: demo_ring_def ring_edges_def demo_observation_def segment_distance_def Let_def)
  finally show ?thesis .
qed

theorem altitude_excursion_reports_lateral_witness:
  "insideLateral exact_fpu demo_policy (demo_observation ''f1'' 1 1100 130) demo_volume \<and>
   evidenceByType exact_fpu demo_policy demo_assignment (demo_observation ''f1'' 1 1100 130)
     ViolationLateral = Some \<lparr>known = True, breached = True, deviation = Fin 111132\<rparr>"
proof -
  let ?o = "demo_observation ''f1'' 1 1100 130"
  have 1: "spatialVolumes demo_assignment (obs_ObservedAt ?o) = [demo_volume]"
    using demo_volumes [of 1100] by (simp add: spatialVolumes_def demo_observation_def)
  have 2: "compatible ?o demo_volume"
    by (simp add: compatible_def demo_observation_def demo_volume_def)
  have 3: "pol_HorizontalToleranceM demo_policy = Fin 5" "pol_VerticalToleranceM demo_policy = Fin 3"
    by (simp_all add: demo_policy_def)
  have 4: "pointInPolygon exact_fpu (obs_Longitude ?o) (obs_Latitude ?o) (vol_Polygon demo_volume)"
    using demo_inside by (simp add: demo_observation_def demo_volume_def)
  have 5: "distanceToRingMeters exact_fpu ?o (vol_Polygon demo_volume) = Fin 111132"
    using demo_distance by (simp add: demo_volume_def)
  have 6: "altitudeDeviationFromVolume exact_fpu ?o demo_volume = Fin 10"
    by (simp add: altitudeDeviationFromVolume_def demo_observation_def demo_volume_def)
  from altitude_excursion_reports_lateral [OF 1 2 3 4 5 _ 6] 4 show ?thesis
    by (simp add: insideLateral_def)
qed

section \<open>Geometry\<close>

text \<open>
  C40: in exact arithmetic the distance to a ring is the least distance to a point of its
  boundary: the running minimum over the clamped projections on the edges, the closing edge
  included, finds a nearest point.
\<close>

theorem distanceToRingMeters_nearest:
  assumes "finite_geometry obs ring" and "2 \<le> length ring"
  shows "\<exists>d. distanceToRingMeters exact_fpu obs ring = Fin d \<and>
             is_least d (boundary_distances (real_of (lon_scale exact_fpu obs)) obs (ring_edges ring))"
proof -
  obtain s where "lon_scale exact_fpu obs = Fin s"
    using assms(1) lon_scale_exact by (auto simp: finite_geometry_def)
  with distanceToRing_is_least [OF assms this] show ?thesis by simp
qed

lemma demo_finite_geometry: "finite_geometry (demo_observation f n t alt) demo_ring"
  by (simp add: finite_geometry_def demo_observation_def demo_ring_def finite_point_def)

theorem distanceToRingMeters_nearest_witness:
  "is_least 111132 (boundary_distances (real_of (lon_scale exact_fpu (demo_observation ''f'' 1 1 0)))
     (demo_observation ''f'' 1 1 0) (ring_edges demo_ring))"
proof -
  have "2 \<le> length demo_ring" by (simp add: demo_ring_def)
  from distanceToRingMeters_nearest [OF demo_finite_geometry this, of "''f''" 1 1 0]
  show ?thesis by (simp add: demo_distance)
qed

text \<open>
  A polygon may be given open or closed: repeating its first vertex at the end changes
  neither containment, whatever the rounding, nor, in exact arithmetic, the distance.
\<close>

theorem closing_vertex_irrelevant:
  assumes "finite_geometry obs ring" and "3 \<le> length ring"
  shows "pointInPolygon F x y (ring @ [hd ring]) = pointInPolygon F x y ring \<and>
         distanceToRingMeters exact_fpu obs (ring @ [hd ring]) = distanceToRingMeters exact_fpu obs ring"
proof -
  obtain s where s: "lon_scale exact_fpu obs = Fin s"
    using assms(1) lon_scale_exact by (auto simp: finite_geometry_def)
  have "ring \<noteq> []" using assms(2) by auto
  then have closed: "finite_geometry obs (ring @ [hd ring])"
    using assms(1) by (auto simp: finite_geometry_def list_all_iff)
  obtain d where d: "distanceToRingMeters exact_fpu obs ring = Fin d"
      "is_least d (boundary_distances s obs (ring_edges ring))"
    using distanceToRing_is_least [OF assms(1) _ s] assms(2) by auto
  obtain e where "distanceToRingMeters exact_fpu obs (ring @ [hd ring]) = Fin e"
      "is_least e (boundary_distances s obs (ring_edges ring))"
    using distanceToRing_is_least [OF closed _ s] assms(2) boundary_distances_closed [of ring s obs]
    by auto
  with d is_least_unique pointInPolygon_closed_ring [OF assms(2)] show ?thesis by metis
qed

theorem closing_vertex_irrelevant_witness:
  "pointInPolygon exact_fpu (Fin 0) (Fin 0) (demo_ring @ [hd demo_ring]) \<and>
   distanceToRingMeters exact_fpu (demo_observation ''f'' 1 1 0) (demo_ring @ [hd demo_ring]) =
     Fin 111132"
proof -
  have "3 \<le> length demo_ring" by (simp add: demo_ring_def)
  from closing_vertex_irrelevant [OF demo_finite_geometry [of "''f''" 1 1 0] this,
      of exact_fpu "Fin 0" "Fin 0"]
  show ?thesis using demo_inside demo_distance by metis
qed

end
