(* ===== verification/Store_Schema.thy ===== *)
theory Store_Schema
  imports Domain
begin

text \<open>
  The durable state of \<^verbatim>\<open>internal/store/postgres\<close>: one record per table of
  \<^verbatim>\<open>migrations/001_initial.sql\<close>, the database as the record of its tables, and the
  constraints PostgreSQL enforces on them. A table is the list of its rows. A statement that
  would violate a constraint fails, and with it the transaction; so every write below goes
  through a function that checks the table it produces.

  Code outside the repository is the parameter \<open>store_env\<close>: the storage of an instant in a
  \<^verbatim>\<open>timestamptz\<close> column (PostgreSQL keeps microseconds), the reading of a Go duration as an
  \<^verbatim>\<open>interval\<close>, the SHA-256 digest in hexadecimal, the digests of the JSON envelopes, and the
  collation that orders text columns. JSON columns
  hold the value that was encoded; what \<^verbatim>\<open>encoding/json\<close> refuses to encode is modelled.
  \<^verbatim>\<open>now()\<close> is an argument of every operation.
\<close>

section \<open>Commands, payloads, errors\<close>

datatype apply_disposition = ApplyApplied | ApplyIdempotent | ApplyStale

record lifecycle_command =
  cmd_AssignmentID :: string
  cmd_Generation :: nat
  cmd_EffectiveAt :: "gotime option"

record transition_evidence =
  te_SchemaVersion :: nat
  te_IncidentID :: string
  te_Violation :: violation_type
  te_Transition :: transition
  te_ObservedAt :: gotime
  te_FrameID :: string
  te_OpeningFrameID :: string
  te_WALID :: string
  te_WALSequence :: nat
  te_DeviationM :: f64

datatype payload =
  PayloadReceived assignment
  | PayloadCommand string lifecycle_command
  | PayloadEvaluation evaluation

datatype store_error =
  ErrLeaseLost | ErrMessageConflict | ErrStaleEvaluation | ErrInvalidTransition
  | ErrStaleAssignment | ErrAssignmentNotFound | ErrOutboxLeaseLost
  | EnvelopeInvalid | EncodeFailed | StoredOutcomeInvalid | CommandInvalid | CutoverInvalid
  | TimestampUnsupported | LookupInvalid | ClaimArgumentsInvalid | NextEvaluationRequired
  | ExtensionInvalid | CommitIncomplete | TransitionIncomplete | HistoricalTargetInvalid
  | OpeningNotFound | ResolutionNotFound | RetryArgumentsInvalid | ScanFailed
  | ConstraintViolation

section \<open>Tables\<close>

record assignment_row =
  ar_id :: string
  ar_gen :: nat
  ar_aircraft :: string
  ar_agent :: string
  ar_flight :: string
  ar_intent :: string
  ar_intent_version :: nat
  ar_policy :: string
  ar_lifecycle :: assignment_lifecycle
  ar_spec :: assignment
  ar_authority_from :: "gotime option"
  ar_authority_until :: "gotime option"
  ar_from_ns :: "int option"
  ar_until_ns :: "int option"
  ar_next_evaluation_at :: gotime
  ar_lease_owner :: "string option"
  ar_lease_generation :: nat
  ar_lease_until :: "gotime option"
  ar_evaluation_revision :: nat
  ar_prepared_at :: gotime
  ar_armed_at :: "gotime option"
  ar_cutover_at :: "gotime option"
  ar_updated_at :: gotime

record inbox_row =
  in_source :: string
  in_message :: string
  in_hash :: string
  in_type :: string
  in_aid :: string
  in_gen :: nat
  in_processed_at :: gotime
  in_outcome :: "(apply_disposition \<times> assignment_lifecycle option) option"

record checkpoint_row =
  cp_aid :: string
  cp_gen :: nat
  cp_rev :: nat
  cp_through_at :: gotime
  cp_through_ns :: int
  cp_wal :: string
  cp_seq :: nat
  cp_frame :: string
  cp_state :: evaluator_state

datatype incident_status = IncidentRowOpen | IncidentRowResolved

record incident_row =
  inc_id :: string
  inc_aid :: string
  inc_gen :: nat
  inc_key :: violation_type
  inc_violation :: violation_type
  inc_status :: incident_status
  inc_opened_at :: gotime
  inc_last_observed_at :: gotime
  inc_resolved_at :: "gotime option"
  inc_opening_frame :: string
  inc_resolution_event :: "string option"
  inc_revision :: nat
  inc_details :: evaluation

record event_row =
  evt_id :: string
  evt_aid :: string
  evt_gen :: nat
  evt_incident :: string
  evt_transition :: transition
  evt_violation :: violation_type
  evt_observed_at :: gotime
  evt_frame :: string
  evt_wal :: string
  evt_seq :: nat
  evt_rev :: nat
  evt_payload :: transition_evidence
  evt_hash :: string
  evt_deviation :: f64

record summary_row =
  sum_aid :: string
  sum_gen :: nat
  sum_rev :: nat
  sum_condition :: condition
  sum_monitoring :: monitoring_status
  sum_recording :: recording_status
  sum_observed_at :: gotime
  sum_observed_ns :: int
  sum_frame :: string
  sum_payload :: evaluation

record outbox_row =
  ob_id :: string
  ob_destination :: string
  ob_key :: string
  ob_aid :: string
  ob_gen :: nat
  ob_rev :: nat
  ob_payload :: payload
  ob_attempts :: nat
  ob_next_attempt_at :: gotime
  ob_lease_owner :: "string option"
  ob_lease_generation :: nat
  ob_lease_until :: "gotime option"
  ob_delivered_at :: "gotime option"
  ob_last_error :: "string option"

record transition_row =
  tw_id :: string
  tw_source :: string
  tw_message :: string
  tw_aid :: string
  tw_gen :: nat
  tw_from :: "assignment_lifecycle option"
  tw_to :: assignment_lifecycle
  tw_effective_at :: "gotime option"
  tw_payload :: payload

record db =
  assignments :: "assignment_row list"
  inbox :: "inbox_row list"
  checkpoints :: "checkpoint_row list"
  incidents :: "incident_row list"
  events :: "event_row list"
  summaries :: "summary_row list"
  outbox :: "outbox_row list"
  transitions :: "transition_row list"

definition empty_db :: db where
  "empty_db =
     \<lparr>assignments = [], inbox = [], checkpoints = [], incidents = [], events = [],
      summaries = [], outbox = [], transitions = []\<rparr>"

record store_env =
  timestamptz :: "gotime \<Rightarrow> gotime"
  sha_hex :: "string \<Rightarrow> string"
  assignment_hash :: "string \<Rightarrow> assignment \<Rightarrow> string"
  command_hash :: "string \<Rightarrow> lifecycle_command \<Rightarrow> string"
  evidence_hash :: "transition_evidence \<Rightarrow> string"
  pg_interval :: "duration \<Rightarrow> duration"
  text_less :: "string \<Rightarrow> string \<Rightarrow> bool"

section \<open>Lifecycle classes and row constraints\<close>

definition is_candidate :: "assignment_lifecycle \<Rightarrow> bool" where
  "is_candidate l \<longleftrightarrow> l = AssignmentReceived \<or> l = AssignmentArmed"

definition is_current :: "assignment_lifecycle \<Rightarrow> bool" where
  "is_current l \<longleftrightarrow> l = AssignmentActive \<or> l = AssignmentEnding"

abbreviation candidate_row :: "assignment_row \<Rightarrow> bool" where
  "candidate_row r \<equiv> is_candidate (ar_lifecycle r)"

abbreviation current_row :: "assignment_row \<Rightarrow> bool" where
  "current_row r \<equiv> is_current (ar_lifecycle r)"

abbreviation row_key :: "assignment_row \<Rightarrow> string \<times> nat" where
  "row_key r \<equiv> (ar_id r, ar_gen r)"

text \<open>
  The \<^verbatim>\<open>CHECK\<close> constraints of \<^verbatim>\<open>conformance_assignments\<close>. A comparison with NULL does not
  make a check fail.
\<close>

definition authority_interval_valid :: "assignment_row \<Rightarrow> bool" where
  "authority_interval_valid r \<longleftrightarrow>
     (ar_authority_from r = None \<longleftrightarrow> ar_from_ns r = None) \<and>
     (ar_authority_until r = None \<longleftrightarrow> ar_until_ns r = None) \<and>
     (case (ar_from_ns r, ar_until_ns r) of (Some f, Some u) \<Rightarrow> f < u | _ \<Rightarrow> True)"

definition lifecycle_authority_valid :: "assignment_row \<Rightarrow> bool" where
  "lifecycle_authority_valid r \<longleftrightarrow>
     (ar_lifecycle r \<in> {AssignmentReceived, AssignmentArmed, AssignmentCancelled} \<and>
        ar_from_ns r = None \<and> ar_until_ns r = None) \<or>
     (is_current (ar_lifecycle r) \<and> ar_from_ns r \<noteq> None \<and> ar_until_ns r \<noteq> None) \<or>
     (ar_lifecycle r = AssignmentSuperseded \<and> (ar_from_ns r = None \<longleftrightarrow> ar_until_ns r = None)) \<or>
     ar_lifecycle r = AssignmentCompleted"

definition assignment_row_ok :: "assignment_row \<Rightarrow> bool" where
  "assignment_row_ok r \<longleftrightarrow>
     0 < ar_gen r \<and> 0 < ar_intent_version r \<and> authority_interval_valid r \<and>
     lifecycle_authority_valid r"

text \<open>Primary key, the two partial unique indexes, and the row checks.\<close>

definition assignments_ok :: "assignment_row list \<Rightarrow> bool" where
  "assignments_ok rows \<longleftrightarrow>
     distinct (map row_key rows) \<and>
     distinct (map ar_id (filter current_row rows)) \<and>
     distinct (map ar_id (filter candidate_row rows)) \<and>
     list_all assignment_row_ok rows"

definition inbox_ok :: "inbox_row list \<Rightarrow> bool" where
  "inbox_ok rows \<longleftrightarrow>
     distinct (map (\<lambda>r. (in_source r, in_message r)) rows) \<and> list_all (\<lambda>r. 0 < in_gen r) rows"

definition checkpoints_ok :: "checkpoint_row list \<Rightarrow> bool" where
  "checkpoints_ok rows \<longleftrightarrow> distinct (map (\<lambda>r. (cp_aid r, cp_gen r, cp_rev r)) rows)"

definition incidents_ok :: "incident_row list \<Rightarrow> bool" where
  "incidents_ok rows \<longleftrightarrow>
     distinct (map inc_id rows) \<and>
     distinct (map (\<lambda>r. (inc_aid r, inc_gen r, inc_key r))
                 (filter (\<lambda>r. inc_status r = IncidentRowOpen) rows)) \<and>
     distinct (map (\<lambda>r. (inc_aid r, inc_gen r, inc_key r, inc_opening_frame r)) rows)"

definition events_ok :: "event_row list \<Rightarrow> bool" where
  "events_ok rows \<longleftrightarrow> distinct (map evt_id rows)"

definition outbox_ok :: "outbox_row list \<Rightarrow> bool" where
  "outbox_ok rows \<longleftrightarrow> distinct (map ob_id rows) \<and> distinct (map ob_key rows)"

definition transitions_ok :: "transition_row list \<Rightarrow> bool" where
  "transitions_ok rows \<longleftrightarrow> distinct (map tw_id rows)"

section \<open>Statements\<close>

text \<open>Foreign keys refer to an existing assignment generation.\<close>

definition has_assignment :: "db \<Rightarrow> string \<Rightarrow> nat \<Rightarrow> bool" where
  "has_assignment d aid gen \<longleftrightarrow> (aid, gen) \<in> set (map row_key (assignments d))"

definition put_assignments :: "assignment_row list \<Rightarrow> db \<Rightarrow> store_error + db" where
  "put_assignments rows d =
     (if assignments_ok rows then Inr (d\<lparr>assignments := rows\<rparr>) else Inl ConstraintViolation)"

definition insert_inbox :: "inbox_row \<Rightarrow> db \<Rightarrow> store_error + db" where
  "insert_inbox r d =
     (if inbox_ok (inbox d @ [r]) then Inr (d\<lparr>inbox := inbox d @ [r]\<rparr>)
      else Inl ConstraintViolation)"

definition insert_transition :: "transition_row \<Rightarrow> db \<Rightarrow> store_error + db" where
  "insert_transition r d =
     (if transitions_ok (transitions d @ [r]) \<and> has_assignment d (tw_aid r) (tw_gen r)
      then Inr (d\<lparr>transitions := transitions d @ [r]\<rparr>) else Inl ConstraintViolation)"

definition insert_outbox :: "outbox_row \<Rightarrow> db \<Rightarrow> store_error + db" where
  "insert_outbox r d =
     (if outbox_ok (outbox d @ [r]) then Inr (d\<lparr>outbox := outbox d @ [r]\<rparr>)
      else Inl ConstraintViolation)"

text \<open>\<^verbatim>\<open>UPDATE ... WHERE\<close>: the rows that match are rewritten, in place.\<close>

definition update_where :: "('r \<Rightarrow> bool) \<Rightarrow> ('r \<Rightarrow> 'r) \<Rightarrow> 'r list \<Rightarrow> 'r list" where
  "update_where P f rows = map (\<lambda>r. if P r then f r else r) rows"

definition rows_affected :: "('r \<Rightarrow> bool) \<Rightarrow> 'r list \<Rightarrow> nat" where
  "rows_affected P rows = length (filter P rows)"

text \<open>\<^verbatim>\<open>ORDER BY assignment_generation DESC LIMIT 1\<close> over one logical assignment.\<close>

fun newest :: "assignment_row list \<Rightarrow> assignment_row option" where
  "newest [] = None"
| "newest (r # rs) =
     (case newest rs of None \<Rightarrow> Some r | Some s \<Rightarrow> if ar_gen r < ar_gen s then Some s else Some r)"

definition generations :: "string \<Rightarrow> db \<Rightarrow> assignment_row list" where
  "generations aid d = filter (\<lambda>r. ar_id r = aid) (assignments d)"

definition lookup_row :: "string \<Rightarrow> nat \<Rightarrow> db \<Rightarrow> assignment_row option" where
  "lookup_row aid gen d = List.find (\<lambda>r. ar_id r = aid \<and> ar_gen r = gen) (assignments d)"

definition lookup_inbox :: "string \<Rightarrow> string \<Rightarrow> db \<Rightarrow> inbox_row option" where
  "lookup_inbox source msg d = List.find (\<lambda>r. in_source r = source \<and> in_message r = msg) (inbox d)"

text \<open>\<^verbatim>\<open>ORDER BY\<close> with an order given by its strict comparison.\<close>

fun insert_by :: "('r \<Rightarrow> 'r \<Rightarrow> bool) \<Rightarrow> 'r \<Rightarrow> 'r list \<Rightarrow> 'r list" where
  "insert_by lt x [] = [x]"
| "insert_by lt x (y # ys) = (if lt y x then y # insert_by lt x ys else x # y # ys)"

fun sort_by :: "('r \<Rightarrow> 'r \<Rightarrow> bool) \<Rightarrow> 'r list \<Rightarrow> 'r list" where
  "sort_by lt [] = []"
| "sort_by lt (x # xs) = insert_by lt x (sort_by lt xs)"

lemma set_insert_by [simp]: "set (insert_by lt x xs) = insert x (set xs)"
  by (induction xs) auto

lemma set_sort_by [simp]: "set (sort_by lt xs) = set xs"
  by (induction xs) auto

lemma length_insert_by [simp]: "length (insert_by lt x xs) = Suc (length xs)"
  by (induction xs) auto

lemma length_sort_by [simp]: "length (sort_by lt xs) = length xs"
  by (induction xs) auto

lemma distinct_insert_by [simp]: "distinct (insert_by lt x xs) \<longleftrightarrow> distinct (x # xs)"
  by (induction xs) auto

lemma distinct_sort_by [simp]: "distinct (sort_by lt xs) \<longleftrightarrow> distinct xs"
  by (induction xs) auto

section \<open>Identifiers\<close>

text \<open>\<^verbatim>\<open>fmt.Sprint\<close> of an unsigned integer: its decimal digits.\<close>

fun show_nat :: "nat \<Rightarrow> string" where
  "show_nat n = (if n < 10 then [char_of (48 + n)] else show_nat (n div 10) @ [char_of (48 + n mod 10)])"

declare show_nat.simps [simp del]

fun lifecycle_name :: "assignment_lifecycle \<Rightarrow> string" where
  "lifecycle_name AssignmentReceived = ''candidate_received''"
| "lifecycle_name AssignmentArmed = ''candidate_armed''"
| "lifecycle_name AssignmentActive = ''active''"
| "lifecycle_name AssignmentEnding = ''ending''"
| "lifecycle_name AssignmentCompleted = ''completed''"
| "lifecycle_name AssignmentCancelled = ''cancelled''"
| "lifecycle_name AssignmentSuperseded = ''superseded''"

fun violation_name :: "violation_type \<Rightarrow> string" where
  "violation_name ViolationLateral = ''lateral_deviation''"
| "violation_name ViolationVertical = ''altitude_deviation''"
| "violation_name ViolationTemporal = ''temporal_deviation''"
| "violation_name ViolationTelemetryLoss = ''telemetry_loss''"

fun transition_name :: "transition \<Rightarrow> string" where
  "transition_name TransitionOpened = ''opened''"
| "transition_name TransitionUpdated = ''updated''"
| "transition_name TransitionResolved = ''resolved''"

text \<open>The bytes \<^verbatim>\<open>stableID\<close> feeds to the digest: each part behind its length.\<close>

definition frame_part :: "string \<Rightarrow> string" where
  "frame_part s = show_nat (length s) @ CHR '':'' # s"

definition stable_bytes :: "string list \<Rightarrow> string" where
  "stable_bytes parts = concat (map frame_part parts)"

definition stableID :: "store_env \<Rightarrow> string list \<Rightarrow> string" where
  "stableID E parts = sha_hex E (stable_bytes parts)"

definition supportedUnixNanoseconds :: "gotime \<Rightarrow> bool" where
  "supportedUnixNanoseconds t \<longleftrightarrow> year_at_least t 1678 \<and> \<not> year_at_least t 2262"

text \<open>What \<^verbatim>\<open>encoding/json\<close> accepts: finite floats and years 0 to 9999.\<close>

definition json_time :: "gotime \<Rightarrow> bool" where
  "json_time t \<longleftrightarrow> year_at_least t 0 \<and> \<not> year_at_least t 10000"

definition json_volume :: "volume \<Rightarrow> bool" where
  "json_volume v \<longleftrightarrow>
     finite64 (vol_AltitudeLowerM v) \<and> finite64 (vol_AltitudeUpperM v) \<and>
     json_time (vol_StartsAt v) \<and> json_time (vol_EndsAt v) \<and>
     list_all (\<lambda>p. finite64 (pt_Latitude p) \<and> finite64 (pt_Longitude p)) (vol_Polygon v)"

definition json_assignment :: "assignment \<Rightarrow> bool" where
  "json_assignment a \<longleftrightarrow>
     json_time (asg_EffectiveFrom a) \<and> json_time (asg_EffectiveUntil a) \<and>
     list_all json_volume (asg_Volumes a)"

definition json_incident :: "incident_state \<Rightarrow> bool" where
  "json_incident s \<longleftrightarrow>
     json_time (is_FirstSuspectedAt s) \<and> json_time (is_OpenedAt s) \<and>
     json_time (is_LastObservedAt s) \<and> finite64 (is_WorstDeviationM s)"

definition json_evaluation :: "evaluation \<Rightarrow> bool" where
  "json_evaluation e \<longleftrightarrow>
     json_time (ev_CausalFrom e) \<and> json_time (ev_ObservedAt e) \<and>
     list_all (\<lambda>t. json_time (tr_ObservedAt t) \<and> finite64 (tr_DeviationM t)) (ev_Transitions e) \<and>
     list_all (\<lambda>v. case Violations (ev_State e) v of None \<Rightarrow> True | Some s \<Rightarrow> json_incident s)
       violation_types"

end
