(* ===== verification/Store_Assignments.thy ===== *)
theory Store_Assignments
  imports Store_Schema
begin

text \<open>
  The assignment lifecycle of \<^verbatim>\<open>internal/store/postgres/store.go\<close>: preparation, arming,
  cancellation, cutover and the lookups. Every operation takes the environment, the database
  clock and the database, and returns an error (the transaction is rolled back, nothing is
  written) or its result with the committed database. The advisory lock on the assignment
  identifier serialises the transactions of one logical assignment, so each is one step.
\<close>

section \<open>Shared reads and writes\<close>

record apply_result =
  apl_Disposition :: apply_disposition
  apl_Assignment :: assignment

record lifecycle_result =
  lcr_Disposition :: apply_disposition
  lcr_Record :: assignment_record

text \<open>The nanosecond columns are read back with \<^verbatim>\<open>time.Unix(0, ns)\<close>.\<close>

definition scanAssignmentRecord :: "assignment_row \<Rightarrow> assignment_record" where
  "scanAssignmentRecord r =
     \<lparr>rec_Assignment = ar_spec r, rec_Lifecycle = ar_lifecycle r,
      rec_AuthorityFrom = ar_from_ns r, rec_AuthorityUntil = ar_until_ns r,
      rec_PreparedAt = ar_prepared_at r, rec_ArmedAt = ar_armed_at r,
      rec_CutoverAt = ar_cutover_at r\<rparr>"

definition readAssignmentRecord :: "string \<Rightarrow> nat \<Rightarrow> db \<Rightarrow> store_error + assignment_record" where
  "readAssignmentRecord aid gen d =
     (case lookup_row aid gen d of None \<Rightarrow> Inl ErrInvalidTransition
      | Some r \<Rightarrow> Inr (scanAssignmentRecord r))"

definition readInboxHash :: "string \<Rightarrow> string \<Rightarrow> db \<Rightarrow> string option" where
  "readInboxHash source messageID d = map_option in_hash (lookup_inbox source messageID d)"

definition encodeCommand ::
  "store_env \<Rightarrow> string \<Rightarrow> lifecycle_command \<Rightarrow> store_error + (payload \<times> string)" where
  "encodeCommand E messageType command =
     (case cmd_EffectiveAt command of
        Some t \<Rightarrow> if json_time t
          then Inr (PayloadCommand messageType command, command_hash E messageType command)
          else Inl EncodeFailed
      | None \<Rightarrow> Inr (PayloadCommand messageType command, command_hash E messageType command))"

text \<open>A row of the API outbox: identifier and idempotency key coincide, revision 0.\<close>

definition api_outbox :: "gotime \<Rightarrow> string \<Rightarrow> string \<Rightarrow> nat \<Rightarrow> payload \<Rightarrow> outbox_row" where
  "api_outbox now oid aid gen pl =
     \<lparr>ob_id = oid, ob_destination = ''api'', ob_key = oid, ob_aid = aid, ob_gen = gen,
      ob_rev = 0, ob_payload = pl, ob_attempts = 0, ob_next_attempt_at = now,
      ob_lease_owner = None, ob_lease_generation = 0, ob_lease_until = None,
      ob_delivered_at = None, ob_last_error = None\<rparr>"

definition inbox_entry ::
  "gotime \<Rightarrow> string \<Rightarrow> string \<Rightarrow> string \<Rightarrow> string \<Rightarrow> string \<Rightarrow> nat \<Rightarrow>
   apply_disposition \<times> assignment_lifecycle option \<Rightarrow> inbox_row" where
  "inbox_entry now source messageID hash messageType aid gen outcome =
     \<lparr>in_source = source, in_message = messageID, in_hash = hash, in_type = messageType,
      in_aid = aid, in_gen = gen, in_processed_at = now, in_outcome = Some outcome\<rparr>"

definition transition_id ::
  "store_env \<Rightarrow> string \<Rightarrow> string \<Rightarrow> nat \<Rightarrow> assignment_lifecycle \<Rightarrow> string" where
  "transition_id E source messageID gen target =
     stableID E [''assignment-transition'', source, messageID, show_nat gen, lifecycle_name target]"

definition transition_entry ::
  "store_env \<Rightarrow> string \<Rightarrow> string \<Rightarrow> string \<Rightarrow> nat \<Rightarrow> assignment_lifecycle option \<Rightarrow>
   assignment_lifecycle \<Rightarrow> gotime option \<Rightarrow> payload \<Rightarrow> transition_row" where
  "transition_entry E source messageID aid gen from target effectiveAt pl =
     \<lparr>tw_id = transition_id E source messageID gen target, tw_source = source,
      tw_message = messageID, tw_aid = aid, tw_gen = gen, tw_from = from, tw_to = target,
      tw_effective_at = map_option (timestamptz E) effectiveAt, tw_payload = pl\<rparr>"

definition recordLifecycleCommand ::
  "store_env \<Rightarrow> gotime \<Rightarrow> string \<Rightarrow> string \<Rightarrow> string \<Rightarrow> string \<Rightarrow> nat \<Rightarrow> assignment_lifecycle \<Rightarrow>
   assignment_lifecycle \<Rightarrow> gotime option \<Rightarrow> payload \<Rightarrow> string \<Rightarrow> db \<Rightarrow> store_error + db" where
  "recordLifecycleCommand E now source messageID messageType aid gen from target effectiveAt pl hash d =
     ebind (insert_inbox
        (inbox_entry now source messageID hash messageType aid gen (ApplyApplied, Some target)) d) (\<lambda>d1.
     ebind (insert_transition
        (transition_entry E source messageID aid gen (Some from) target effectiveAt pl) d1) (\<lambda>d2.
     insert_outbox
        (api_outbox now (stableID E [''assignment-lifecycle'', source, messageID]) aid gen pl) d2))"

section \<open>Preparation\<close>

definition envelope_valid :: "string \<Rightarrow> string \<Rightarrow> string \<Rightarrow> assignment \<Rightarrow> bool" where
  "envelope_valid source messageID messageType a \<longleftrightarrow>
     \<not> (blank source \<or> blank messageID \<or> blank messageType \<or> blank (asg_ID a) \<or>
        asg_Generation a = 0 \<or> MaxInt64 < asg_Generation a \<or> blank (asg_AircraftID a) \<or>
        blank (asg_AgentID a) \<or> blank (asg_FlightID a) \<or> blank (asg_IntentID a) \<or>
        asg_IntentVersion a = 0 \<or> MaxInt32 < asg_IntentVersion a \<or> blank (asg_PolicyVersion a) \<or>
        \<not> asg_EffectiveFrom a < asg_EffectiveUntil a \<or>
        \<not> supportedUnixNanoseconds (asg_EffectiveFrom a) \<or>
        \<not> supportedUnixNanoseconds (asg_EffectiveUntil a))"

definition new_candidate :: "gotime \<Rightarrow> assignment \<Rightarrow> assignment_row" where
  "new_candidate now a =
     \<lparr>ar_id = asg_ID a, ar_gen = asg_Generation a, ar_aircraft = asg_AircraftID a,
      ar_agent = asg_AgentID a, ar_flight = asg_FlightID a, ar_intent = asg_IntentID a,
      ar_intent_version = asg_IntentVersion a, ar_policy = asg_PolicyVersion a,
      ar_lifecycle = AssignmentReceived, ar_spec = a, ar_authority_from = None,
      ar_authority_until = None, ar_from_ns = None, ar_until_ns = None,
      ar_next_evaluation_at = now, ar_lease_owner = None, ar_lease_generation = 0,
      ar_lease_until = None, ar_evaluation_revision = 0, ar_prepared_at = now,
      ar_armed_at = None, ar_cutover_at = None, ar_updated_at = now\<rparr>"

definition release :: "assignment_lifecycle \<Rightarrow> gotime \<Rightarrow> assignment_row \<Rightarrow> assignment_row" where
  "release l now r =
     r\<lparr>ar_lifecycle := l, ar_lease_owner := None, ar_lease_until := None, ar_updated_at := now\<rparr>"

definition candidate_of :: "string \<Rightarrow> assignment_row \<Rightarrow> bool" where
  "candidate_of aid r \<longleftrightarrow> ar_id r = aid \<and> is_candidate (ar_lifecycle r)"

definition current_of :: "string \<Rightarrow> assignment_row \<Rightarrow> bool" where
  "current_of aid r \<longleftrightarrow> ar_id r = aid \<and> is_current (ar_lifecycle r)"

text \<open>The statements that store a generation newer than every stored one.\<close>

definition store_candidate ::
  "store_env \<Rightarrow> gotime \<Rightarrow> string \<Rightarrow> string \<Rightarrow> string \<Rightarrow> string \<Rightarrow> assignment \<Rightarrow> db \<Rightarrow> store_error + db" where
  "store_candidate E now source messageID messageType hash a d =
     (let aid = asg_ID a; gen = asg_Generation a;
          replaced = List.find (candidate_of aid) (assignments d);
          eventPayload = PayloadReceived a in
      ebind (case newest (generations aid d) of None \<Rightarrow> Inr d
         | Some _ \<Rightarrow> put_assignments
             (update_where (candidate_of aid) (release AssignmentSuperseded now) (assignments d)) d) (\<lambda>d1.
      ebind (put_assignments (assignments d1 @ [new_candidate now a]) d1) (\<lambda>d2.
      ebind (insert_inbox
         (inbox_entry now source messageID hash messageType aid gen (ApplyApplied, None)) d2) (\<lambda>d3.
      ebind (insert_transition
         (transition_entry E source messageID aid gen None AssignmentReceived None eventPayload) d3) (\<lambda>d4.
      ebind (case replaced of None \<Rightarrow> Inr d4
         | Some r \<Rightarrow> insert_transition
             (transition_entry E source messageID aid (ar_gen r) (Some (ar_lifecycle r))
                AssignmentSuperseded None eventPayload) d4) (\<lambda>d5.
      insert_outbox
        (api_outbox now (stableID E [''assignment-received'', source, messageID]) aid gen eventPayload)
        d5))))))"

definition PrepareAssignment ::
  "store_env \<Rightarrow> gotime \<Rightarrow> string \<Rightarrow> string \<Rightarrow> string \<Rightarrow> assignment \<Rightarrow> db \<Rightarrow>
   store_error + (apply_result \<times> db)" where
  "PrepareAssignment E now source messageID messageType a d =
     ebind (ensure (envelope_valid source messageID messageType a) EnvelopeInvalid) (\<lambda>_.
     ebind (ensure (json_assignment a) EncodeFailed) (\<lambda>_.
     let hash = assignment_hash E messageType a;
         aid = asg_ID a; gen = asg_Generation a;
         result = (\<lambda>disp. \<lparr>apl_Disposition = disp, apl_Assignment = a\<rparr>);
         record_inbox = (\<lambda>disp.
           ebind (insert_inbox (inbox_entry now source messageID hash messageType aid gen (disp, None)) d)
             (\<lambda>d'. Inr (result disp, d'))) in
     case lookup_inbox source messageID d of
       Some row \<Rightarrow>
         if in_hash row \<noteq> hash then Inl ErrMessageConflict
         else (case in_outcome row of
             None \<Rightarrow> Inl StoredOutcomeInvalid
           | Some (ApplyStale, _) \<Rightarrow> Inr (result ApplyStale, d)
           | Some _ \<Rightarrow> Inr (result ApplyIdempotent, d))
     | None \<Rightarrow>
        (case newest (generations aid d) of
           None \<Rightarrow> ebind (store_candidate E now source messageID messageType hash a d)
                    (\<lambda>d'. Inr (result ApplyApplied, d'))
         | Some current \<Rightarrow>
             if gen < ar_gen current then record_inbox ApplyStale
             else if gen = ar_gen current
             then if ar_spec current \<noteq> a then Inl ErrMessageConflict else record_inbox ApplyIdempotent
             else if asg_AircraftID a \<noteq> ar_aircraft current \<or> asg_FlightID a \<noteq> ar_flight current \<or>
                     asg_IntentID a \<noteq> ar_intent current
             then Inl ErrMessageConflict
             else ebind (store_candidate E now source messageID messageType hash a d)
                    (\<lambda>d'. Inr (result ApplyApplied, d')))))"

definition ApplyAssignment ::
  "store_env \<Rightarrow> gotime \<Rightarrow> string \<Rightarrow> string \<Rightarrow> string \<Rightarrow> assignment \<Rightarrow> db \<Rightarrow>
   store_error + (apply_result \<times> db)" where
  "ApplyAssignment E now source messageID messageType a d =
     PrepareAssignment E now source messageID messageType a d"

section \<open>Arming and cancellation\<close>

definition lifecycle_command_valid :: "string \<Rightarrow> string \<Rightarrow> string \<Rightarrow> nat \<Rightarrow> bool" where
  "lifecycle_command_valid source messageID aid gen \<longleftrightarrow>
     \<not> (blank source \<or> blank messageID \<or> blank aid \<or> gen = 0 \<or> MaxInt64 < gen)"

definition candidate_step :: "assignment_lifecycle \<Rightarrow> assignment_lifecycle \<Rightarrow> bool" where
  "candidate_step from target \<longleftrightarrow>
     (target = AssignmentArmed \<and> from = AssignmentReceived) \<or>
     (target = AssignmentCancelled \<and> (from = AssignmentReceived \<or> from = AssignmentArmed))"

definition candidate_update ::
  "gotime \<Rightarrow> string \<Rightarrow> nat \<Rightarrow> assignment_lifecycle \<Rightarrow> assignment_row list \<Rightarrow> assignment_row list" where
  "candidate_update now aid gen target rows =
     (if target = AssignmentArmed
      then update_where
             (\<lambda>r. ar_id r = aid \<and> ar_gen r = gen \<and> ar_lifecycle r = AssignmentReceived)
             (\<lambda>r. r\<lparr>ar_lifecycle := AssignmentArmed, ar_armed_at := Some now, ar_updated_at := now\<rparr>) rows
      else update_where
             (\<lambda>r. ar_id r = aid \<and> ar_gen r = gen \<and> is_candidate (ar_lifecycle r))
             (release AssignmentCancelled now) rows)"

text \<open>The answer to a redelivered lifecycle command: the stored record, nothing written.\<close>

definition replay_command ::
  "string \<Rightarrow> string \<Rightarrow> string \<Rightarrow> nat \<Rightarrow> db \<Rightarrow> store_error + (lifecycle_result \<times> db)" where
  "replay_command existing hash aid gen d =
     ebind (ensure (existing = hash) ErrMessageConflict) (\<lambda>_.
     ebind (readAssignmentRecord aid gen d) (\<lambda>record.
     Inr (\<lparr>lcr_Disposition = ApplyIdempotent, lcr_Record = record\<rparr>, d)))"

definition transitionCandidate ::
  "store_env \<Rightarrow> gotime \<Rightarrow> string \<Rightarrow> string \<Rightarrow> string \<Rightarrow> string \<Rightarrow> nat \<Rightarrow> assignment_lifecycle \<Rightarrow> db \<Rightarrow>
   store_error + (lifecycle_result \<times> db)" where
  "transitionCandidate E now source messageID messageType aid gen target d =
     ebind (ensure (lifecycle_command_valid source messageID aid gen) CommandInvalid) (\<lambda>_.
     ebind (encodeCommand E messageType
              \<lparr>cmd_AssignmentID = aid, cmd_Generation = gen, cmd_EffectiveAt = None\<rparr>) (\<lambda>(pl, hash).
     case readInboxHash source messageID d of
       Some existing \<Rightarrow> replay_command existing hash aid gen d
     | None \<Rightarrow>
        ebind (readAssignmentRecord aid gen d) (\<lambda>record.
        case newest (generations aid d) of None \<Rightarrow> Inl ScanFailed | Some latest \<Rightarrow>
        ebind (ensure (gen = ar_gen latest) ErrStaleAssignment) (\<lambda>_.
        ebind (ensure (candidate_step (rec_Lifecycle record) target) ErrInvalidTransition) (\<lambda>_.
        ebind (put_assignments (candidate_update now aid gen target (assignments d)) d) (\<lambda>d1.
        ebind (recordLifecycleCommand E now source messageID messageType aid gen
                 (rec_Lifecycle record) target None pl hash d1) (\<lambda>d2.
        ebind (readAssignmentRecord aid gen d2) (\<lambda>record'.
        Inr (\<lparr>lcr_Disposition = ApplyApplied, lcr_Record = record'\<rparr>, d2)))))))))"

definition ArmAssignment ::
  "store_env \<Rightarrow> gotime \<Rightarrow> string \<Rightarrow> string \<Rightarrow> string \<Rightarrow> nat \<Rightarrow> db \<Rightarrow>
   store_error + (lifecycle_result \<times> db)" where
  "ArmAssignment E now source messageID aid gen d =
     transitionCandidate E now source messageID ''assignment_armed'' aid gen AssignmentArmed d"

definition CancelCandidate ::
  "store_env \<Rightarrow> gotime \<Rightarrow> string \<Rightarrow> string \<Rightarrow> string \<Rightarrow> nat \<Rightarrow> db \<Rightarrow>
   store_error + (lifecycle_result \<times> db)" where
  "CancelCandidate E now source messageID aid gen d =
     transitionCandidate E now source messageID ''assignment_cancelled'' aid gen AssignmentCancelled d"

section \<open>Cutover\<close>

definition lookup_summary :: "string \<Rightarrow> nat \<Rightarrow> db \<Rightarrow> summary_row option" where
  "lookup_summary aid gen d = List.find (\<lambda>s. sum_aid s = aid \<and> sum_gen s = gen) (summaries d)"

definition close_authority ::
  "store_env \<Rightarrow> gotime \<Rightarrow> gotime \<Rightarrow> string \<Rightarrow> nat \<Rightarrow> assignment_row list \<Rightarrow> assignment_row list" where
  "close_authority E now effectiveAt aid gen rows =
     update_where (\<lambda>r. ar_id r = aid \<and> ar_gen r = gen \<and> is_current (ar_lifecycle r))
       (\<lambda>r. r\<lparr>ar_lifecycle := AssignmentSuperseded,
              ar_authority_until := Some (timestamptz E effectiveAt),
              ar_until_ns := Some (UnixNano effectiveAt),
              ar_lease_owner := None, ar_lease_until := None, ar_updated_at := now\<rparr>) rows"

definition open_authority ::
  "store_env \<Rightarrow> gotime \<Rightarrow> gotime \<Rightarrow> gotime \<Rightarrow> string \<Rightarrow> nat \<Rightarrow> assignment_row list \<Rightarrow> assignment_row list" where
  "open_authority E now effectiveAt effectiveUntil aid gen rows =
     update_where (\<lambda>r. ar_id r = aid \<and> ar_gen r = gen \<and> ar_lifecycle r = AssignmentArmed)
       (\<lambda>r. r\<lparr>ar_lifecycle := AssignmentActive,
              ar_authority_from := Some (timestamptz E effectiveAt),
              ar_from_ns := Some (UnixNano effectiveAt),
              ar_authority_until := Some (timestamptz E effectiveUntil),
              ar_until_ns := Some (UnixNano effectiveUntil),
              ar_cutover_at := Some (timestamptz E effectiveAt),
              ar_next_evaluation_at := now,
              ar_lease_owner := None, ar_lease_until := None, ar_updated_at := now\<rparr>) rows"

text \<open>
  The guards on the current generation, in the order of the code: the watermark is read, a
  newer or equal generation or a boundary outside its interval is stale, a watermark at or
  past the boundary is refused; then its interval is closed.
\<close>

definition supersede_current ::
  "store_env \<Rightarrow> gotime \<Rightarrow> gotime \<Rightarrow> string \<Rightarrow> nat \<Rightarrow> assignment_row \<Rightarrow> db \<Rightarrow> store_error + db" where
  "supersede_current E now effectiveAt aid gen current d =
     (case (ar_from_ns current, ar_until_ns current) of
        (Some authorityFrom, Some authorityUntil) \<Rightarrow>
          (let watermark = map_option sum_observed_ns (lookup_summary aid (ar_gen current) d);
               effective = UnixNano effectiveAt in
           ebind (ensure (\<not> (gen \<le> ar_gen current \<or> effective \<le> authorityFrom \<or> authorityUntil < effective))
                    ErrStaleAssignment) (\<lambda>_.
           ebind (ensure (case watermark of None \<Rightarrow> True | Some w \<Rightarrow> \<not> effective \<le> w)
                    ErrInvalidTransition) (\<lambda>_.
           put_assignments (close_authority E now effectiveAt aid (ar_gen current) (assignments d)) d)))
      | _ \<Rightarrow> Inl ScanFailed)"

definition cutover_candidate ::
  "store_env \<Rightarrow> gotime \<Rightarrow> string \<Rightarrow> string \<Rightarrow> string \<Rightarrow> nat \<Rightarrow> gotime \<Rightarrow> payload \<Rightarrow> string \<Rightarrow> db \<Rightarrow>
   store_error + (lifecycle_result \<times> db)" where
  "cutover_candidate E now source messageID aid gen effectiveAt pl hash d =
     ebind (ensure (\<not> now < effectiveAt) ErrInvalidTransition) (\<lambda>_.
     ebind (readAssignmentRecord aid gen d) (\<lambda>candidate.
     ebind (ensure (rec_Lifecycle candidate = AssignmentArmed) ErrInvalidTransition) (\<lambda>_.
     ebind (ensure (\<not> (effectiveAt < asg_EffectiveFrom (rec_Assignment candidate) \<or>
                       \<not> effectiveAt < asg_EffectiveUntil (rec_Assignment candidate)))
              ErrInvalidTransition) (\<lambda>_.
     let current = List.find (current_of aid) (assignments d) in
     ebind (case current of None \<Rightarrow> Inr d
            | Some c \<Rightarrow> supersede_current E now effectiveAt aid gen c d) (\<lambda>d1.
     ebind (put_assignments (open_authority E now effectiveAt
              (asg_EffectiveUntil (rec_Assignment candidate)) aid gen (assignments d1)) d1) (\<lambda>d2.
     ebind (recordLifecycleCommand E now source messageID ''assignment_cutover'' aid gen
              AssignmentArmed AssignmentActive (Some effectiveAt) pl hash d2) (\<lambda>d3.
     ebind (case current of None \<Rightarrow> Inr d3
            | Some c \<Rightarrow>
                if ar_gen c = 0 then Inr d3
                else insert_transition
                  (transition_entry E source messageID aid (ar_gen c) (Some (ar_lifecycle c))
                     AssignmentSuperseded (Some effectiveAt) pl) d3) (\<lambda>d4.
     ebind (readAssignmentRecord aid gen d4) (\<lambda>record.
     Inr (\<lparr>lcr_Disposition = ApplyApplied, lcr_Record = record\<rparr>, d4))))))))))"

definition CutoverAssignment ::
  "store_env \<Rightarrow> gotime \<Rightarrow> string \<Rightarrow> string \<Rightarrow> string \<Rightarrow> nat \<Rightarrow> gotime \<Rightarrow> db \<Rightarrow>
   store_error + (lifecycle_result \<times> db)" where
  "CutoverAssignment E now source messageID aid gen effectiveAt d =
     ebind (ensure (lifecycle_command_valid source messageID aid gen \<and> \<not> IsZero effectiveAt)
              CutoverInvalid) (\<lambda>_.
     ebind (ensure (supportedUnixNanoseconds effectiveAt) TimestampUnsupported) (\<lambda>_.
     ebind (encodeCommand E ''assignment_cutover''
              \<lparr>cmd_AssignmentID = aid, cmd_Generation = gen, cmd_EffectiveAt = Some effectiveAt\<rparr>)
       (\<lambda>(pl, hash).
     case readInboxHash source messageID d of
       Some existing \<Rightarrow> replay_command existing hash aid gen d
     | None \<Rightarrow> cutover_candidate E now source messageID aid gen effectiveAt pl hash d)))"

section \<open>Lookups\<close>

text \<open>\<^verbatim>\<open>ORDER BY authority_from_unix_ns DESC LIMIT 1\<close>.\<close>

fun latest_authority :: "assignment_row list \<Rightarrow> assignment_row option" where
  "latest_authority [] = None"
| "latest_authority (r # rs) =
     (case latest_authority rs of None \<Rightarrow> Some r
      | Some s \<Rightarrow> if the (ar_from_ns r) < the (ar_from_ns s) then Some s else Some r)"

definition covers :: "assignment_row \<Rightarrow> int \<Rightarrow> bool" where
  "covers r ns \<longleftrightarrow>
     (case ar_from_ns r of None \<Rightarrow> False
      | Some f \<Rightarrow> f \<le> ns \<and> (case ar_until_ns r of None \<Rightarrow> True | Some u \<Rightarrow> ns < u))"

definition ResolveAssignmentAt :: "string \<Rightarrow> gotime \<Rightarrow> db \<Rightarrow> store_error + assignment_record option" where
  "ResolveAssignmentAt aid observedAt d =
     ebind (ensure (supportedUnixNanoseconds observedAt) TimestampUnsupported) (\<lambda>_.
     Inr (map_option scanAssignmentRecord (latest_authority
       (filter (\<lambda>r. covers r (UnixNano observedAt)) (generations aid d)))))"

definition GetAssignment :: "string \<Rightarrow> nat \<Rightarrow> db \<Rightarrow> store_error + assignment_record" where
  "GetAssignment aid gen d =
     ebind (ensure (\<not> (blank aid \<or> gen = 0 \<or> MaxInt64 < gen)) LookupInvalid) (\<lambda>_.
     case lookup_row aid gen d of None \<Rightarrow> Inl ErrAssignmentNotFound
     | Some r \<Rightarrow> Inr (scanAssignmentRecord r))"

end
