(* ===== verification/Store_Leases.thy ===== *)
theory Store_Leases
  imports Store_Assignments
begin

text \<open>
  Leases over due assignments, from \<^verbatim>\<open>internal/store/postgres/store.go\<close>: claiming,
  deferring, renewing. A lease is identified by its owner and by a generation that every
  claim increments. The predicate \<open>locked\<close> says which rows other transactions hold at the
  moment of the claim: \<^verbatim>\<open>FOR UPDATE SKIP LOCKED\<close> passes over them.
\<close>

record claim =
  cl_Assignment :: assignment
  cl_AuthorityFrom :: gotime
  cl_AuthorityUntil :: gotime
  cl_FinalizationGrace :: duration
  cl_WorkerID :: string
  cl_LeaseGeneration :: nat
  cl_LeaseUntil :: gotime
  cl_EvaluationRevision :: nat

text \<open>A comparison with NULL is not true.\<close>

definition within_grace :: "store_env \<Rightarrow> gotime \<Rightarrow> duration \<Rightarrow> assignment_row \<Rightarrow> bool" where
  "within_grace E now grace r \<longleftrightarrow>
     (case ar_authority_until r of None \<Rightarrow> False | Some u \<Rightarrow> now \<le> u + pg_interval E grace)"

definition lease_free :: "gotime \<Rightarrow> assignment_row \<Rightarrow> bool" where
  "lease_free now r \<longleftrightarrow> (case ar_lease_until r of None \<Rightarrow> True | Some u \<Rightarrow> u < now)"

definition lease_live :: "gotime \<Rightarrow> assignment_row \<Rightarrow> bool" where
  "lease_live now r \<longleftrightarrow> (case ar_lease_until r of None \<Rightarrow> False | Some u \<Rightarrow> now < u)"

definition due :: "store_env \<Rightarrow> gotime \<Rightarrow> duration \<Rightarrow> assignment_row \<Rightarrow> bool" where
  "due E now grace r \<longleftrightarrow>
     current_row r \<and> within_grace E now grace r \<and> ar_next_evaluation_at r \<le> now \<and> lease_free now r"

definition due_keys ::
  "store_env \<Rightarrow> gotime \<Rightarrow> (assignment_row \<Rightarrow> bool) \<Rightarrow> duration \<Rightarrow> nat \<Rightarrow> db \<Rightarrow> (string \<times> nat) list" where
  "due_keys E now locked grace limit d =
     map row_key (take limit (sort_key ar_next_evaluation_at
       (filter (\<lambda>r. due E now grace r \<and> \<not> locked r) (assignments d))))"

definition take_lease :: "store_env \<Rightarrow> gotime \<Rightarrow> string \<Rightarrow> duration \<Rightarrow> assignment_row \<Rightarrow> assignment_row" where
  "take_lease E now workerID lease r =
     r\<lparr>ar_lease_owner := Some workerID, ar_lease_generation := ar_lease_generation r + 1,
       ar_lease_until := Some (now + pg_interval E lease), ar_updated_at := now\<rparr>"

definition scan_claim :: "string \<Rightarrow> duration \<Rightarrow> assignment_row \<Rightarrow> store_error + claim" where
  "scan_claim workerID grace r =
     (case (ar_from_ns r, ar_until_ns r, ar_lease_until r) of
        (Some f, Some u, Some l) \<Rightarrow>
          Inr \<lparr>cl_Assignment = ar_spec r, cl_AuthorityFrom = f, cl_AuthorityUntil = u,
               cl_FinalizationGrace = grace, cl_WorkerID = workerID,
               cl_LeaseGeneration = ar_lease_generation r, cl_LeaseUntil = l,
               cl_EvaluationRevision = ar_evaluation_revision r\<rparr>
      | _ \<Rightarrow> Inl ScanFailed)"

fun scan_claims :: "string \<Rightarrow> duration \<Rightarrow> assignment_row list \<Rightarrow> store_error + claim list" where
  "scan_claims workerID grace [] = Inr []"
| "scan_claims workerID grace (r # rs) =
     ebind (scan_claim workerID grace r) (\<lambda>c.
     ebind (scan_claims workerID grace rs) (\<lambda>cs. Inr (c # cs)))"

text \<open>
  One statement outside an explicit transaction: the leases are taken before the rows are
  scanned, so a scan error leaves them taken.
\<close>

definition ClaimDueAssignmentsWithFinalizationGrace ::
  "store_env \<Rightarrow> gotime \<Rightarrow> (assignment_row \<Rightarrow> bool) \<Rightarrow> string \<Rightarrow> duration \<Rightarrow> duration \<Rightarrow> int \<Rightarrow> db \<Rightarrow>
   (store_error + claim list) \<times> db" where
  "ClaimDueAssignmentsWithFinalizationGrace E now locked workerID lease grace limit d =
     (if workerID = [] \<or> lease \<le> 0 \<or> grace < 0 \<or> limit < 1 then (Inl ClaimArgumentsInvalid, d)
      else
        let keys = due_keys E now locked grace (nat limit) d;
            chosen = (\<lambda>r. row_key r \<in> set keys) in
        case put_assignments (update_where chosen (take_lease E now workerID lease) (assignments d)) d of
          Inl e \<Rightarrow> (Inl e, d)
        | Inr d' \<Rightarrow> (scan_claims workerID grace (filter chosen (assignments d')), d'))"

definition ClaimDueAssignments ::
  "store_env \<Rightarrow> gotime \<Rightarrow> (assignment_row \<Rightarrow> bool) \<Rightarrow> string \<Rightarrow> duration \<Rightarrow> int \<Rightarrow> db \<Rightarrow>
   (store_error + claim list) \<times> db" where
  "ClaimDueAssignments E now locked workerID lease limit d =
     ClaimDueAssignmentsWithFinalizationGrace E now locked workerID lease 0 limit d"

text \<open>The ownership fence: the row of the claim, leased to its worker under its generation.\<close>

definition lease_fence :: "gotime \<Rightarrow> claim \<Rightarrow> assignment_row \<Rightarrow> bool" where
  "lease_fence now c r \<longleftrightarrow>
     ar_id r = asg_ID (cl_Assignment c) \<and> ar_gen r = asg_Generation (cl_Assignment c) \<and>
     ar_lease_owner r = Some (cl_WorkerID c) \<and> ar_lease_generation r = cl_LeaseGeneration c \<and>
     lease_live now r \<and> current_row r"

text \<open>A fenced update of one row: no match, or no single match, is a lost lease.\<close>

definition fenced_update ::
  "(assignment_row \<Rightarrow> bool) \<Rightarrow> (assignment_row \<Rightarrow> assignment_row) \<Rightarrow> db \<Rightarrow> store_error + db" where
  "fenced_update fence f d =
     (if rows_affected fence (assignments d) \<noteq> 1 then Inl ErrLeaseLost
      else put_assignments (update_where fence f (assignments d)) d)"

definition drop_lease :: "gotime \<Rightarrow> gotime \<Rightarrow> assignment_row \<Rightarrow> assignment_row" where
  "drop_lease now nextEvaluationAt r =
     r\<lparr>ar_next_evaluation_at := nextEvaluationAt, ar_lease_owner := None, ar_lease_until := None,
       ar_updated_at := now\<rparr>"

definition DeferAssignmentEvaluation ::
  "store_env \<Rightarrow> gotime \<Rightarrow> claim \<Rightarrow> gotime \<Rightarrow> db \<Rightarrow> store_error + db" where
  "DeferAssignmentEvaluation E now c nextEvaluationAt d =
     ebind (ensure (\<not> IsZero nextEvaluationAt) NextEvaluationRequired) (\<lambda>_.
     fenced_update
       (\<lambda>r. lease_fence now c r \<and> ar_evaluation_revision r = cl_EvaluationRevision c \<and>
            within_grace E now (cl_FinalizationGrace c) r)
       (drop_lease now (timestamptz E nextEvaluationAt)) d)"

definition RenewAssignmentLease ::
  "store_env \<Rightarrow> gotime \<Rightarrow> claim \<Rightarrow> duration \<Rightarrow> db \<Rightarrow> store_error + db" where
  "RenewAssignmentLease E now c extension d =
     ebind (ensure (0 < extension) ExtensionInvalid) (\<lambda>_.
     fenced_update
       (\<lambda>r. lease_fence now c r \<and> within_grace E now (cl_FinalizationGrace c) r)
       (\<lambda>r. r\<lparr>ar_lease_until := Some (now + pg_interval E extension), ar_updated_at := now\<rparr>) d)"

end
