(* ===== verification/Store_Evaluation.thy ===== *)
theory Store_Evaluation
  imports Store_Leases
begin

text \<open>
  Fenced evaluation commits of \<^verbatim>\<open>internal/store/postgres/store.go\<close>: the checks on a
  commit, the replay checkpoint, the writes of one evaluation (incidents, immutable events,
  checkpoint, summary, Registry outbox), the live and the historical commit.
\<close>

record evaluation_commit =
  ec_Evaluation :: evaluation
  ec_NextEvaluationAt :: gotime

record replay_checkpoint =
  rc_EvaluationRevision :: nat
  rc_StateThroughAt :: gotime
  rc_WALID :: string
  rc_WALSequence :: nat
  rc_FrameID :: string
  rc_State :: evaluator_state

section \<open>Replay checkpoint\<close>

text \<open>The \<^verbatim>\<open>ORDER BY\<close> of the checkpoint query; text columns compare by the database collation.\<close>

definition checkpoint_less :: "store_env \<Rightarrow> checkpoint_row \<Rightarrow> checkpoint_row \<Rightarrow> bool" where
  "checkpoint_less E a b \<longleftrightarrow>
     cp_through_ns a < cp_through_ns b \<or>
     (cp_through_ns a = cp_through_ns b \<and>
       (text_less E (cp_wal a) (cp_wal b) \<or>
        (cp_wal a = cp_wal b \<and>
          (cp_seq a < cp_seq b \<or>
           (cp_seq a = cp_seq b \<and> text_less E (cp_frame a) (cp_frame b))))))"

fun greatest :: "('r \<Rightarrow> 'r \<Rightarrow> bool) \<Rightarrow> 'r list \<Rightarrow> 'r option" where
  "greatest lt [] = None"
| "greatest lt (x # xs) =
     (case greatest lt xs of None \<Rightarrow> Some x | Some y \<Rightarrow> if lt x y then Some y else Some x)"

definition generation_checkpoints :: "string \<Rightarrow> nat \<Rightarrow> db \<Rightarrow> checkpoint_row list" where
  "generation_checkpoints aid gen d =
     filter (\<lambda>c. cp_aid c = aid \<and> cp_gen c = gen) (checkpoints d)"

definition GetReplayCheckpoint ::
  "store_env \<Rightarrow> string \<Rightarrow> nat \<Rightarrow> gotime \<Rightarrow> db \<Rightarrow> replay_checkpoint option" where
  "GetReplayCheckpoint E aid gen atOrBefore d =
     map_option
       (\<lambda>c. \<lparr>rc_EvaluationRevision = cp_rev c, rc_StateThroughAt = cp_through_ns c,
             rc_WALID = cp_wal c, rc_WALSequence = cp_seq c, rc_FrameID = cp_frame c,
             rc_State = cp_state c\<rparr>)
       (greatest (checkpoint_less E)
         (filter (\<lambda>c. cp_through_ns c \<le> UnixNano atOrBefore) (generation_checkpoints aid gen d)))"

section \<open>Checks on a commit\<close>

definition transition_complete :: "gotime \<Rightarrow> incident_transition \<Rightarrow> bool" where
  "transition_complete watermark t \<longleftrightarrow>
     \<not> (IsZero (tr_ObservedAt t) \<or> \<not> supportedUnixNanoseconds (tr_ObservedAt t) \<or>
        watermark < tr_ObservedAt t \<or> tr_FrameID t = [] \<or> tr_OpeningFrameID t = [] \<or>
        tr_WALID t = [] \<or> MaxInt64 < tr_WALSequence t)"

definition validateEvaluationCommit :: "evaluation_commit \<Rightarrow> store_error + unit" where
  "validateEvaluationCommit c =
     (let e = ec_Evaluation c in
      ebind (ensure (\<not> (IsZero (ec_NextEvaluationAt c) \<or> IsZero (ev_CausalFrom e) \<or> IsZero (ev_ObservedAt e) \<or>
               \<not> supportedUnixNanoseconds (ev_CausalFrom e) \<or> \<not> supportedUnixNanoseconds (ev_ObservedAt e) \<or>
               ev_ObservedAt e < ev_CausalFrom e \<or> ev_FrameID e = [] \<or> ev_WALID e = [] \<or>
               MaxInt64 < ev_WALSequence e)) CommitIncomplete) (\<lambda>_.
      ensure (list_all (transition_complete (ev_ObservedAt e)) (ev_Transitions e)) TransitionIncomplete))"

definition timestamp_authorized :: "gotime \<Rightarrow> int \<Rightarrow> int \<Rightarrow> gotime \<Rightarrow> bool" where
  "timestamp_authorized watermark from until t \<longleftrightarrow>
     IsZero t \<or>
     (supportedUnixNanoseconds t \<and> \<not> watermark < t \<and>
      \<not> (UnixNano t < from \<or> until \<le> UnixNano t))"

text \<open>Every failure wraps the same error, so the order of the map iteration does not matter.\<close>

definition validateEvaluationWithinAuthority :: "evaluation \<Rightarrow> int \<Rightarrow> int \<Rightarrow> store_error + unit" where
  "validateEvaluationWithinAuthority e from until =
     ebind (ensure (\<not> until \<le> from) ErrInvalidTransition) (\<lambda>_.
     let ok = timestamp_authorized (ev_ObservedAt e) from until in
     ensure
       (ok (ev_ObservedAt e) \<and> ok (ev_CausalFrom e) \<and>
        list_all (\<lambda>t. ok (tr_ObservedAt t)) (ev_Transitions e) \<and>
        list_all (\<lambda>v. case Violations (ev_State e) v of None \<Rightarrow> True
                   | Some s \<Rightarrow> ok (is_FirstSuspectedAt s) \<and> ok (is_OpenedAt s) \<and> ok (is_LastObservedAt s))
          violation_types)
       ErrInvalidTransition)"

definition strings_Compare :: "string \<Rightarrow> string \<Rightarrow> int" where
  "strings_Compare a b = (if a < b then - 1 else if a = b then 0 else 1)"

definition compareEvaluationCursor :: "evaluation \<Rightarrow> int \<Rightarrow> string \<Rightarrow> nat \<Rightarrow> string \<Rightarrow> int" where
  "compareEvaluationCursor e observedUnixNS walID walSequence frameID =
     (if UnixNano (ev_ObservedAt e) \<noteq> observedUnixNS
      then if UnixNano (ev_ObservedAt e) < observedUnixNS then - 1 else 1
      else if ev_WALID e \<noteq> walID then strings_Compare (ev_WALID e) walID
      else if ev_WALSequence e \<noteq> walSequence
      then if ev_WALSequence e < walSequence then - 1 else 1
      else strings_Compare (ev_FrameID e) frameID)"

section \<open>Writing one evaluation\<close>

definition incident_id :: "store_env \<Rightarrow> assignment \<Rightarrow> incident_transition \<Rightarrow> string" where
  "incident_id E a t =
     stableID E [''incident'', asg_ID a, show_nat (asg_Generation a), violation_name (tr_Violation t),
                 tr_OpeningFrameID t]"

definition event_id :: "store_env \<Rightarrow> assignment \<Rightarrow> incident_transition \<Rightarrow> string" where
  "event_id E a t =
     stableID E [''event'', asg_ID a, show_nat (asg_Generation a), violation_name (tr_Violation t),
                 transition_name (tr_Transition t), tr_FrameID t]"

text \<open>\<^verbatim>\<open>INSERT ... ON CONFLICT (incident_id)\<close>: an equal opening is kept, a different one is an error.\<close>

definition open_incident ::
  "store_env \<Rightarrow> assignment \<Rightarrow> evaluation \<Rightarrow> incident_transition \<Rightarrow> db \<Rightarrow> store_error + (string \<times> db)" where
  "open_incident E a pl t d =
     (let iid = incident_id E a t;
          row = \<lparr>inc_id = iid, inc_aid = asg_ID a, inc_gen = asg_Generation a,
                 inc_key = tr_Violation t, inc_violation = tr_Violation t,
                 inc_status = IncidentRowOpen, inc_opened_at = timestamptz E (tr_ObservedAt t),
                 inc_last_observed_at = timestamptz E (tr_ObservedAt t), inc_resolved_at = None,
                 inc_opening_frame = tr_OpeningFrameID t, inc_resolution_event = None,
                 inc_revision = 1, inc_details = pl\<rparr> in
      case List.find (\<lambda>r. inc_id r = iid) (incidents d) of
        Some r \<Rightarrow>
          if inc_aid r = inc_aid row \<and> inc_gen r = inc_gen row \<and> inc_key r = inc_key row \<and>
             inc_violation r = inc_violation row \<and> inc_opened_at r = inc_opened_at row \<and>
             inc_opening_frame r = inc_opening_frame row
          then Inr (iid, d) else Inl ErrMessageConflict
      | None \<Rightarrow>
          if incidents_ok (incidents d @ [row]) \<and> has_assignment d (asg_ID a) (asg_Generation a)
          then Inr (iid, d\<lparr>incidents := incidents d @ [row]\<rparr>) else Inl ConstraintViolation)"

definition find_opening ::
  "store_env \<Rightarrow> assignment \<Rightarrow> incident_transition \<Rightarrow> db \<Rightarrow> store_error + (string \<times> db)" where
  "find_opening E a t d =
     (case List.find (\<lambda>r. inc_aid r = asg_ID a \<and> inc_gen r = asg_Generation a \<and>
                         inc_key r = tr_Violation t \<and> inc_opening_frame r = tr_OpeningFrameID t \<and>
                         inc_opened_at r \<le> timestamptz E (tr_ObservedAt t)) (incidents d) of
        None \<Rightarrow> Inl OpeningNotFound | Some r \<Rightarrow> Inr (inc_id r, d))"

definition mutate_incident ::
  "store_env \<Rightarrow> assignment \<Rightarrow> evaluation \<Rightarrow> incident_transition \<Rightarrow> db \<Rightarrow> store_error + (string \<times> db)" where
  "mutate_incident E a pl t d =
     (case tr_Transition t of
        TransitionOpened \<Rightarrow> open_incident E a pl t d
      | TransitionResolved \<Rightarrow> find_opening E a t d
      | TransitionUpdated \<Rightarrow> Inr (incident_id E a t, d))"

definition evidence_of :: "string \<Rightarrow> incident_transition \<Rightarrow> transition_evidence" where
  "evidence_of iid t =
     \<lparr>te_SchemaVersion = 2, te_IncidentID = iid, te_Violation = tr_Violation t,
      te_Transition = tr_Transition t, te_ObservedAt = tr_ObservedAt t, te_FrameID = tr_FrameID t,
      te_OpeningFrameID = tr_OpeningFrameID t, te_WALID = tr_WALID t,
      te_WALSequence = tr_WALSequence t, te_DeviationM = tr_DeviationM t\<rparr>"

definition event_entry ::
  "store_env \<Rightarrow> assignment \<Rightarrow> nat \<Rightarrow> string \<Rightarrow> incident_transition \<Rightarrow> event_row" where
  "event_entry E a revision iid t =
     \<lparr>evt_id = event_id E a t, evt_aid = asg_ID a, evt_gen = asg_Generation a, evt_incident = iid,
      evt_transition = tr_Transition t, evt_violation = tr_Violation t,
      evt_observed_at = timestamptz E (tr_ObservedAt t), evt_frame = tr_FrameID t,
      evt_wal = tr_WALID t, evt_seq = tr_WALSequence t, evt_rev = revision,
      evt_payload = evidence_of iid t, evt_hash = evidence_hash E (evidence_of iid t),
      evt_deviation = tr_DeviationM t\<rparr>"

text \<open>Two rows carry the same immutable evidence; the revision and the payload are not compared.\<close>

definition same_evidence :: "event_row \<Rightarrow> event_row \<Rightarrow> bool" where
  "same_evidence r s \<longleftrightarrow>
     evt_aid r = evt_aid s \<and> evt_gen r = evt_gen s \<and> evt_incident r = evt_incident s \<and>
     evt_transition r = evt_transition s \<and> evt_violation r = evt_violation s \<and>
     evt_observed_at r = evt_observed_at s \<and> evt_frame r = evt_frame s \<and> evt_wal r = evt_wal s \<and>
     evt_seq r = evt_seq s \<and> evt_deviation r = evt_deviation s \<and> evt_hash r = evt_hash s"

definition put_event :: "event_row \<Rightarrow> db \<Rightarrow> store_error + db" where
  "put_event row d =
     (case List.find (\<lambda>r. evt_id r = evt_id row) (events d) of
        Some r \<Rightarrow> if same_evidence r row then Inr d else Inl ErrMessageConflict
      | None \<Rightarrow>
          if events_ok (events d @ [row]) \<and> has_assignment d (evt_aid row) (evt_gen row) \<and>
             evt_incident row \<in> set (map inc_id (incidents d))
          then Inr (d\<lparr>events := events d @ [row]\<rparr>) else Inl ConstraintViolation)"

definition materialize_resolution ::
  "store_env \<Rightarrow> assignment \<Rightarrow> evaluation \<Rightarrow> incident_transition \<Rightarrow> string \<Rightarrow> string \<Rightarrow> db \<Rightarrow> store_error + db" where
  "materialize_resolution E a pl t iid eid d =
     (let matches = (\<lambda>r. inc_id r = iid \<and> inc_aid r = asg_ID a \<and> inc_gen r = asg_Generation a \<and>
                         inc_key r = tr_Violation t);
          resolvedAt = timestamptz E (tr_ObservedAt t);
          rows = update_where matches
            (\<lambda>r. r\<lparr>inc_status := IncidentRowResolved, inc_resolved_at := Some resolvedAt,
                   inc_resolution_event := Some eid, inc_last_observed_at := resolvedAt,
                   inc_revision := inc_revision r + (if inc_resolution_event r \<noteq> Some eid then 1 else 0),
                   inc_details := pl\<rparr>) (incidents d) in
      if \<not> incidents_ok rows then Inl ConstraintViolation
      else if rows_affected matches (incidents d) \<noteq> 1 then Inl ResolutionNotFound
      else Inr (d\<lparr>incidents := rows\<rparr>))"

definition write_transition ::
  "store_env \<Rightarrow> assignment \<Rightarrow> nat \<Rightarrow> evaluation \<Rightarrow> incident_transition \<Rightarrow> db \<Rightarrow> store_error + db" where
  "write_transition E a revision pl t d =
     ebind (mutate_incident E a pl t d) (\<lambda>(iid, d1).
     ebind (ensure (json_time (tr_ObservedAt t) \<and> finite64 (tr_DeviationM t)) EncodeFailed) (\<lambda>_.
     ebind (put_event (event_entry E a revision iid t) d1) (\<lambda>d2.
     if tr_Transition t = TransitionResolved
     then materialize_resolution E a pl t iid (event_id E a t) d2 else Inr d2)))"

fun write_transitions ::
  "store_env \<Rightarrow> assignment \<Rightarrow> nat \<Rightarrow> evaluation \<Rightarrow> incident_transition list \<Rightarrow> db \<Rightarrow> store_error + db" where
  "write_transitions E a revision pl [] d = Inr d"
| "write_transitions E a revision pl (t # ts) d =
     ebind (write_transition E a revision pl t d) (\<lambda>d'. write_transitions E a revision pl ts d')"

definition checkpoint_entry :: "store_env \<Rightarrow> assignment \<Rightarrow> nat \<Rightarrow> evaluation \<Rightarrow> checkpoint_row" where
  "checkpoint_entry E a revision e =
     \<lparr>cp_aid = asg_ID a, cp_gen = asg_Generation a, cp_rev = revision,
      cp_through_at = timestamptz E (ev_ObservedAt e), cp_through_ns = UnixNano (ev_ObservedAt e),
      cp_wal = ev_WALID e, cp_seq = ev_WALSequence e, cp_frame = ev_FrameID e,
      cp_state = ev_State e\<rparr>"

definition insert_checkpoint :: "checkpoint_row \<Rightarrow> db \<Rightarrow> store_error + db" where
  "insert_checkpoint row d =
     (if checkpoints_ok (checkpoints d @ [row]) \<and> has_assignment d (cp_aid row) (cp_gen row)
      then Inr (d\<lparr>checkpoints := checkpoints d @ [row]\<rparr>) else Inl ConstraintViolation)"

definition summary_entry :: "store_env \<Rightarrow> assignment \<Rightarrow> nat \<Rightarrow> evaluation \<Rightarrow> summary_row" where
  "summary_entry E a revision e =
     \<lparr>sum_aid = asg_ID a, sum_gen = asg_Generation a, sum_rev = revision,
      sum_condition = ev_Condition e, sum_monitoring = ev_Monitoring e,
      sum_recording = RecordingConfirmed, sum_observed_at = timestamptz E (ev_ObservedAt e),
      sum_observed_ns = UnixNano (ev_ObservedAt e), sum_frame = ev_FrameID e, sum_payload = e\<rparr>"

definition upsert_summary :: "summary_row \<Rightarrow> db \<Rightarrow> store_error + db" where
  "upsert_summary row d =
     (let same = (\<lambda>s. sum_aid s = sum_aid row \<and> sum_gen s = sum_gen row) in
      if rows_affected same (summaries d) \<noteq> 0
      then Inr (d\<lparr>summaries := update_where same (\<lambda>_. row) (summaries d)\<rparr>)
      else if has_assignment d (sum_aid row) (sum_gen row)
      then Inr (d\<lparr>summaries := summaries d @ [row]\<rparr>) else Inl ConstraintViolation)"

definition registry_id :: "string \<Rightarrow> nat \<Rightarrow> nat \<Rightarrow> string" where
  "registry_id aid gen revision =
     ''registry:'' @ aid @ '':'' @ show_nat gen @ '':'' @ show_nat revision"

definition registry_outbox :: "gotime \<Rightarrow> assignment \<Rightarrow> nat \<Rightarrow> evaluation \<Rightarrow> outbox_row" where
  "registry_outbox now a revision pl =
     (let oid = registry_id (asg_ID a) (asg_Generation a) revision in
      \<lparr>ob_id = oid, ob_destination = ''registry'', ob_key = oid, ob_aid = asg_ID a,
       ob_gen = asg_Generation a, ob_rev = revision, ob_payload = PayloadEvaluation pl,
       ob_attempts = 0, ob_next_attempt_at = now, ob_lease_owner = None, ob_lease_generation = 0,
       ob_lease_until = None, ob_delivered_at = None, ob_last_error = None\<rparr>)"

definition enqueue_live :: "outbox_row \<Rightarrow> db \<Rightarrow> db" where
  "enqueue_live row d =
     (if outbox_ok (outbox d @ [row]) then d\<lparr>outbox := outbox d @ [row]\<rparr> else d)"

definition newest_checkpoint :: "string \<Rightarrow> nat \<Rightarrow> db \<Rightarrow> checkpoint_row option" where
  "newest_checkpoint aid gen d =
     greatest (\<lambda>a b. cp_rev a < cp_rev b) (generation_checkpoints aid gen d)"

definition writeEvaluation ::
  "store_env \<Rightarrow> gotime \<Rightarrow> assignment \<Rightarrow> nat \<Rightarrow> evaluation \<Rightarrow> bool \<Rightarrow> bool \<Rightarrow> db \<Rightarrow> store_error + db" where
  "writeEvaluation E now a revision evaluation allowEqualWatermark publishLive d =
     ebind (case newest_checkpoint (asg_ID a) (asg_Generation a) d of
              None \<Rightarrow> Inr ()
            | Some c \<Rightarrow>
                (let comparison = compareEvaluationCursor evaluation (cp_through_ns c) (cp_wal c) (cp_seq c) (cp_frame c) in
                 ensure (\<not> (comparison < 0 \<or> (comparison = 0 \<and> \<not> allowEqualWatermark))) ErrStaleEvaluation)) (\<lambda>_.
     let pl = evaluation\<lparr>ev_Recording := RecordingConfirmed\<rparr> in
     ebind (ensure (json_evaluation pl) EncodeFailed) (\<lambda>_.
     ebind (write_transitions E a revision pl (ev_Transitions pl) d) (\<lambda>d1.
     ebind (insert_checkpoint (checkpoint_entry E a revision pl) d1) (\<lambda>d2.
     ebind (upsert_summary (summary_entry E a revision pl) d2) (\<lambda>d3.
     Inr (if publishLive then enqueue_live (registry_outbox now a revision pl) d3 else d3))))))"

section \<open>Live and historical commits\<close>

definition authority_covers :: "int \<Rightarrow> assignment_row \<Rightarrow> bool" where
  "authority_covers ns r \<longleftrightarrow>
     (case (ar_from_ns r, ar_until_ns r) of (Some f, Some u) \<Rightarrow> f \<le> ns \<and> ns < u | _ \<Rightarrow> False)"

definition CommitEvaluation ::
  "store_env \<Rightarrow> gotime \<Rightarrow> claim \<Rightarrow> evaluation_commit \<Rightarrow> db \<Rightarrow> store_error + db" where
  "CommitEvaluation E now c commit d =
     ebind (validateEvaluationCommit commit) (\<lambda>_.
     let e = ec_Evaluation commit;
         fence = (\<lambda>r. lease_fence now c r \<and> ar_evaluation_revision r = cl_EvaluationRevision c \<and>
                      authority_covers (UnixNano (ev_ObservedAt e)) r) in
     case List.find fence (assignments d) of
       None \<Rightarrow> Inl ErrLeaseLost
     | Some row \<Rightarrow>
        ebind (put_assignments (update_where fence
                 (\<lambda>r. (drop_lease now (timestamptz E (ec_NextEvaluationAt commit)) r)
                       \<lparr>ar_evaluation_revision := ar_evaluation_revision r + 1\<rparr>) (assignments d)) d) (\<lambda>d1.
        ebind (validateEvaluationWithinAuthority e (the (ar_from_ns row)) (the (ar_until_ns row))) (\<lambda>_.
        writeEvaluation E now (cl_Assignment c) (ar_evaluation_revision row + 1) e False True d1)))"

definition authority_open :: "gotime \<Rightarrow> assignment_row \<Rightarrow> bool" where
  "authority_open now r \<longleftrightarrow> (case ar_authority_until r of None \<Rightarrow> False | Some u \<Rightarrow> now < u)"

definition CommitHistoricalEvaluation ::
  "store_env \<Rightarrow> gotime \<Rightarrow> claim \<Rightarrow> nat \<Rightarrow> evaluation_commit \<Rightarrow> db \<Rightarrow> store_error + db" where
  "CommitHistoricalEvaluation E now c historicalGeneration commit d =
     ebind (validateEvaluationCommit commit) (\<lambda>_.
     let e = ec_Evaluation commit;
         target = (\<lambda>r. ar_id r = asg_ID (cl_Assignment c) \<and> ar_gen r = historicalGeneration \<and>
                       ar_lifecycle r = AssignmentSuperseded \<and>
                       authority_covers (UnixNano (ev_ObservedAt e)) r) in
     ebind (ensure (\<not> (historicalGeneration = 0 \<or> MaxInt64 < historicalGeneration \<or>
                       asg_Generation (cl_Assignment c) \<le> historicalGeneration \<or>
                       \<not> supportedUnixNanoseconds (ev_ObservedAt e))) HistoricalTargetInvalid) (\<lambda>_.
     ebind (fenced_update
              (\<lambda>r. lease_fence now c r \<and> ar_evaluation_revision r = cl_EvaluationRevision c \<and>
                   authority_open now r)
              (drop_lease now (timestamptz E (ec_NextEvaluationAt commit))) d) (\<lambda>d1.
     case List.find target (assignments d1) of
       None \<Rightarrow> Inl ErrInvalidTransition
     | Some row \<Rightarrow>
        ebind (put_assignments (update_where target
                 (\<lambda>r. r\<lparr>ar_evaluation_revision := ar_evaluation_revision r + 1, ar_updated_at := now\<rparr>)
                 (assignments d1)) d1) (\<lambda>d2.
        ebind (validateEvaluationWithinAuthority e (the (ar_from_ns row)) (the (ar_until_ns row))) (\<lambda>_.
        writeEvaluation E now (ar_spec row) (ar_evaluation_revision row + 1) e True False d2)))))"

end
