(* ===== verification/Store_Outbox.thy ===== *)
theory Store_Outbox
  imports Store_Evaluation
begin

text \<open>
  The outbox of \<^verbatim>\<open>internal/store/postgres/store.go\<close>: leases over undelivered messages, with
  the Registry messages of one assignment exposed oldest cursor first; delivery and retry
  behind the lease fence.
\<close>

text \<open>
  \<open>oc_Evaluation\<close> is \<open>None\<close> for the zero evaluation that decoding a lifecycle message gives
  (its JSON shares no field name with an evaluation).
\<close>

record outbox_claim =
  oc_ID :: string
  oc_Destination :: string
  oc_IdempotencyKey :: string
  oc_Assignment :: assignment
  oc_EvaluationRevision :: nat
  oc_Evaluation :: "evaluation option"
  oc_WorkerID :: string
  oc_LeaseGeneration :: nat
  oc_LeaseUntil :: gotime
  oc_AttemptCount :: nat

definition cursor_before :: "outbox_row \<Rightarrow> outbox_row \<Rightarrow> bool" where
  "cursor_before r s \<longleftrightarrow> ob_gen r < ob_gen s \<or> (ob_gen r = ob_gen s \<and> ob_rev r < ob_rev s)"

definition outbox_lease_free :: "gotime \<Rightarrow> outbox_row \<Rightarrow> bool" where
  "outbox_lease_free now r \<longleftrightarrow> (case ob_lease_until r of None \<Rightarrow> True | Some u \<Rightarrow> u < now)"

definition head_of_line :: "outbox_row list \<Rightarrow> outbox_row \<Rightarrow> bool" where
  "head_of_line rows r \<longleftrightarrow>
     \<not> list_ex (\<lambda>s. ob_destination s = ob_destination r \<and> ob_aid s = ob_aid r \<and>
                    ob_delivered_at s = None \<and> cursor_before s r) rows"

definition outbox_due :: "gotime \<Rightarrow> string \<Rightarrow> outbox_row list \<Rightarrow> outbox_row \<Rightarrow> bool" where
  "outbox_due now destination rows r \<longleftrightarrow>
     ob_destination r = destination \<and> ob_delivered_at r = None \<and> ob_next_attempt_at r \<le> now \<and>
     outbox_lease_free now r \<and> (ob_destination r \<noteq> ''registry'' \<or> head_of_line rows r)"

definition outbox_order :: "store_env \<Rightarrow> outbox_row \<Rightarrow> outbox_row \<Rightarrow> bool" where
  "outbox_order E r s \<longleftrightarrow>
     ob_next_attempt_at r < ob_next_attempt_at s \<or>
     (ob_next_attempt_at r = ob_next_attempt_at s \<and> text_less E (ob_id r) (ob_id s))"

definition take_outbox_lease :: "store_env \<Rightarrow> gotime \<Rightarrow> string \<Rightarrow> duration \<Rightarrow> outbox_row \<Rightarrow> outbox_row" where
  "take_outbox_lease E now workerID lease r =
     r\<lparr>ob_lease_owner := Some workerID, ob_lease_generation := ob_lease_generation r + 1,
       ob_lease_until := Some (now + pg_interval E lease), ob_attempts := ob_attempts r + 1\<rparr>"

definition decode_evaluation :: "payload \<Rightarrow> evaluation option" where
  "decode_evaluation p = (case p of PayloadEvaluation e \<Rightarrow> Some e | _ \<Rightarrow> None)"

text \<open>The join with the assignment generation: a row without one yields no claim.\<close>

definition outbox_claims :: "string \<Rightarrow> db \<Rightarrow> outbox_row \<Rightarrow> outbox_claim list" where
  "outbox_claims workerID d r =
     (case (lookup_row (ob_aid r) (ob_gen r) d, ob_lease_until r) of
        (Some a, Some l) \<Rightarrow>
          [\<lparr>oc_ID = ob_id r, oc_Destination = ob_destination r, oc_IdempotencyKey = ob_key r,
            oc_Assignment = ar_spec a, oc_EvaluationRevision = ob_rev r,
            oc_Evaluation = decode_evaluation (ob_payload r), oc_WorkerID = workerID,
            oc_LeaseGeneration = ob_lease_generation r, oc_LeaseUntil = l,
            oc_AttemptCount = ob_attempts r\<rparr>]
      | _ \<Rightarrow> [])"

definition ClaimOutbox ::
  "store_env \<Rightarrow> gotime \<Rightarrow> (outbox_row \<Rightarrow> bool) \<Rightarrow> string \<Rightarrow> string \<Rightarrow> duration \<Rightarrow> int \<Rightarrow> db \<Rightarrow>
   store_error + (outbox_claim list \<times> db)" where
  "ClaimOutbox E now locked destination workerID lease limit d =
     ebind (ensure (\<not> (blank destination \<or> blank workerID \<or> lease \<le> 0 \<or> limit < 1))
              ClaimArgumentsInvalid) (\<lambda>_.
     let ids = map ob_id (take (nat limit) (sort_by (outbox_order E)
                 (filter (\<lambda>r. outbox_due now destination (outbox d) r \<and> \<not> locked r) (outbox d))));
         d' = d\<lparr>outbox := update_where (\<lambda>r. ob_id r \<in> set ids)
                           (take_outbox_lease E now workerID lease) (outbox d)\<rparr> in
     Inr (concat (map (outbox_claims workerID d')
            (sort_by (\<lambda>r s. text_less E (ob_id r) (ob_id s))
              (filter (\<lambda>r. ob_id r \<in> set ids) (outbox d')))), d'))"

definition outbox_fence :: "gotime \<Rightarrow> outbox_claim \<Rightarrow> outbox_row \<Rightarrow> bool" where
  "outbox_fence now c r \<longleftrightarrow>
     ob_id r = oc_ID c \<and> ob_destination r = oc_Destination c \<and>
     ob_lease_owner r = Some (oc_WorkerID c) \<and> ob_lease_generation r = oc_LeaseGeneration c \<and>
     (case ob_lease_until r of None \<Rightarrow> False | Some u \<Rightarrow> now < u) \<and> ob_delivered_at r = None"

definition fenced_outbox_update ::
  "gotime \<Rightarrow> outbox_claim \<Rightarrow> (outbox_row \<Rightarrow> outbox_row) \<Rightarrow> db \<Rightarrow> store_error + db" where
  "fenced_outbox_update now c f d =
     (if rows_affected (outbox_fence now c) (outbox d) \<noteq> 1 then Inl ErrOutboxLeaseLost
      else Inr (d\<lparr>outbox := update_where (outbox_fence now c) f (outbox d)\<rparr>))"

definition MarkOutboxDelivered :: "gotime \<Rightarrow> outbox_claim \<Rightarrow> db \<Rightarrow> store_error + db" where
  "MarkOutboxDelivered now c d =
     fenced_outbox_update now c
       (\<lambda>r. r\<lparr>ob_delivered_at := Some now, ob_lease_owner := None, ob_lease_until := None,
              ob_last_error := None\<rparr>) d"

definition RetryOutbox ::
  "store_env \<Rightarrow> gotime \<Rightarrow> outbox_claim \<Rightarrow> duration \<Rightarrow> string option \<Rightarrow> db \<Rightarrow> store_error + db" where
  "RetryOutbox E now c delay deliveryErr d =
     (case deliveryErr of
        None \<Rightarrow> Inl RetryArgumentsInvalid
      | Some message \<Rightarrow>
         ebind (ensure (0 < delay) RetryArgumentsInvalid) (\<lambda>_.
         fenced_outbox_update now c
           (\<lambda>r. r\<lparr>ob_next_attempt_at := now + pg_interval E delay, ob_lease_owner := None,
                  ob_lease_until := None, ob_last_error := Some (take 2048 message)\<rparr>) d))"

end
