(* ===== verification/Store_Frames.thy ===== *)
theory Store_Frames
  imports Store_Outbox
begin

text \<open>
  Inversion of the store's statements and operations: what a successful run guarantees and
  which tables it leaves alone. The collection \<open>stmt\<close> holds the inversion of every single
  statement; the lemmas after it do the same for whole operations, and are all that the
  invariant proofs use.
\<close>

named_theorems stmt "inversion of single SQL statements"

section \<open>Lists of rows\<close>

lemma distinct_map_inj:
  "distinct (map f xs) \<Longrightarrow> x \<in> set xs \<Longrightarrow> y \<in> set xs \<Longrightarrow> f x = f y \<Longrightarrow> x = y"
  by (simp add: distinct_map inj_on_def)

lemma distinct_map_filter_inj:
  "distinct (map f (filter P xs)) \<Longrightarrow> x \<in> set xs \<Longrightarrow> y \<in> set xs \<Longrightarrow> P x \<Longrightarrow> P y \<Longrightarrow>
   f x = f y \<Longrightarrow> x = y"
  by (rule distinct_map_inj [of f "filter P xs"]) auto

lemma find_Some_iff_mem: "List.find P xs = Some x \<Longrightarrow> x \<in> set xs \<and> P x"
  by (induction xs) (auto split: if_splits)

lemma find_None_iff_mem: "List.find P xs = None \<longleftrightarrow> (\<forall>x\<in>set xs. \<not> P x)"
  by (induction xs) auto

lemma find_unique:
  assumes "x \<in> set xs" "P x" "\<And>y. y \<in> set xs \<Longrightarrow> P y \<Longrightarrow> y = x"
  shows "List.find P xs = Some x"
proof (cases "List.find P xs")
  case None
  with assms(1,2) show ?thesis by (simp add: find_None_iff_mem)
next
  case (Some y)
  with find_Some_iff_mem [OF Some] assms(3) show ?thesis by simp
qed

lemma newest_None [simp]: "newest rs = None \<longleftrightarrow> rs = []"
  by (cases rs) (auto split: option.splits)

lemma newest_Some: "newest rs = Some r \<Longrightarrow> r \<in> set rs \<and> (\<forall>s\<in>set rs. ar_gen s \<le> ar_gen r)"
proof (induction rs arbitrary: r)
  case (Cons x rs)
  show ?case
  proof (cases "newest rs")
    case None
    with Cons.prems show ?thesis by simp
  next
    case (Some s)
    from Cons.IH [OF Some] have "s \<in> set rs" "\<forall>t\<in>set rs. ar_gen t \<le> ar_gen s" by auto
    with Cons.prems Some show ?thesis
      by (auto split: if_splits simp: not_less intro: order_trans)
  qed
qed simp

lemma set_generations [simp]: "r \<in> set (generations aid d) \<longleftrightarrow> r \<in> set (assignments d) \<and> ar_id r = aid"
  by (auto simp: generations_def)

lemma update_where_none: "(\<And>r. r \<in> set rows \<Longrightarrow> \<not> P r) \<Longrightarrow> update_where P f rows = rows"
  by (simp add: update_where_def map_idI)

lemma filter_update_where:
  assumes "\<And>r. r \<in> set rows \<Longrightarrow> P r \<Longrightarrow> \<not> Q r \<and> \<not> Q (f r)"
  shows "filter Q (update_where P f rows) = filter Q rows"
  using assms by (induction rows) (auto simp: update_where_def)

lemma set_update_where [simp]:
  "set (update_where P f rows) = (\<lambda>r. if P r then f r else r) ` set rows"
  by (simp add: update_where_def)

lemma map_update_where:
  "(\<And>r. P r \<Longrightarrow> g (f r) = g r) \<Longrightarrow> map g (update_where P f rows) = map g rows"
  by (simp add: update_where_def)

lemma rows_affected_1:
  "rows_affected P rows = 1 \<Longrightarrow> \<exists>r. r \<in> set rows \<and> P r \<and> (\<forall>s\<in>set rows. P s \<longrightarrow> s = r)"
proof -
  assume "rows_affected P rows = 1"
  then obtain r where "filter P rows = [r]" by (auto simp: rows_affected_def length_Suc_conv)
  then have "set (filter P rows) = {r}" by simp
  then show ?thesis by auto
qed

lemma rows_affected_key:
  "distinct (map k rows) \<Longrightarrow> (\<And>s. P s \<Longrightarrow> k s = key) \<Longrightarrow> rows_affected P rows = 0 \<or> rows_affected P rows = 1"
proof -
  assume d: "distinct (map k rows)" and k: "\<And>s. P s \<Longrightarrow> k s = key"
  have "distinct (map k (filter P rows))" using d by (simp add: distinct_map_filter)
  moreover have "set (map k (filter P rows)) \<subseteq> {key}" using k by auto
  ultimately have "length (map k (filter P rows)) \<le> 1"
    by (metis card_mono card.empty card_insert_disjoint distinct_card empty_iff finite.emptyI
        finite.insertI One_nat_def)
  then show ?thesis by (simp add: rows_affected_def le_Suc_eq)
qed

section \<open>Single statements\<close>

lemma put_assignments_Inr [stmt]:
  "put_assignments rows d = Inr d' \<longleftrightarrow> assignments_ok rows \<and> d' = d\<lparr>assignments := rows\<rparr>"
  by (auto simp: put_assignments_def)

lemma insert_inbox_Inr [stmt]:
  "insert_inbox r d = Inr d' \<longleftrightarrow> inbox_ok (inbox d @ [r]) \<and> d' = d\<lparr>inbox := inbox d @ [r]\<rparr>"
  by (auto simp: insert_inbox_def)

lemma insert_transition_Inr [stmt]:
  "insert_transition r d = Inr d' \<longleftrightarrow>
     transitions_ok (transitions d @ [r]) \<and> has_assignment d (tw_aid r) (tw_gen r) \<and>
     d' = d\<lparr>transitions := transitions d @ [r]\<rparr>"
  by (auto simp: insert_transition_def)

lemma insert_outbox_Inr [stmt]:
  "insert_outbox r d = Inr d' \<longleftrightarrow> outbox_ok (outbox d @ [r]) \<and> d' = d\<lparr>outbox := outbox d @ [r]\<rparr>"
  by (auto simp: insert_outbox_def)

lemma insert_checkpoint_Inr [stmt]:
  "insert_checkpoint r d = Inr d' \<longleftrightarrow>
     checkpoints_ok (checkpoints d @ [r]) \<and> has_assignment d (cp_aid r) (cp_gen r) \<and>
     d' = d\<lparr>checkpoints := checkpoints d @ [r]\<rparr>"
  by (auto simp: insert_checkpoint_def)

lemma fenced_update_Inr [stmt]:
  "fenced_update P f d = Inr d' \<longleftrightarrow>
     rows_affected P (assignments d) = 1 \<and> assignments_ok (update_where P f (assignments d)) \<and>
     d' = d\<lparr>assignments := update_where P f (assignments d)\<rparr>"
  by (auto simp: fenced_update_def stmt)

lemma outbox_update_Inr [stmt]:
  "fenced_outbox_update now c f d = Inr d' \<longleftrightarrow>
     rows_affected (outbox_fence now c) (outbox d) = 1 \<and>
     d' = d\<lparr>outbox := update_where (outbox_fence now c) f (outbox d)\<rparr>"
  by (auto simp: fenced_outbox_update_def)

lemma readAssignmentRecord_Inr [stmt]:
  "readAssignmentRecord aid gen d = Inr rec \<longleftrightarrow>
     (\<exists>r. lookup_row aid gen d = Some r \<and> rec = scanAssignmentRecord r)"
  by (auto simp: readAssignmentRecord_def split: option.splits)

lemma lookup_row_Some:
  "lookup_row aid gen d = Some r \<Longrightarrow> r \<in> set (assignments d) \<and> ar_id r = aid \<and> ar_gen r = gen"
  unfolding lookup_row_def by (drule find_Some_iff_mem) auto

lemma lookup_inbox_Some:
  "lookup_inbox s m d = Some r \<Longrightarrow> r \<in> set (inbox d) \<and> in_source r = s \<and> in_message r = m"
  unfolding lookup_inbox_def by (drule find_Some_iff_mem) auto

lemma scanAssignmentRecord_simps [simp]:
  "rec_Assignment (scanAssignmentRecord r) = ar_spec r"
  "rec_Lifecycle (scanAssignmentRecord r) = ar_lifecycle r"
  "rec_AuthorityFrom (scanAssignmentRecord r) = ar_from_ns r"
  "rec_AuthorityUntil (scanAssignmentRecord r) = ar_until_ns r"
  by (simp_all add: scanAssignmentRecord_def)

section \<open>Lifecycle operations\<close>

text \<open>The tables an evaluation writes.\<close>

definition evidence_tables ::
  "db \<Rightarrow> checkpoint_row list \<times> incident_row list \<times> event_row list \<times> summary_row list" where
  "evidence_tables d = (checkpoints d, incidents d, events d, summaries d)"

lemma recordLifecycleCommand_Inr:
  assumes "recordLifecycleCommand E now source msg ty aid gen from target eff pl hash d = Inr d'"
  shows "assignments d' = assignments d" "evidence_tables d' = evidence_tables d"
    "inbox d' = inbox d @ [inbox_entry now source msg hash ty aid gen (ApplyApplied, Some target)]"
    "transitions d' = transitions d @ [transition_entry E source msg aid gen (Some from) target eff pl]"
    "outbox d' = outbox d @ [api_outbox now (stableID E [''assignment-lifecycle'', source, msg]) aid gen pl]"
  using assms by (auto simp: recordLifecycleCommand_def monad_splits stmt evidence_tables_def)

lemma store_candidate_Inr:
  assumes "store_candidate E now source msg ty hash a d = Inr d'"
  shows "assignments d' =
      update_where (candidate_of (asg_ID a)) (release AssignmentSuperseded now) (assignments d) @ [new_candidate now a]"
    "assignments_ok (assignments d')" "evidence_tables d' = evidence_tables d"
    "inbox d' = inbox d @ [inbox_entry now source msg hash ty (asg_ID a) (asg_Generation a) (ApplyApplied, None)]"
proof -
  have none: "newest (generations (asg_ID a) d) = None \<Longrightarrow>
      update_where (candidate_of (asg_ID a)) (release AssignmentSuperseded now) (assignments d) = assignments d"
    by (rule update_where_none) (auto simp: generations_def filter_empty_conv candidate_of_def)
  show "assignments d' =
      update_where (candidate_of (asg_ID a)) (release AssignmentSuperseded now) (assignments d) @ [new_candidate now a]"
    "assignments_ok (assignments d')" "evidence_tables d' = evidence_tables d"
    "inbox d' = inbox d @ [inbox_entry now source msg hash ty (asg_ID a) (asg_Generation a) (ApplyApplied, None)]"
    using assms none
    by (auto simp: store_candidate_def monad_splits stmt Let_def evidence_tables_def split: option.splits)
qed

text \<open>The three ways a preparation succeeds: redelivery, stale or repeated generation, new generation.\<close>

lemma PrepareAssignment_cases:
  assumes "PrepareAssignment E now source msg ty a d = Inr (res, d')"
  obtains (replay) row where "lookup_inbox source msg d = Some row" "in_hash row = assignment_hash E ty a" "d' = d"
      "apl_Disposition res \<noteq> ApplyApplied"
  | (known) current where "lookup_inbox source msg d = None"
      "newest (generations (asg_ID a) d) = Some current" "asg_Generation a \<le> ar_gen current"
      "apl_Disposition res = (if asg_Generation a < ar_gen current then ApplyStale else ApplyIdempotent)"
      "asg_Generation a = ar_gen current \<longrightarrow> ar_spec current = a"
      "insert_inbox (inbox_entry now source msg (assignment_hash E ty a) ty (asg_ID a) (asg_Generation a)
         (apl_Disposition res, None)) d = Inr d'"
  | (stored) "envelope_valid source msg ty a" "lookup_inbox source msg d = None"
      "\<forall>r\<in>set (generations (asg_ID a) d). ar_gen r < asg_Generation a"
      "\<forall>r. newest (generations (asg_ID a) d) = Some r \<longrightarrow>
         asg_AircraftID a = ar_aircraft r \<and> asg_FlightID a = ar_flight r \<and> asg_IntentID a = ar_intent r"
      "apl_Disposition res = ApplyApplied"
      "store_candidate E now source msg ty (assignment_hash E ty a) a d = Inr d'"
proof (cases "lookup_inbox source msg d")
  case (Some row)
  show ?thesis
    by (rule replay [of row]) (use assms Some in
      \<open>auto simp: PrepareAssignment_def monad_splits Let_def
         split: option.splits if_splits apply_disposition.splits prod.splits\<close>)
next
  case None
  show ?thesis
  proof (cases "newest (generations (asg_ID a) d)")
    case empty: None
    show ?thesis
      by (rule stored) (use assms None empty in \<open>auto simp: PrepareAssignment_def monad_splits Let_def\<close>)
  next
    case (Some current)
    note cur = newest_Some [OF Some]
    show ?thesis
    proof (cases "asg_Generation a \<le> ar_gen current")
      case True
      show ?thesis
        by (rule known [of current]) (use assms None Some True in
          \<open>auto simp: PrepareAssignment_def monad_splits Let_def split: if_splits\<close>)
    next
      case False
      then have "\<forall>r\<in>set (generations (asg_ID a) d). ar_gen r < asg_Generation a"
        using cur by (meson not_le order_le_less_trans)
      then show ?thesis
        by (intro stored) (use assms None Some False in
          \<open>auto simp: PrepareAssignment_def monad_splits Let_def split: if_splits\<close>)
    qed
  qed
qed

lemma encodeCommand_Inr:
  "encodeCommand E ty c = Inr (pl, hash) \<Longrightarrow> pl = PayloadCommand ty c \<and> hash = command_hash E ty c"
  by (auto simp: encodeCommand_def split: option.splits if_splits)

lemma replay_command_Inr [stmt]:
  "replay_command existing hash aid gen d = Inr (res, d') \<longleftrightarrow>
     existing = hash \<and> d' = d \<and> lcr_Disposition res = ApplyIdempotent \<and>
     readAssignmentRecord aid gen d = Inr (lcr_Record res)"
  by (cases res) (auto simp: replay_command_def monad_splits)

lemma transitionCandidate_cases:
  assumes "transitionCandidate E now source msg ty aid gen target d = Inr (res, d')"
  obtains (replay) "d' = d" "readInboxHash source msg d \<noteq> None" "lcr_Disposition res = ApplyIdempotent"
  | (applied) row d1 where "readInboxHash source msg d = None"
      "lookup_row aid gen d = Some row"
      "\<forall>r\<in>set (generations aid d). ar_gen r \<le> gen"
      "candidate_step (ar_lifecycle row) target"
      "d1 = d\<lparr>assignments := candidate_update now aid gen target (assignments d)\<rparr>"
      "assignments_ok (assignments d1)"
      "recordLifecycleCommand E now source msg ty aid gen (ar_lifecycle row) target None
         (PayloadCommand ty \<lparr>cmd_AssignmentID = aid, cmd_Generation = gen, cmd_EffectiveAt = None\<rparr>)
         (command_hash E ty \<lparr>cmd_AssignmentID = aid, cmd_Generation = gen, cmd_EffectiveAt = None\<rparr>) d1 = Inr d'"
      "lcr_Disposition res = ApplyApplied"
proof (cases "readInboxHash source msg d")
  case (Some existing)
  show ?thesis
    by (rule replay) (use assms Some in
      \<open>auto simp: transitionCandidate_def monad_splits stmt split: option.splits\<close>)
next
  case None
  obtain row latest where *: "lookup_row aid gen d = Some row"
    "newest (generations aid d) = Some latest" "gen = ar_gen latest"
    "candidate_step (ar_lifecycle row) target"
    "assignments_ok (candidate_update now aid gen target (assignments d))"
    "recordLifecycleCommand E now source msg ty aid gen (ar_lifecycle row) target None
       (PayloadCommand ty \<lparr>cmd_AssignmentID = aid, cmd_Generation = gen, cmd_EffectiveAt = None\<rparr>)
       (command_hash E ty \<lparr>cmd_AssignmentID = aid, cmd_Generation = gen, cmd_EffectiveAt = None\<rparr>)
       (d\<lparr>assignments := candidate_update now aid gen target (assignments d)\<rparr>) = Inr d'"
    "lcr_Disposition res = ApplyApplied"
    using assms None
    by (cases "newest (generations aid d)")
      (auto simp: transitionCandidate_def monad_splits stmt encodeCommand_def)
  show ?thesis
    by (rule applied [OF None *(1) _ *(4) refl]) (use * newest_Some [OF *(2)] in auto)
qed

text \<open>What a cutover establishes about the generation it closes.\<close>

definition boundary_ok :: "gotime \<Rightarrow> string \<Rightarrow> nat \<Rightarrow> db \<Rightarrow> assignment_row \<Rightarrow> bool" where
  "boundary_ok eff aid gen d c \<longleftrightarrow>
     ar_gen c < gen \<and>
     (case (ar_from_ns c, ar_until_ns c) of
        (Some f, Some u) \<Rightarrow> f < UnixNano eff \<and> UnixNano eff \<le> u | _ \<Rightarrow> False) \<and>
     (case lookup_summary aid (ar_gen c) d of None \<Rightarrow> True | Some s \<Rightarrow> sum_observed_ns s < UnixNano eff)"

lemma supersede_current_Inr [stmt]:
  "supersede_current E now eff aid gen c d = Inr d' \<longleftrightarrow>
     boundary_ok eff aid gen d c \<and>
     put_assignments (close_authority E now eff aid (ar_gen c) (assignments d)) d = Inr d'"
  by (auto simp: supersede_current_def boundary_ok_def monad_splits Let_def not_le split: option.splits)

definition cutover_rows ::
  "store_env \<Rightarrow> gotime \<Rightarrow> gotime \<Rightarrow> string \<Rightarrow> assignment_row \<Rightarrow> assignment_row list \<Rightarrow> assignment_row list" where
  "cutover_rows E now eff aid cand rows =
     open_authority E now eff (asg_EffectiveUntil (ar_spec cand)) aid (ar_gen cand)
       (case List.find (current_of aid) rows of None \<Rightarrow> rows
        | Some c \<Rightarrow> close_authority E now eff aid (ar_gen c) rows)"

lemma CutoverAssignment_cases:
  assumes "CutoverAssignment E now source msg aid gen eff d = Inr (res, d')"
  obtains (replay) "d' = d" "readInboxHash source msg d \<noteq> None" "lcr_Disposition res = ApplyIdempotent"
  | (applied) cand where "supportedUnixNanoseconds eff" "eff \<le> now" "readInboxHash source msg d = None"
      "lookup_row aid gen d = Some cand" "ar_lifecycle cand = AssignmentArmed"
      "asg_EffectiveFrom (ar_spec cand) \<le> eff" "eff < asg_EffectiveUntil (ar_spec cand)"
      "\<forall>c. List.find (current_of aid) (assignments d) = Some c \<longrightarrow> boundary_ok eff aid gen d c"
      "assignments d' = cutover_rows E now eff aid cand (assignments d)"
      "assignments_ok (assignments d')" "evidence_tables d' = evidence_tables d"
      "lcr_Disposition res = ApplyApplied" "readAssignmentRecord aid gen d' = Inr (lcr_Record res)"
proof (cases "readInboxHash source msg d")
  case (Some existing)
  show ?thesis
    by (rule replay) (use assms Some in
      \<open>auto simp: CutoverAssignment_def monad_splits stmt split: option.splits\<close>)
next
  case None
  obtain cand pl hash d1 d2 d3 where *: "lookup_row aid gen d = Some cand" "ar_lifecycle cand = AssignmentArmed"
    "supportedUnixNanoseconds eff" "eff \<le> now"
    "asg_EffectiveFrom (ar_spec cand) \<le> eff" "eff < asg_EffectiveUntil (ar_spec cand)"
    and d1: "(case List.find (current_of aid) (assignments d) of None \<Rightarrow> Inr d
            | Some c \<Rightarrow> supersede_current E now eff aid gen c d) = Inr d1"
    and d2: "assignments_ok (assignments d2)" "d2 = d1\<lparr>assignments := open_authority E now eff
              (asg_EffectiveUntil (ar_spec cand)) aid gen (assignments d1)\<rparr>"
    and d3: "recordLifecycleCommand E now source msg ''assignment_cutover'' aid gen
              AssignmentArmed AssignmentActive (Some eff) pl hash d2 = Inr d3"
    and d4: "(case List.find (current_of aid) (assignments d) of None \<Rightarrow> Inr d3
            | Some c \<Rightarrow>
                if ar_gen c = 0 then Inr d3
                else insert_transition
                  (transition_entry E source msg aid (ar_gen c) (Some (ar_lifecycle c))
                     AssignmentSuperseded (Some eff) pl) d3) = Inr d'"
    and res: "lcr_Disposition res = ApplyApplied" "readAssignmentRecord aid gen d' = Inr (lcr_Record res)"
    using assms None
    by (auto simp: CutoverAssignment_def cutover_candidate_def monad_splits stmt Let_def not_less)
  have gen: "ar_gen cand = gen" using lookup_row_Some [OF *(1)] by simp
  have a1: "assignments d1 = (case List.find (current_of aid) (assignments d) of None \<Rightarrow> assignments d
        | Some c \<Rightarrow> close_authority E now eff aid (ar_gen c) (assignments d))"
    "evidence_tables d1 = evidence_tables d"
    using d1 by (auto simp: stmt evidence_tables_def split: option.splits)
  have a4: "assignments d' = assignments d3" "evidence_tables d' = evidence_tables d3"
    using d4 by (auto simp: stmt evidence_tables_def split: option.splits if_splits)
  show ?thesis
  proof (rule applied [OF *(3,4) None *(1,2,5,6)])
    show "\<forall>c. List.find (current_of aid) (assignments d) = Some c \<longrightarrow> boundary_ok eff aid gen d c"
      using d1 by (auto simp: stmt)
    show "assignments d' = cutover_rows E now eff aid cand (assignments d)"
      using recordLifecycleCommand_Inr(1) [OF d3] a1(1) a4(1) d2(2) gen by (simp add: cutover_rows_def)
    show "assignments_ok (assignments d')"
      using recordLifecycleCommand_Inr(1) [OF d3] a4(1) d2(1) by simp
    show "evidence_tables d' = evidence_tables d"
      using recordLifecycleCommand_Inr(2) [OF d3] a1(2) a4(2) d2(2) by (simp add: evidence_tables_def)
  qed (use res in auto)
qed

section \<open>Leases\<close>

text \<open>The columns that say which generation holds which authority.\<close>

definition authority_view ::
  "assignment_row \<Rightarrow> (string \<times> nat \<times> assignment_lifecycle \<times> assignment) \<times> (string \<times> string \<times> string) \<times>
     nat \<times> (gotime option \<times> gotime option \<times> int option \<times> int option)" where
  "authority_view r =
     ((ar_id r, ar_gen r, ar_lifecycle r, ar_spec r), (ar_aircraft r, ar_flight r, ar_intent r),
      ar_intent_version r,
      (ar_authority_from r, ar_authority_until r, ar_from_ns r, ar_until_ns r))"

lemma authority_view_simps [simp]:
  "authority_view (take_lease E now w l r) = authority_view r"
  "authority_view (drop_lease now t r) = authority_view r"
  "authority_view (r\<lparr>ar_evaluation_revision := n\<rparr>) = authority_view r"
  "authority_view (r\<lparr>ar_lease_until := u\<rparr>) = authority_view r"
  "authority_view (r\<lparr>ar_updated_at := t\<rparr>) = authority_view r"
  by (simp_all add: authority_view_def take_lease_def drop_lease_def)

lemma ClaimDue_cases:
  assumes "ClaimDueAssignmentsWithFinalizationGrace E now locked w lease grace limit d = (res, d')"
  obtains (refused) "d' = d"
  | (claimed) keys where "keys = due_keys E now locked grace (nat limit) d"
      "0 < lease"
      "d' = d\<lparr>assignments := update_where (\<lambda>r. row_key r \<in> set keys) (take_lease E now w lease) (assignments d)\<rparr>"
      "assignments_ok (assignments d')"
      "res = scan_claims w grace (filter (\<lambda>r. row_key r \<in> set keys) (assignments d'))"
  using assms
  by (auto simp: ClaimDueAssignmentsWithFinalizationGrace_def Let_def stmt put_assignments_def
      split: if_splits sum.splits)

end
