(* ===== verification/Store_Timeline.thy ===== *)
theory Store_Timeline
  imports Store_Frames
begin

text \<open>
  The invariant of \<^verbatim>\<open>conformance_assignments\<close> that the database constraints do not
  enforce and the lifecycle operations keep: rows agree with their specification, a candidate
  is the newest generation of its assignment, the authority intervals of one assignment follow
  one another in the order of the generations, and a closed interval has a successor. What
  changes only leases, schedules and revisions keeps it because it is a property of the
  authority columns alone.
\<close>

section \<open>Nanosecond columns\<close>

lemma supported_bounds: "supportedUnixNanoseconds t \<Longrightarrow> - (2 ^ 63) \<le> t \<and> t < 2 ^ 63"
  by (simp add: supportedUnixNanoseconds_def year_at_least_def year_start_def days_before_year_def
      zero_time_def)

lemma supported_UnixNano [simp]: "supportedUnixNanoseconds t \<Longrightarrow> UnixNano t = t"
  using supported_bounds [of t] by (simp add: UnixNano_def wrap64_id)

lemma supported_not_zero: "supportedUnixNanoseconds t \<Longrightarrow> \<not> IsZero t"
  by (simp add: supportedUnixNanoseconds_def IsZero_def year_at_least_def year_start_def
      days_before_year_def zero_time_def)

section \<open>The invariant\<close>

definition spec_agrees :: "assignment_row \<Rightarrow> bool" where
  "spec_agrees r \<longleftrightarrow>
     ar_id r = asg_ID (ar_spec r) \<and> ar_gen r = asg_Generation (ar_spec r) \<and>
     ar_aircraft r = asg_AircraftID (ar_spec r) \<and> ar_flight r = asg_FlightID (ar_spec r) \<and>
     ar_intent r = asg_IntentID (ar_spec r) \<and>
     asg_EffectiveFrom (ar_spec r) < asg_EffectiveUntil (ar_spec r) \<and>
     supportedUnixNanoseconds (asg_EffectiveFrom (ar_spec r)) \<and>
     supportedUnixNanoseconds (asg_EffectiveUntil (ar_spec r))"

text \<open>The interval columns are set together, and lie in the effective window of the specification.\<close>

definition authority_in_window :: "assignment_row \<Rightarrow> bool" where
  "authority_in_window r \<longleftrightarrow>
     ar_lifecycle r \<noteq> AssignmentCompleted \<and>
     (ar_from_ns r = None \<longleftrightarrow> ar_until_ns r = None) \<and>
     (\<forall>f u. ar_from_ns r = Some f \<and> ar_until_ns r = Some u \<longrightarrow>
        asg_EffectiveFrom (ar_spec r) \<le> f \<and> f < u \<and> u \<le> asg_EffectiveUntil (ar_spec r))"

definition candidate_newest :: "assignment_row list \<Rightarrow> bool" where
  "candidate_newest rows \<longleftrightarrow>
     (\<forall>r\<in>set rows. \<forall>s\<in>set rows. candidate_row r \<and> ar_id s = ar_id r \<longrightarrow> ar_gen s \<le> ar_gen r)"

definition authority_ordered :: "assignment_row list \<Rightarrow> bool" where
  "authority_ordered rows \<longleftrightarrow>
     (\<forall>r\<in>set rows. \<forall>s\<in>set rows. \<forall>u f. ar_id r = ar_id s \<and> ar_gen r < ar_gen s \<and>
        ar_until_ns r = Some u \<and> ar_from_ns s = Some f \<longrightarrow> u \<le> f)"

definition closed_has_successor :: "assignment_row list \<Rightarrow> bool" where
  "closed_has_successor rows \<longleftrightarrow>
     (\<forall>r\<in>set rows. ar_from_ns r \<noteq> None \<and> \<not> current_row r \<longrightarrow>
        (\<exists>s\<in>set rows. current_row s \<and> ar_id s = ar_id r \<and> ar_gen r < ar_gen s))"

definition identity_stable :: "assignment_row list \<Rightarrow> bool" where
  "identity_stable rows \<longleftrightarrow>
     (\<forall>r\<in>set rows. \<forall>s\<in>set rows. ar_id r = ar_id s \<longrightarrow>
        ar_aircraft r = ar_aircraft s \<and> ar_flight r = ar_flight s \<and> ar_intent r = ar_intent s)"

definition timeline_inv :: "assignment_row list \<Rightarrow> bool" where
  "timeline_inv rows \<longleftrightarrow>
     assignments_ok rows \<and> (\<forall>r\<in>set rows. spec_agrees r \<and> authority_in_window r) \<and>
     candidate_newest rows \<and> authority_ordered rows \<and> closed_has_successor rows \<and>
     identity_stable rows"

lemma timeline_empty [simp]: "timeline_inv []"
  by (simp add: timeline_inv_def assignments_ok_def candidate_newest_def authority_ordered_def
      closed_has_successor_def identity_stable_def)

lemma identity_stableD:
  "identity_stable rows \<Longrightarrow> r \<in> set rows \<Longrightarrow> s \<in> set rows \<Longrightarrow> ar_id r = ar_id s \<Longrightarrow>
   ar_aircraft r = ar_aircraft s \<and> ar_flight r = ar_flight s \<and> ar_intent r = ar_intent s"
  unfolding identity_stable_def by blast

lemma authority_orderedD:
  "authority_ordered rows \<Longrightarrow> r \<in> set rows \<Longrightarrow> s \<in> set rows \<Longrightarrow> ar_id r = ar_id s \<Longrightarrow>
   ar_gen r < ar_gen s \<Longrightarrow> ar_until_ns r = Some u \<Longrightarrow> ar_from_ns s = Some f \<Longrightarrow> u \<le> f"
  unfolding authority_ordered_def by blast

lemma closed_has_successorD:
  "closed_has_successor rows \<Longrightarrow> r \<in> set rows \<Longrightarrow> ar_from_ns r \<noteq> None \<Longrightarrow> \<not> current_row r \<Longrightarrow>
   \<exists>s\<in>set rows. current_row s \<and> ar_id s = ar_id r \<and> ar_gen r < ar_gen s"
  unfolding closed_has_successor_def by blast

lemma candidate_newestD:
  "candidate_newest rows \<Longrightarrow> r \<in> set rows \<Longrightarrow> s \<in> set rows \<Longrightarrow> candidate_row r \<Longrightarrow> ar_id s = ar_id r \<Longrightarrow>
   ar_gen s \<le> ar_gen r"
  unfolding candidate_newest_def by blast

lemma timeline_invD:
  assumes "timeline_inv rows"
  shows "assignments_ok rows" "r \<in> set rows \<Longrightarrow> spec_agrees r" "r \<in> set rows \<Longrightarrow> authority_in_window r"
    "candidate_newest rows" "authority_ordered rows" "closed_has_successor rows" "identity_stable rows"
  using assms by (simp_all add: timeline_inv_def)

section \<open>Consequences of the constraints\<close>

lemma row_key_inj:
  "assignments_ok rows \<Longrightarrow> r \<in> set rows \<Longrightarrow> s \<in> set rows \<Longrightarrow> ar_id r = ar_id s \<Longrightarrow> ar_gen r = ar_gen s \<Longrightarrow> r = s"
  by (rule distinct_map_inj [of row_key rows]) (simp_all add: assignments_ok_def)

lemma current_unique:
  "assignments_ok rows \<Longrightarrow> r \<in> set rows \<Longrightarrow> s \<in> set rows \<Longrightarrow> current_row r \<Longrightarrow> current_row s \<Longrightarrow>
   ar_id r = ar_id s \<Longrightarrow> r = s"
  by (rule distinct_map_filter_inj [of ar_id current_row rows]) (simp_all add: assignments_ok_def)

lemma candidate_unique:
  "assignments_ok rows \<Longrightarrow> r \<in> set rows \<Longrightarrow> s \<in> set rows \<Longrightarrow> candidate_row r \<Longrightarrow> candidate_row s \<Longrightarrow>
   ar_id r = ar_id s \<Longrightarrow> r = s"
  by (rule distinct_map_filter_inj [of ar_id candidate_row rows]) (simp_all add: assignments_ok_def)

lemma row_ok: "assignments_ok rows \<Longrightarrow> r \<in> set rows \<Longrightarrow> assignment_row_ok r"
  by (simp add: assignments_ok_def list_all_iff)

lemma candidate_no_authority:
  "assignment_row_ok r \<Longrightarrow> candidate_row r \<Longrightarrow> ar_from_ns r = None \<and> ar_until_ns r = None"
  by (auto simp: assignment_row_ok_def lifecycle_authority_valid_def is_candidate_def is_current_def)

lemma current_authority:
  "assignment_row_ok r \<Longrightarrow> current_row r \<Longrightarrow> \<exists>f u. ar_from_ns r = Some f \<and> ar_until_ns r = Some u \<and> f < u"
  by (auto simp: assignment_row_ok_def lifecycle_authority_valid_def authority_interval_valid_def
      is_current_def split: option.splits)

lemma lifecycle_classes [simp]:
  "is_current AssignmentActive" "is_current AssignmentEnding" "\<not> is_current AssignmentReceived"
  "\<not> is_current AssignmentArmed" "\<not> is_current AssignmentSuperseded" "\<not> is_current AssignmentCancelled"
  "\<not> is_current AssignmentCompleted"
  "is_candidate AssignmentReceived" "is_candidate AssignmentArmed" "\<not> is_candidate AssignmentActive"
  "\<not> is_candidate AssignmentEnding" "\<not> is_candidate AssignmentSuperseded"
  "\<not> is_candidate AssignmentCancelled" "\<not> is_candidate AssignmentCompleted"
  by (simp_all add: is_current_def is_candidate_def)

lemma candidate_not_current: "is_candidate l \<Longrightarrow> \<not> is_current l"
  by (auto simp: is_candidate_def)

section \<open>Operations that keep the authority columns\<close>

lemma authority_viewD:
  assumes "authority_view r = authority_view s"
  shows "ar_id r = ar_id s" "ar_gen r = ar_gen s" "ar_lifecycle r = ar_lifecycle s" "ar_spec r = ar_spec s"
    "ar_aircraft r = ar_aircraft s" "ar_flight r = ar_flight s" "ar_intent r = ar_intent s"
    "ar_from_ns r = ar_from_ns s" "ar_until_ns r = ar_until_ns s"
  using assms by (simp_all add: authority_view_def)

lemma timeline_update:
  assumes inv: "timeline_inv rows" and ok: "assignments_ok (update_where P f rows)"
    and view: "\<And>r. authority_view (f r) = authority_view r"
  shows "timeline_inv (update_where P f rows)"
proof -
  define g where "g = (\<lambda>r. if P r then f r else r)"
  have v: "authority_view (g r) = authority_view r" for r using view by (simp add: g_def)
  note vs = authority_viewD [OF v]
  have set: "set (update_where P f rows) = g ` set rows" by (simp add: g_def)
  have "spec_agrees (g r) \<longleftrightarrow> spec_agrees r" "authority_in_window (g r) \<longleftrightarrow> authority_in_window r" for r
    by (simp_all only: spec_agrees_def authority_in_window_def vs)
  then show ?thesis
    using inv ok unfolding timeline_inv_def candidate_newest_def
      authority_ordered_def closed_has_successor_def identity_stable_def set
    by (simp only: vs ball_simps bex_simps) blast
qed

section \<open>Preparation\<close>

lemma release_simps [simp]:
  "ar_id (release l now r) = ar_id r" "ar_gen (release l now r) = ar_gen r"
  "ar_lifecycle (release l now r) = l" "ar_spec (release l now r) = ar_spec r"
  "ar_aircraft (release l now r) = ar_aircraft r" "ar_flight (release l now r) = ar_flight r"
  "ar_intent (release l now r) = ar_intent r" "ar_from_ns (release l now r) = ar_from_ns r"
  "ar_until_ns (release l now r) = ar_until_ns r"
  "ar_evaluation_revision (release l now r) = ar_evaluation_revision r"
  by (simp_all add: release_def)

lemma new_candidate_simps [simp]:
  "ar_id (new_candidate now a) = asg_ID a" "ar_gen (new_candidate now a) = asg_Generation a"
  "ar_lifecycle (new_candidate now a) = AssignmentReceived" "ar_spec (new_candidate now a) = a"
  "ar_aircraft (new_candidate now a) = asg_AircraftID a" "ar_flight (new_candidate now a) = asg_FlightID a"
  "ar_intent (new_candidate now a) = asg_IntentID a" "ar_from_ns (new_candidate now a) = None"
  "ar_until_ns (new_candidate now a) = None"
  by (simp_all add: new_candidate_def)

text \<open>Retiring a candidate (superseded by a newer one, or cancelled) keeps the invariant.\<close>

lemma timeline_retire:
  assumes inv: "timeline_inv rows" and P: "\<And>r. P r \<Longrightarrow> candidate_row r"
    and f: "\<And>r. ar_id (f r) = ar_id r \<and> ar_gen (f r) = ar_gen r \<and> ar_spec (f r) = ar_spec r \<and>
      ar_aircraft (f r) = ar_aircraft r \<and> ar_flight (f r) = ar_flight r \<and> ar_intent (f r) = ar_intent r \<and>
      ar_from_ns (f r) = ar_from_ns r \<and> ar_until_ns (f r) = ar_until_ns r"
    and l: "\<And>r. P r \<Longrightarrow> \<not> current_row (f r) \<and> ar_lifecycle (f r) \<noteq> AssignmentCompleted"
    and ok: "assignments_ok (update_where P f rows)"
  shows "timeline_inv (update_where P f rows)"
proof -
  define g where "g = (\<lambda>r. if P r then f r else r)"
  have set: "set (update_where P f rows) = g ` set rows" by (simp add: g_def)
  have gs: "ar_id (g r) = ar_id r" "ar_gen (g r) = ar_gen r" "ar_spec (g r) = ar_spec r"
    "ar_aircraft (g r) = ar_aircraft r" "ar_flight (g r) = ar_flight r" "ar_intent (g r) = ar_intent r"
    "ar_from_ns (g r) = ar_from_ns r" "ar_until_ns (g r) = ar_until_ns r" for r
    using f [of r] by (simp_all add: g_def)
  have cur: "current_row (g r) \<longleftrightarrow> current_row r" for r
    using P [of r] l [of r] candidate_not_current [of "ar_lifecycle r"] by (auto simp: g_def)
  have cand: "candidate_row (g r) \<Longrightarrow> candidate_row r" for r
    using P [of r] by (auto simp: g_def split: if_splits)
  have comp: "ar_lifecycle (g r) \<noteq> AssignmentCompleted" if "ar_lifecycle r \<noteq> AssignmentCompleted" for r
    using l [of r] that by (auto simp: g_def)
  have "\<forall>r\<in>set rows. authority_in_window (g r)"
    using inv comp by (simp add: timeline_inv_def authority_in_window_def gs)
  moreover have "candidate_newest (update_where P f rows)"
    using inv cand unfolding timeline_inv_def candidate_newest_def set by (simp add: gs)
  moreover have "spec_agrees (g r) \<longleftrightarrow> spec_agrees r" for r by (simp only: spec_agrees_def gs)
  ultimately show ?thesis
    using inv ok unfolding timeline_inv_def authority_ordered_def
      closed_has_successor_def identity_stable_def set
    by (simp only: gs cur ball_simps bex_simps) blast
qed

lemma timeline_append:
  assumes inv: "timeline_inv rows" and ok: "assignments_ok (rows @ [r])"
    and r: "spec_agrees r" "ar_from_ns r = None" "ar_until_ns r = None" "ar_lifecycle r = AssignmentReceived"
    and gen: "\<And>s. s \<in> set rows \<Longrightarrow> ar_id s = ar_id r \<Longrightarrow> ar_gen s < ar_gen r"
    and cand: "\<And>s. s \<in> set rows \<Longrightarrow> ar_id s = ar_id r \<Longrightarrow> \<not> candidate_row s"
    and ident: "\<And>s. s \<in> set rows \<Longrightarrow> ar_id s = ar_id r \<Longrightarrow>
      ar_aircraft s = ar_aircraft r \<and> ar_flight s = ar_flight r \<and> ar_intent s = ar_intent r"
  shows "timeline_inv (rows @ [r])"
proof -
  note inv = timeline_invD [OF inv]
  have "candidate_newest (rows @ [r])"
    unfolding candidate_newest_def
  proof (intro ballI impI)
    fix x y assume xy: "x \<in> set (rows @ [r])" "y \<in> set (rows @ [r])" "candidate_row x \<and> ar_id y = ar_id x"
    then consider "x = r" "y = r" | "x = r" "y \<in> set rows" | "x \<in> set rows" "y = r" | "x \<in> set rows" "y \<in> set rows"
      by auto
    then show "ar_gen y \<le> ar_gen x"
      by cases (use xy(3) gen [of y] cand [of x] candidate_newestD [OF inv(4)] in auto)
  qed
  moreover have "identity_stable (rows @ [r])"
    unfolding identity_stable_def
  proof (intro ballI impI)
    fix x y assume xy: "x \<in> set (rows @ [r])" "y \<in> set (rows @ [r])" "ar_id x = ar_id y"
    then consider "x = r" "y = r" | "x = r" "y \<in> set rows" | "x \<in> set rows" "y = r" | "x \<in> set rows" "y \<in> set rows"
      by auto
    then show "ar_aircraft x = ar_aircraft y \<and> ar_flight x = ar_flight y \<and> ar_intent x = ar_intent y"
      by cases (use xy(3) ident [of y] ident [of x] identity_stableD [OF inv(7), of x y] in auto)
  qed
  moreover have "authority_ordered (rows @ [r])"
    using inv(5) r(2,3) unfolding authority_ordered_def set_append by auto
  moreover have "closed_has_successor (rows @ [r])"
    using inv(6) r(2) unfolding closed_has_successor_def set_append by auto
  moreover have "authority_in_window r" using r by (simp add: authority_in_window_def)
  ultimately show ?thesis using inv(2,3) ok r(1) by (auto simp: timeline_inv_def)
qed

lemma PrepareAssignment_timeline:
  assumes inv: "timeline_inv (assignments d)"
    and run: "PrepareAssignment E now source msg ty a d = Inr (res, d')"
  shows "timeline_inv (assignments d')"
  using run
proof (cases rule: PrepareAssignment_cases)
  case (known current)
  then show ?thesis using inv by (auto simp: stmt)
next
  case stored
  let ?rows = "update_where (candidate_of (asg_ID a)) (release AssignmentSuperseded now) (assignments d)"
  note st = store_candidate_Inr [OF stored(6)]
  have ok: "assignments_ok ?rows"
    using st(1,2) by (auto simp: assignments_ok_def)
  have rows: "timeline_inv ?rows"
    by (rule timeline_retire [OF inv]) (use ok in \<open>auto simp: candidate_of_def\<close>)
  have ident: "ar_aircraft s = asg_AircraftID a \<and> ar_flight s = asg_FlightID a \<and> ar_intent s = asg_IntentID a"
    if s: "s \<in> set (assignments d)" "ar_id s = asg_ID a" for s
  proof -
    obtain n where n: "newest (generations (asg_ID a) d) = Some n"
      using s by (cases "newest (generations (asg_ID a) d)") (auto simp: generations_def filter_empty_conv)
    from newest_Some [OF n] have "n \<in> set (assignments d)" "ar_id n = asg_ID a" by auto
    moreover have "identity_stable (assignments d)" using inv by (simp add: timeline_inv_def)
    ultimately have "ar_aircraft s = ar_aircraft n \<and> ar_flight s = ar_flight n \<and> ar_intent s = ar_intent n"
      using s identity_stableD [of "assignments d" s n] by simp
    then show ?thesis using stored(4) n by simp
  qed
  show ?thesis unfolding st(1)
  proof (rule timeline_append [OF rows])
    show "assignments_ok (?rows @ [new_candidate now a])" using st(1,2) by simp
    show "spec_agrees (new_candidate now a)"
      using stored(1) by (simp add: spec_agrees_def envelope_valid_def)
  qed (use stored(3) ident in \<open>auto simp: candidate_of_def\<close>)
qed (use inv in simp)

section \<open>Arming and cancellation\<close>

lemma transitionCandidate_timeline:
  assumes inv: "timeline_inv (assignments d)"
    and run: "transitionCandidate E now source msg ty aid gen target d = Inr (res, d')"
  shows "timeline_inv (assignments d')"
  using run
proof (cases rule: transitionCandidate_cases)
  case (applied row d1)
  note rec = recordLifecycleCommand_Inr(1) [OF applied(7)]
  have "timeline_inv (candidate_update now aid gen target (assignments d))"
  proof (cases "target = AssignmentArmed")
    case True
    then show ?thesis unfolding candidate_update_def if_P [OF True]
      by (intro timeline_retire [OF inv]) (use applied(5,6) in \<open>auto simp: candidate_update_def\<close>)
  next
    case False
    then show ?thesis unfolding candidate_update_def if_not_P [OF False]
      by (intro timeline_retire [OF inv]) (use applied(5,6) in \<open>auto simp: candidate_update_def\<close>)
  qed
  then show ?thesis using rec applied(5) by simp
qed (use inv in simp)

section \<open>Cutover\<close>

definition opened_row :: "store_env \<Rightarrow> gotime \<Rightarrow> gotime \<Rightarrow> assignment_row \<Rightarrow> assignment_row" where
  "opened_row E now eff r =
     r\<lparr>ar_lifecycle := AssignmentActive, ar_authority_from := Some (timestamptz E eff),
       ar_from_ns := Some (UnixNano eff),
       ar_authority_until := Some (timestamptz E (asg_EffectiveUntil (ar_spec r))),
       ar_until_ns := Some (UnixNano (asg_EffectiveUntil (ar_spec r))),
       ar_cutover_at := Some (timestamptz E eff), ar_next_evaluation_at := now,
       ar_lease_owner := None, ar_lease_until := None, ar_updated_at := now\<rparr>"

definition closed_row :: "store_env \<Rightarrow> gotime \<Rightarrow> gotime \<Rightarrow> assignment_row \<Rightarrow> assignment_row" where
  "closed_row E now eff r =
     r\<lparr>ar_lifecycle := AssignmentSuperseded, ar_authority_until := Some (timestamptz E eff),
       ar_until_ns := Some (UnixNano eff), ar_lease_owner := None, ar_lease_until := None,
       ar_updated_at := now\<rparr>"

lemma opened_row_simps [simp]:
  "ar_id (opened_row E now eff r) = ar_id r" "ar_gen (opened_row E now eff r) = ar_gen r"
  "ar_lifecycle (opened_row E now eff r) = AssignmentActive" "ar_spec (opened_row E now eff r) = ar_spec r"
  "ar_aircraft (opened_row E now eff r) = ar_aircraft r" "ar_flight (opened_row E now eff r) = ar_flight r"
  "ar_intent (opened_row E now eff r) = ar_intent r" "ar_from_ns (opened_row E now eff r) = Some (UnixNano eff)"
  "ar_until_ns (opened_row E now eff r) = Some (UnixNano (asg_EffectiveUntil (ar_spec r)))"
  "ar_evaluation_revision (opened_row E now eff r) = ar_evaluation_revision r"
  "ar_lease_generation (opened_row E now eff r) = ar_lease_generation r"
  by (simp_all add: opened_row_def)

lemma closed_row_simps [simp]:
  "ar_id (closed_row E now eff r) = ar_id r" "ar_gen (closed_row E now eff r) = ar_gen r"
  "ar_lifecycle (closed_row E now eff r) = AssignmentSuperseded" "ar_spec (closed_row E now eff r) = ar_spec r"
  "ar_aircraft (closed_row E now eff r) = ar_aircraft r" "ar_flight (closed_row E now eff r) = ar_flight r"
  "ar_intent (closed_row E now eff r) = ar_intent r" "ar_from_ns (closed_row E now eff r) = ar_from_ns r"
  "ar_until_ns (closed_row E now eff r) = Some (UnixNano eff)"
  "ar_evaluation_revision (closed_row E now eff r) = ar_evaluation_revision r"
  "ar_lease_generation (closed_row E now eff r) = ar_lease_generation r"
  by (simp_all add: closed_row_def)

text \<open>
  A cutover rewrites two rows: the armed candidate, and the current row if there is one.
\<close>

lemma cutover_rows_map:
  assumes ok: "assignments_ok rows" and cand: "cand \<in> set rows" "ar_id cand = aid" "ar_lifecycle cand = AssignmentArmed"
  shows "cutover_rows E now eff aid cand rows =
    map (\<lambda>r. if r = cand then opened_row E now eff cand
             else if List.find (current_of aid) rows = Some r then closed_row E now eff r else r) rows"
proof -
  have is_cand: "ar_id r = aid \<and> ar_gen r = ar_gen cand \<and> ar_lifecycle r = AssignmentArmed \<longleftrightarrow> r = cand"
    if "r \<in> set rows" for r
    using row_key_inj [OF ok that cand(1)] cand by auto
  show ?thesis
  proof (cases "List.find (current_of aid) rows")
    case None
    then show ?thesis
      by (simp add: cutover_rows_def open_authority_def update_where_def is_cand opened_row_def cong: map_cong)
  next
    case (Some c)
    then have c: "c \<in> set rows" "ar_id c = aid" "current_row c"
      by (auto dest!: find_Some_iff_mem simp: current_of_def)
    have is_cur: "ar_id r = aid \<and> ar_gen r = ar_gen c \<and> current_row r \<longleftrightarrow> r = c" if "r \<in> set rows" for r
      using row_key_inj [OF ok that c(1)] c by auto
    have ne: "c \<noteq> cand" using c(3) cand(3) by auto
    have "close_authority E now eff aid (ar_gen c) rows =
        map (\<lambda>r. if r = c then closed_row E now eff r else r) rows"
      unfolding close_authority_def update_where_def
      by (rule map_cong [OF refl]) (simp add: is_cur closed_row_def)
    moreover have "open_authority E now eff (asg_EffectiveUntil (ar_spec cand)) aid (ar_gen cand)
          (map (\<lambda>r. if r = c then closed_row E now eff r else r) rows) =
        map (\<lambda>r. if r = cand then opened_row E now eff cand else if c = r then closed_row E now eff r else r) rows"
      unfolding open_authority_def update_where_def map_map
      using ne cand by (intro map_cong [OF refl]) (auto simp: is_cand opened_row_def)
    ultimately show ?thesis by (simp add: cutover_rows_def Some)
  qed
qed

lemma cutover_rows_mem:
  assumes ok: "assignments_ok rows" and cand: "cand \<in> set rows" "ar_id cand = aid" "ar_lifecycle cand = AssignmentArmed"
    and x: "x \<in> set (cutover_rows E now eff aid cand rows)"
  obtains (opened) "x = opened_row E now eff cand"
  | (closed) c where "List.find (current_of aid) rows = Some c" "x = closed_row E now eff c"
      "c \<in> set rows" "ar_id c = aid" "current_row c"
  | (kept) "x \<in> set rows" "x \<noteq> cand" "List.find (current_of aid) rows \<noteq> Some x"
proof -
  obtain r where r: "r \<in> set rows" "x = (if r = cand then opened_row E now eff cand
      else if List.find (current_of aid) rows = Some r then closed_row E now eff r else r)"
    using x unfolding cutover_rows_map [OF ok cand] by auto
  show ?thesis
  proof (cases "r = cand")
    case True
    with r show ?thesis by (intro opened) simp
  next
    case False
    show ?thesis
    proof (cases "List.find (current_of aid) rows = Some r")
      case True
      with False r show ?thesis
        by (intro closed [of r]) (use find_Some_iff_mem [OF True] in \<open>auto simp: current_of_def\<close>)
    next
      case F: False
      with False r show ?thesis by (intro kept) auto
    qed
  qed
qed

lemma find_current:
  assumes ok: "assignments_ok rows" and x: "x \<in> set rows" "current_row x" "ar_id x = aid"
  shows "List.find (current_of aid) rows = Some x"
proof (rule find_unique)
  show "y = x" if "y \<in> set rows" "current_of aid y" for y
    by (rule current_unique [OF ok that(1) x(1)]) (use that(2) x in \<open>simp_all add: current_of_def\<close>)
qed (use x in \<open>simp_all add: current_of_def\<close>)

lemma no_other_current:
  assumes ok: "assignments_ok rows" and x: "x \<in> set rows" "ar_id x = aid"
    and nf: "List.find (current_of aid) rows \<noteq> Some x"
  shows "\<not> current_row x"
  using find_current [OF ok x(1) _ x(2)] nf by auto

text \<open>
  An interval that a cutover leaves alone belongs to a generation before the one it closes,
  and ended before that one began.
\<close>

lemma kept_before_current:
  assumes inv: "timeline_inv rows" and x: "x \<in> set rows" "ar_id x = aid" "ar_from_ns x \<noteq> None"
    and nf: "List.find (current_of aid) rows \<noteq> Some x"
  shows "\<exists>c. List.find (current_of aid) rows = Some c \<and> ar_gen x < ar_gen c \<and>
    (\<forall>u f. ar_until_ns x = Some u \<longrightarrow> ar_from_ns c = Some f \<longrightarrow> u \<le> f)"
proof -
  note i = timeline_invD [OF inv]
  have "\<not> current_row x" by (rule no_other_current [OF i(1) x(1,2) nf])
  from closed_has_successorD [OF i(6) x(1,3) this] obtain c where
    c: "c \<in> set rows" "current_row c" "ar_id c = ar_id x" "ar_gen x < ar_gen c" by blast
  have "List.find (current_of aid) rows = Some c"
    by (rule find_current [OF i(1) c(1,2)]) (use c x in simp)
  then show ?thesis using authority_orderedD [OF i(5) x(1) c(1)] c by auto
qed

text \<open>The state in which a cutover at \<open>eff\<close> rewrites the table.\<close>

definition cutover_pre :: "assignment_row list \<Rightarrow> string \<Rightarrow> assignment_row \<Rightarrow> gotime \<Rightarrow> bool" where
  "cutover_pre rows aid cand eff \<longleftrightarrow>
     timeline_inv rows \<and> cand \<in> set rows \<and> ar_id cand = aid \<and> ar_lifecycle cand = AssignmentArmed \<and>
     (\<forall>c. List.find (current_of aid) rows = Some c \<longrightarrow>
        ar_gen c < ar_gen cand \<and>
        (\<exists>f u. ar_from_ns c = Some f \<and> f < eff \<and> ar_until_ns c = Some u \<and> eff \<le> u)) \<and>
     supportedUnixNanoseconds eff \<and> asg_EffectiveFrom (ar_spec cand) \<le> eff \<and>
     eff < asg_EffectiveUntil (ar_spec cand)"

lemma cutover_preD:
  assumes "cutover_pre rows aid cand eff"
  shows "timeline_inv rows" "cand \<in> set rows" "ar_id cand = aid" "ar_lifecycle cand = AssignmentArmed"
    "List.find (current_of aid) rows = Some c \<Longrightarrow>
       ar_gen c < ar_gen cand \<and> (\<exists>f u. ar_from_ns c = Some f \<and> f < eff \<and> ar_until_ns c = Some u \<and> eff \<le> u)"
    "supportedUnixNanoseconds eff" "asg_EffectiveFrom (ar_spec cand) \<le> eff" "eff < asg_EffectiveUntil (ar_spec cand)"
    "supportedUnixNanoseconds (asg_EffectiveUntil (ar_spec cand))"
  using assms by (auto simp: cutover_pre_def timeline_inv_def spec_agrees_def)

lemma opened_mem:
  assumes "cutover_pre rows aid cand eff"
  shows "opened_row E now eff cand \<in> set (cutover_rows E now eff aid cand rows)"
  using cutover_rows_map [OF timeline_invD(1) [OF cutover_preD(1) [OF assms]] cutover_preD(2-4) [OF assms]]
    cutover_preD(2) [OF assms] by force

lemma cutover_rows_agree:
  assumes pre: "cutover_pre rows aid cand eff" and "x \<in> set (cutover_rows E now eff aid cand rows)"
  shows "spec_agrees x \<and> authority_in_window x"
proof -
  note cand = cutover_preD(2-4) [OF pre] and current = cutover_preD(5) [OF pre] and eff = cutover_preD(6-8) [OF pre]
    and sup = cutover_preD(9) [OF pre] and inv = cutover_preD(1) [OF pre]
  note i = timeline_invD [OF inv]
  note mem = cutover_rows_mem [OF i(1) cand, consumes 1, case_names opened closed kept]
  let ?rows = "cutover_rows E now eff aid cand rows"
  show ?thesis
    using assms(2)
  proof (cases rule: mem)
    case opened
    then show ?thesis
      using i(2) [OF cand(1)] eff sup by (simp add: spec_agrees_def authority_in_window_def)
  next
    case (closed c)
    then show ?thesis
      using i(2,3) [OF closed(3)] eff current [OF closed(1)]
      by (auto simp: spec_agrees_def authority_in_window_def)
  qed (use i in auto)
qed

lemma cutover_candidate_newest:
  assumes pre: "cutover_pre rows aid cand eff"
  shows "candidate_newest (cutover_rows E now eff aid cand rows)"
proof -
  note cand = cutover_preD(2-4) [OF pre] and current = cutover_preD(5) [OF pre] and eff = cutover_preD(6-8) [OF pre]
    and sup = cutover_preD(9) [OF pre] and inv = cutover_preD(1) [OF pre]
  note i = timeline_invD [OF inv]
  note mem = cutover_rows_mem [OF i(1) cand, consumes 1, case_names opened closed kept]
  let ?rows = "cutover_rows E now eff aid cand rows"
  show ?thesis
    unfolding candidate_newest_def
  proof (intro ballI impI)
    fix x y assume x: "x \<in> set ?rows" and y: "y \<in> set ?rows" and xy: "candidate_row x \<and> ar_id y = ar_id x"
    have kx: "x \<in> set rows" using x xy by (cases rule: mem) auto
    have "\<exists>y'\<in>set rows. ar_gen y' = ar_gen y \<and> ar_id y' = ar_id y"
      using y cand(1) by (cases rule: mem) auto
    then show "ar_gen y \<le> ar_gen x"
      using candidate_newestD [OF i(4) kx] xy by metis
  qed
qed

lemma cutover_authority_ordered:
  assumes pre: "cutover_pre rows aid cand eff"
  shows "authority_ordered (cutover_rows E now eff aid cand rows)"
proof -
  note cand = cutover_preD(2-4) [OF pre] and current = cutover_preD(5) [OF pre] and eff = cutover_preD(6-8) [OF pre]
    and sup = cutover_preD(9) [OF pre] and inv = cutover_preD(1) [OF pre]
  note i = timeline_invD [OF inv]
  note mem = cutover_rows_mem [OF i(1) cand, consumes 1, case_names opened closed kept]
  let ?rows = "cutover_rows E now eff aid cand rows"
  show ?thesis
    unfolding authority_ordered_def
  proof (intro ballI allI impI)
    fix r s u f
    assume r: "r \<in> set ?rows" and s: "s \<in> set ?rows"
      and rs: "ar_id r = ar_id s \<and> ar_gen r < ar_gen s \<and> ar_until_ns r = Some u \<and> ar_from_ns s = Some f"
    show "u \<le> f"
      using r
    proof (cases rule: mem)
      case opened
      have "ar_gen s \<le> ar_gen cand"
        using s candidate_newestD [OF i(4) cand(1)] cand rs opened by (cases rule: mem) auto
      then show ?thesis using rs opened by simp
    next
      case (closed c)
      show ?thesis using s
      proof (cases rule: mem)
        case kept
        have "\<exists>c'. List.find (current_of aid) rows = Some c' \<and> ar_gen s < ar_gen c'"
          using kept_before_current [OF inv kept(1) _ _ kept(3)] rs closed by auto
        then show ?thesis using closed rs by simp
      qed (use closed rs eff in auto)
    next
      case r: kept
      show ?thesis using s
      proof (cases rule: mem)
        case opened
        have "ar_from_ns r \<noteq> None" using i(3) [OF r(1)] rs by (auto simp: authority_in_window_def)
        then obtain c where c: "List.find (current_of aid) rows = Some c"
          "\<And>u f. ar_until_ns r = Some u \<Longrightarrow> ar_from_ns c = Some f \<Longrightarrow> u \<le> f"
          using kept_before_current [OF inv r(1) _ _ r(3)] rs opened cand by auto
        then show ?thesis using current [OF c(1)] rs opened eff by force
      next
        case (closed c)
        then show ?thesis using authority_orderedD [OF i(5) r(1) closed(3)] rs by simp
      next
        case kept
        then show ?thesis using authority_orderedD [OF i(5) r(1) kept(1)] rs by simp
      qed
    qed
  qed
qed

lemma cutover_has_successor:
  assumes pre: "cutover_pre rows aid cand eff"
  shows "closed_has_successor (cutover_rows E now eff aid cand rows)"
proof -
  note cand = cutover_preD(2-4) [OF pre] and current = cutover_preD(5) [OF pre] and eff = cutover_preD(6-8) [OF pre]
    and sup = cutover_preD(9) [OF pre] and inv = cutover_preD(1) [OF pre]
  note i = timeline_invD [OF inv]
  note mem = cutover_rows_mem [OF i(1) cand, consumes 1, case_names opened closed kept]
  let ?rows = "cutover_rows E now eff aid cand rows"
  note opened = opened_mem [OF pre, of E now]
  show ?thesis
    unfolding closed_has_successor_def
  proof (intro ballI impI)
    fix r assume r: "r \<in> set ?rows" and nc: "ar_from_ns r \<noteq> None \<and> \<not> current_row r"
    show "\<exists>s\<in>set ?rows. current_row s \<and> ar_id s = ar_id r \<and> ar_gen r < ar_gen s"
      using r
    proof (cases rule: mem)
      case opened
      then show ?thesis using nc by simp
    next
      case (closed c)
      then show ?thesis using opened current [OF closed(1)] cand by (intro bexI [OF _ opened]) auto
    next
      case kept
      show ?thesis
      proof (cases "ar_id r = aid")
        case True
        with kept_before_current [OF inv kept(1) True _ kept(3)] nc obtain c where
          "List.find (current_of aid) rows = Some c" "ar_gen r < ar_gen c" by auto
        then show ?thesis using current cand True by (intro bexI [OF _ opened]) fastforce+
      next
        case False
        from closed_has_successorD [OF i(6) kept(1)] nc obtain s where
          s: "s \<in> set rows" "current_row s" "ar_id s = ar_id r" "ar_gen r < ar_gen s" by auto
        then have "s \<in> set ?rows"
          unfolding cutover_rows_map [OF i(1) cand] using False cand
          by (force dest: find_Some_iff_mem simp: current_of_def)
        then show ?thesis using s by blast
      qed
    qed
  qed
qed

lemma cutover_identity:
  assumes pre: "cutover_pre rows aid cand eff"
  shows "identity_stable (cutover_rows E now eff aid cand rows)"
proof -
  note cand = cutover_preD(2-4) [OF pre] and current = cutover_preD(5) [OF pre] and eff = cutover_preD(6-8) [OF pre]
    and sup = cutover_preD(9) [OF pre] and inv = cutover_preD(1) [OF pre]
  note i = timeline_invD [OF inv]
  note mem = cutover_rows_mem [OF i(1) cand, consumes 1, case_names opened closed kept]
  let ?rows = "cutover_rows E now eff aid cand rows"
  show ?thesis
    unfolding identity_stable_def
  proof (intro ballI impI)
    fix r s assume r: "r \<in> set ?rows" and s: "s \<in> set ?rows" and rs: "ar_id r = ar_id s"
    have "\<exists>y\<in>set rows. ar_id y = ar_id x \<and> ar_aircraft y = ar_aircraft x \<and> ar_flight y = ar_flight x \<and>
        ar_intent y = ar_intent x" if "x \<in> set ?rows" for x
      using that cand(1) by (cases rule: mem) auto
    from this [OF r] this [OF s] show "ar_aircraft r = ar_aircraft s \<and> ar_flight r = ar_flight s \<and> ar_intent r = ar_intent s"
      using rs identity_stableD [OF i(7)] by metis
  qed
qed

lemma cutover_timeline:
  assumes "cutover_pre rows aid cand eff" and "assignments_ok (cutover_rows E now eff aid cand rows)"
  shows "timeline_inv (cutover_rows E now eff aid cand rows)"
  using cutover_rows_agree [OF assms(1)] cutover_candidate_newest [OF assms(1)]
    cutover_authority_ordered [OF assms(1)] cutover_has_successor [OF assms(1)]
    cutover_identity [OF assms(1)] assms(2) by (auto simp: timeline_inv_def)

lemma CutoverAssignment_pre:
  assumes "timeline_inv (assignments d)" "lookup_row aid gen d = Some cand" "ar_lifecycle cand = AssignmentArmed"
    "supportedUnixNanoseconds eff" "asg_EffectiveFrom (ar_spec cand) \<le> eff" "eff < asg_EffectiveUntil (ar_spec cand)"
    "\<forall>c. List.find (current_of aid) (assignments d) = Some c \<longrightarrow> boundary_ok eff aid gen d c"
  shows "cutover_pre (assignments d) aid cand eff"
proof -
  have "ar_gen c < ar_gen cand \<and> (\<exists>f u. ar_from_ns c = Some f \<and> f < eff \<and> ar_until_ns c = Some u \<and> eff \<le> u)"
    if "List.find (current_of aid) (assignments d) = Some c" for c
  proof -
    have "boundary_ok eff aid gen d c" using assms(7) that by blast
    then show ?thesis
      using assms(4) lookup_row_Some [OF assms(2)] by (auto simp: boundary_ok_def split: option.splits)
  qed
  then show ?thesis using assms(1-6) lookup_row_Some [OF assms(2)] by (simp add: cutover_pre_def)
qed

lemma CutoverAssignment_timeline:
  assumes inv: "timeline_inv (assignments d)"
    and run: "CutoverAssignment E now source msg aid gen eff d = Inr (res, d')"
  shows "timeline_inv (assignments d')"
  using run
proof (cases rule: CutoverAssignment_cases)
  case (applied cand)
  have "cutover_pre (assignments d) aid cand eff"
    by (rule CutoverAssignment_pre [OF inv applied(4,5,1,6,7,8)])
  then show ?thesis using cutover_timeline applied(9,10) by metis
qed (use inv in simp)

end
