(* ===== verification/Store_Watermarks.thy ===== *)
theory Store_Watermarks
  imports Store_Timeline "HOL-Library.Product_Lexorder"
begin

text \<open>
  The invariant of the evidence tables: the checkpoints of a generation carry the revisions
  1 to its evaluation revision, in the order of their telemetry cursors and inside its
  authority interval, and its summary repeats the last of them. The cursor order is the
  lexicographic order on (nanoseconds, WAL, sequence, frame) that \<^verbatim>\<open>compareEvaluationCursor\<close>
  decides.
\<close>

type_synonym cursor = "int \<times> string \<times> nat \<times> string"

definition checkpoint_cursor :: "checkpoint_row \<Rightarrow> cursor" where
  "checkpoint_cursor c = (cp_through_ns c, cp_wal c, cp_seq c, cp_frame c)"

definition evaluation_cursor :: "evaluation \<Rightarrow> cursor" where
  "evaluation_cursor e = (UnixNano (ev_ObservedAt e), ev_WALID e, ev_WALSequence e, ev_FrameID e)"

lemma compareEvaluationCursor_order:
  "compareEvaluationCursor e ns w q f < 0 \<longleftrightarrow> evaluation_cursor e < (ns, w, q, f)"
  "compareEvaluationCursor e ns w q f = 0 \<longleftrightarrow> evaluation_cursor e = (ns, w, q, f)"
  by (auto simp: compareEvaluationCursor_def evaluation_cursor_def strings_Compare_def less_prod_def less_eq_prod_def)

section \<open>Greatest rows\<close>

lemma greatest_sorted: "sorted_wrt lt xs \<Longrightarrow> xs \<noteq> [] \<Longrightarrow> greatest lt xs = Some (last xs)"
proof (induction xs)
  case (Cons x xs)
  then show ?case by (cases xs) auto
qed simp

lemma sorted_map_last:
  fixes f :: "'a \<Rightarrow> 'b :: linorder"
  shows "sorted_wrt (\<le>) (map f xs) \<Longrightarrow> x \<in> set xs \<Longrightarrow> f x \<le> f (last xs)"
  by (induction xs) auto

section \<open>Writing an evaluation\<close>

text \<open>Writing transitions touches the incident and event tables only.\<close>

definition other_tables ::
  "db \<Rightarrow> assignment_row list \<times> inbox_row list \<times> checkpoint_row list \<times> summary_row list \<times> outbox_row list \<times>
     transition_row list" where
  "other_tables d = (assignments d, inbox d, checkpoints d, summaries d, outbox d, transitions d)"

lemma mutate_incident_frame: "mutate_incident E a pl t d = Inr (iid, d') \<Longrightarrow> other_tables d' = other_tables d"
  by (auto simp: mutate_incident_def open_incident_def find_opening_def other_tables_def Let_def
      split: transition.splits option.splits if_splits)

lemma put_event_frame: "put_event row d = Inr d' \<Longrightarrow> other_tables d' = other_tables d"
  by (auto simp: put_event_def other_tables_def split: option.splits if_splits)

lemma materialize_resolution_frame:
  "materialize_resolution E a pl t iid eid d = Inr d' \<Longrightarrow> other_tables d' = other_tables d"
  by (auto simp: materialize_resolution_def other_tables_def Let_def split: if_splits)

lemma write_transition_frame: "write_transition E a n pl t d = Inr d' \<Longrightarrow> other_tables d' = other_tables d"
  unfolding write_transition_def
  by (auto simp: monad_splits split: if_splits
      dest!: mutate_incident_frame put_event_frame materialize_resolution_frame)

lemma write_transitions_frame: "write_transitions E a n pl ts d = Inr d' \<Longrightarrow> other_tables d' = other_tables d"
  by (induction ts arbitrary: d) (auto simp: monad_splits dest!: write_transition_frame)

text \<open>A successful write appends one checkpoint past the newest one and makes the summary repeat it.\<close>

lemma upsert_summary_Inr:
  assumes "upsert_summary row d = Inr d'"
  shows "other_tables (d'\<lparr>summaries := []\<rparr>) = other_tables (d\<lparr>summaries := []\<rparr>)"
    "lookup_summary aid gen d' =
       (if aid = sum_aid row \<and> gen = sum_gen row then Some row else lookup_summary aid gen d)"
    "\<forall>s\<in>set (summaries d'). s = row \<or> s \<in> set (summaries d)"
    "has_assignment d (sum_aid row) (sum_gen row) \<or> (\<exists>s\<in>set (summaries d). sum_aid s = sum_aid row \<and> sum_gen s = sum_gen row)"
proof -
  let ?same = "\<lambda>s. sum_aid s = sum_aid row \<and> sum_gen s = sum_gen row"
  have find_upd: "List.find (\<lambda>s. sum_aid s = aid \<and> sum_gen s = gen) (update_where ?same (\<lambda>_. row) xs) =
      (if ?same row \<and> aid = sum_aid row \<and> gen = sum_gen row \<and> (\<exists>s\<in>set xs. ?same s) then Some row
       else List.find (\<lambda>s. sum_aid s = aid \<and> sum_gen s = gen) xs)" for xs aid gen
    by (induction xs) (auto simp: update_where_def)
  have find_app: "List.find P (xs @ [y]) = (case List.find P xs of None \<Rightarrow> if P y then Some y else None | Some x \<Rightarrow> Some x)"
    for P and xs and y :: summary_row
    by (induction xs) auto
  have none: "rows_affected ?same xs = 0 \<Longrightarrow> List.find ?same xs = None" for xs
    by (auto simp: rows_affected_def find_None_iff_mem filter_empty_conv)
  have ex: "rows_affected ?same xs \<noteq> 0 \<longleftrightarrow> (\<exists>s\<in>set xs. ?same s)" for xs
    by (auto simp: rows_affected_def filter_empty_conv)
  show "other_tables (d'\<lparr>summaries := []\<rparr>) = other_tables (d\<lparr>summaries := []\<rparr>)"
    using assms by (auto simp: upsert_summary_def other_tables_def Let_def split: if_splits)
  show "lookup_summary aid gen d' =
       (if aid = sum_aid row \<and> gen = sum_gen row then Some row else lookup_summary aid gen d)"
    using assms none [of "summaries d"] ex [of "summaries d"]
    by (auto simp: upsert_summary_def lookup_summary_def Let_def find_upd find_app split: if_splits option.splits)
  show "\<forall>s\<in>set (summaries d'). s = row \<or> s \<in> set (summaries d)"
    using assms by (auto simp: upsert_summary_def Let_def split: if_splits)
  show "has_assignment d (sum_aid row) (sum_gen row) \<or> (\<exists>s\<in>set (summaries d). ?same s)"
    using assms ex [of "summaries d"] by (auto simp: upsert_summary_def Let_def split: if_splits)
qed

definition checked_cursor :: "string \<Rightarrow> nat \<Rightarrow> evaluation \<Rightarrow> bool \<Rightarrow> db \<Rightarrow> bool" where
  "checked_cursor aid gen e allowEqual d \<longleftrightarrow>
     (\<forall>c. newest_checkpoint aid gen d = Some c \<longrightarrow>
        checkpoint_cursor c < evaluation_cursor e \<or> (allowEqual \<and> checkpoint_cursor c = evaluation_cursor e))"

definition confirmed :: "evaluation \<Rightarrow> evaluation" where
  "confirmed e = e\<lparr>ev_Recording := RecordingConfirmed\<rparr>"

lemma writeEvaluation_Inr:
  assumes "writeEvaluation E now a n e allowEqual publish d = Inr d'"
  shows "assignments d' = assignments d" "inbox d' = inbox d"
    "checkpoints d' = checkpoints d @ [checkpoint_entry E a n (confirmed e)]"
    "lookup_summary aid gen d' = (if aid = asg_ID a \<and> gen = asg_Generation a
       then Some (summary_entry E a n (confirmed e)) else lookup_summary aid gen d)"
    "\<forall>s\<in>set (summaries d'). s = summary_entry E a n (confirmed e) \<or> s \<in> set (summaries d)"
    "checked_cursor (asg_ID a) (asg_Generation a) e allowEqual d"
    "has_assignment d (asg_ID a) (asg_Generation a)"
    "outbox d' = outbox d \<or> (publish \<and> outbox d' = outbox d @ [registry_outbox now a n (confirmed e)])"
proof -
  obtain d1 d2 d3 where
    guard: "case newest_checkpoint (asg_ID a) (asg_Generation a) d of None \<Rightarrow> True
      | Some c \<Rightarrow> (let k = compareEvaluationCursor e (cp_through_ns c) (cp_wal c) (cp_seq c) (cp_frame c) in
          \<not> (k < 0 \<or> (k = 0 \<and> \<not> allowEqual)))"
    and d1: "write_transitions E a n (confirmed e) (ev_Transitions (confirmed e)) d = Inr d1"
    and d2: "insert_checkpoint (checkpoint_entry E a n (confirmed e)) d1 = Inr d2"
    and d3: "upsert_summary (summary_entry E a n (confirmed e)) d2 = Inr d3"
    and d': "d' = (if publish then enqueue_live (registry_outbox now a n (confirmed e)) d3 else d3)"
    using assms
    by (auto simp: writeEvaluation_def confirmed_def monad_splits Let_def split: option.splits)
  note f1 = write_transitions_frame [OF d1] and f3 = upsert_summary_Inr [OF d3]
  have d'3: "other_tables (d'\<lparr>outbox := []\<rparr>) = other_tables (d3\<lparr>outbox := []\<rparr>)"
    "outbox d' = outbox d3 \<or> (publish \<and> outbox d' = outbox d3 @ [registry_outbox now a n (confirmed e)])"
    using d' by (auto simp: enqueue_live_def other_tables_def)
  have entry: "sum_aid (summary_entry E a n (confirmed e)) = asg_ID a"
    "sum_gen (summary_entry E a n (confirmed e)) = asg_Generation a"
    "cp_aid (checkpoint_entry E a n (confirmed e)) = asg_ID a"
    "cp_gen (checkpoint_entry E a n (confirmed e)) = asg_Generation a"
    by (simp_all add: summary_entry_def checkpoint_entry_def)
  note all = f1 d2 f3(1) d'3(1)
  show "assignments d' = assignments d" "inbox d' = inbox d"
    "checkpoints d' = checkpoints d @ [checkpoint_entry E a n (confirmed e)]"
    using all by (auto simp: other_tables_def stmt)
  have sums: "summaries d' = summaries d3" "summaries d2 = summaries d"
    using all by (auto simp: other_tables_def stmt)
  then have look: "lookup_summary aid gen d' = lookup_summary aid gen d3"
    "lookup_summary aid gen d2 = lookup_summary aid gen d" for aid gen
    by (simp_all add: lookup_summary_def)
  show "lookup_summary aid gen d' = (if aid = asg_ID a \<and> gen = asg_Generation a
       then Some (summary_entry E a n (confirmed e)) else lookup_summary aid gen d)"
    using f3(2) [of aid gen] look entry by simp
  show "\<forall>s\<in>set (summaries d'). s = summary_entry E a n (confirmed e) \<or> s \<in> set (summaries d)"
    using f3(3) sums by simp
  show "checked_cursor (asg_ID a) (asg_Generation a) e allowEqual d"
    using guard by (auto simp: checked_cursor_def Let_def checkpoint_cursor_def compareEvaluationCursor_order
        split: option.splits)
  show "has_assignment d (asg_ID a) (asg_Generation a)"
    using all entry by (auto simp: stmt has_assignment_def other_tables_def)
  show "outbox d' = outbox d \<or> (publish \<and> outbox d' = outbox d @ [registry_outbox now a n (confirmed e)])"
    using d'3(2) all by (auto simp: other_tables_def stmt)
qed

section \<open>The invariant\<close>

text \<open>The checkpoints of the generation of a row, oldest first.\<close>

abbreviation row_checkpoints :: "db \<Rightarrow> assignment_row \<Rightarrow> checkpoint_row list" where
  "row_checkpoints d r \<equiv> generation_checkpoints (ar_id r) (ar_gen r) d"

definition summary_repeats :: "summary_row option \<Rightarrow> checkpoint_row list \<Rightarrow> bool" where
  "summary_repeats s cps \<longleftrightarrow>
     (case s of None \<Rightarrow> cps = []
      | Some s \<Rightarrow> cps \<noteq> [] \<and> sum_rev s = cp_rev (last cps) \<and> sum_observed_ns s = cp_through_ns (last cps))"

definition row_watermark :: "db \<Rightarrow> assignment_row \<Rightarrow> bool" where
  "row_watermark d r \<longleftrightarrow>
     map cp_rev (row_checkpoints d r) = [1..<Suc (ar_evaluation_revision r)] \<and>
     sorted_wrt (\<le>) (map checkpoint_cursor (row_checkpoints d r)) \<and>
     (current_row r \<longrightarrow> sorted_wrt (<) (map checkpoint_cursor (row_checkpoints d r))) \<and>
     (\<forall>c\<in>set (row_checkpoints d r). authority_covers (cp_through_ns c) r) \<and>
     summary_repeats (lookup_summary (ar_id r) (ar_gen r) d) (row_checkpoints d r)"

definition evidence_owned :: "db \<Rightarrow> bool" where
  "evidence_owned d \<longleftrightarrow>
     (\<forall>c\<in>set (checkpoints d). has_assignment d (cp_aid c) (cp_gen c)) \<and>
     (\<forall>s\<in>set (summaries d). has_assignment d (sum_aid s) (sum_gen s))"

definition watermark_inv :: "db \<Rightarrow> bool" where
  "watermark_inv d \<longleftrightarrow> evidence_owned d \<and> (\<forall>r\<in>set (assignments d). row_watermark d r)"

lemma watermark_empty [simp]: "watermark_inv empty_db"
  by (simp add: watermark_inv_def evidence_owned_def empty_db_def)

lemma evidence_tables_eqD:
  assumes "evidence_tables d' = evidence_tables d"
  shows "generation_checkpoints aid gen d' = generation_checkpoints aid gen d"
    "lookup_summary aid gen d' = lookup_summary aid gen d"
    "checkpoints d' = checkpoints d" "summaries d' = summaries d"
  using assms by (simp_all add: evidence_tables_def generation_checkpoints_def lookup_summary_def)

lemma watermark_keep:
  assumes "row_watermark d r" "evidence_tables d' = evidence_tables d"
    and "ar_id r' = ar_id r" "ar_gen r' = ar_gen r" "ar_evaluation_revision r' = ar_evaluation_revision r"
    and "current_row r' \<Longrightarrow> current_row r \<or> row_checkpoints d r = []"
    and "\<And>c. c \<in> set (row_checkpoints d r) \<Longrightarrow> authority_covers (cp_through_ns c) r'"
  shows "row_watermark d' r'"
  using assms unfolding row_watermark_def by (auto simp: evidence_tables_eqD [OF assms(2)])

lemma row_watermark_covers:
  "row_watermark d r \<Longrightarrow> c \<in> set (row_checkpoints d r) \<Longrightarrow> authority_covers (cp_through_ns c) r"
  by (simp add: row_watermark_def)

lemma watermark_keep_same:
  assumes w: "row_watermark d r" and ev: "evidence_tables d' = evidence_tables d"
    and same: "ar_id r' = ar_id r" "ar_gen r' = ar_gen r" "ar_evaluation_revision r' = ar_evaluation_revision r"
      "ar_from_ns r' = ar_from_ns r" "ar_until_ns r' = ar_until_ns r" "current_row r' \<Longrightarrow> current_row r"
  shows "row_watermark d' r'"
  by (rule watermark_keep [OF w ev same(1-3)])
    (use same row_watermark_covers [OF w] in \<open>simp_all add: authority_covers_def\<close>)

lemma evidence_owned_keep:
  assumes "evidence_owned d" "evidence_tables d' = evidence_tables d"
    "set (map row_key (assignments d)) \<subseteq> set (map row_key (assignments d'))"
  shows "evidence_owned d'"
  using assms(1,3) unfolding evidence_owned_def has_assignment_def evidence_tables_eqD [OF assms(2)] by blast

text \<open>Changing leases and schedules.\<close>

lemma watermark_update:
  assumes inv: "watermark_inv d" and ev: "evidence_tables d' = evidence_tables d"
    and rows: "assignments d' = update_where P f (assignments d)"
    and f: "\<And>r. authority_view (f r) = authority_view r" "\<And>r. ar_evaluation_revision (f r) = ar_evaluation_revision r"
  shows "watermark_inv d'"
proof -
  have keys: "map row_key (assignments d') = map row_key (assignments d)"
    unfolding rows by (rule map_update_where) (simp add: authority_viewD [OF f(1)])
  have "row_watermark d' r'" if "r' \<in> set (assignments d')" for r'
  proof -
    from that obtain r where r: "r \<in> set (assignments d)" "r' = (if P r then f r else r)" unfolding rows by auto
    have v: "authority_view r' = authority_view r" using r(2) f(1) by simp
    have w: "row_watermark d r" using inv r(1) by (simp add: watermark_inv_def)
    show ?thesis
      by (rule watermark_keep_same [OF w ev]) (use authority_viewD [OF v] r(2) f(2) in auto)
  qed
  then show ?thesis
    using evidence_owned_keep [OF _ ev] inv by (simp add: watermark_inv_def keys del: set_map)
qed

text \<open>A generation without evidence.\<close>

lemma no_evidence:
  assumes "evidence_owned d" "\<not> has_assignment d aid gen"
  shows "generation_checkpoints aid gen d = []" "lookup_summary aid gen d = None"
  using assms by (auto simp: evidence_owned_def generation_checkpoints_def lookup_summary_def filter_empty_conv
      find_None_iff_mem)

lemma candidate_no_checkpoints:
  assumes "row_watermark d r" "ar_from_ns r = None"
  shows "row_checkpoints d r = []"
  using assms unfolding row_watermark_def authority_covers_def by (auto intro: ccontr)

lemma PrepareAssignment_watermark:
  assumes inv: "watermark_inv d" and run: "PrepareAssignment E now source msg ty a d = Inr (res, d')"
  shows "watermark_inv d'"
  using run
proof (cases rule: PrepareAssignment_cases)
  case (known current)
  then show ?thesis using inv
    by (auto simp: stmt watermark_inv_def evidence_owned_def has_assignment_def row_watermark_def
        generation_checkpoints_def lookup_summary_def)
next
  case stored
  note st = store_candidate_Inr [OF stored(6)]
  let ?rows = "update_where (candidate_of (asg_ID a)) (release AssignmentSuperseded now) (assignments d)"
  have keys: "map row_key ?rows = map row_key (assignments d)" by (rule map_update_where) simp
  have new: "\<not> has_assignment d (asg_ID a) (asg_Generation a)"
    using stored(3) by (auto simp: has_assignment_def)
  have own: "evidence_owned d" using inv by (simp add: watermark_inv_def)
  have "row_watermark d' r'" if "r' \<in> set (assignments d')" for r'
  proof (cases "r' = new_candidate now a")
    case True
    then show ?thesis
      using no_evidence [OF own new] evidence_tables_eqD [OF st(3)]
      by (simp add: row_watermark_def summary_repeats_def) (simp add: new_candidate_def)
  next
    case False
    with that st(1) obtain r where r: "r \<in> set (assignments d)"
      "r' = (if candidate_of (asg_ID a) r then release AssignmentSuperseded now r else r)" by auto
    have w: "row_watermark d r" using inv r(1) by (simp add: watermark_inv_def)
    show ?thesis
      by (rule watermark_keep_same [OF w st(3)]) (use r(2) in \<open>auto split: if_splits\<close>)
  qed
  moreover have "evidence_owned d'"
    by (rule evidence_owned_keep [OF own st(3)]) (use st(1) keys in \<open>auto simp del: set_map simp: st(1)\<close>)
  ultimately show ?thesis by (simp add: watermark_inv_def)
qed (use inv in simp)

lemma candidate_update_map:
  "candidate_update now aid gen target rows =
     map (\<lambda>r. if ar_id r = aid \<and> ar_gen r = gen \<and>
                  (if target = AssignmentArmed then ar_lifecycle r = AssignmentReceived else candidate_row r)
              then if target = AssignmentArmed
                   then r\<lparr>ar_lifecycle := AssignmentArmed, ar_armed_at := Some now, ar_updated_at := now\<rparr>
                   else release AssignmentCancelled now r
              else r) rows"
  by (simp add: candidate_update_def update_where_def)

lemma transitionCandidate_watermark:
  assumes inv: "watermark_inv d" and run: "transitionCandidate E now source msg ty aid gen target d = Inr (res, d')"
  shows "watermark_inv d'"
  using run
proof (cases rule: transitionCandidate_cases)
  case (applied row d1)
  note rec = recordLifecycleCommand_Inr [OF applied(7)]
  have ev: "evidence_tables d' = evidence_tables d" using rec(2) applied(5) by (simp add: evidence_tables_def)
  have rows: "assignments d' = candidate_update now aid gen target (assignments d)" using rec(1) applied(5) by simp
  have keys: "map row_key (assignments d') = map row_key (assignments d)"
    by (simp add: rows candidate_update_map)
  have "row_watermark d' r'" if "r' \<in> set (assignments d')" for r'
  proof -
    from that obtain r where r: "r \<in> set (assignments d)" "ar_id r' = ar_id r" "ar_gen r' = ar_gen r"
      "ar_evaluation_revision r' = ar_evaluation_revision r" "ar_from_ns r' = ar_from_ns r"
      "ar_until_ns r' = ar_until_ns r" "current_row r' \<Longrightarrow> current_row r"
      unfolding rows candidate_update_map by (auto split: if_splits)
    have "row_watermark d r" using inv r(1) by (simp add: watermark_inv_def)
    from this ev r(2-7) show ?thesis by (rule watermark_keep_same)
  qed
  then show ?thesis
    using evidence_owned_keep [OF _ ev] inv by (simp add: watermark_inv_def keys del: set_map)
qed (use inv in simp)

text \<open>The summary is the watermark of its generation: no checkpoint lies past it.\<close>

lemma checkpoint_below_summary:
  assumes w: "row_watermark d r" and s: "lookup_summary (ar_id r) (ar_gen r) d = Some s"
    and c: "c \<in> set (row_checkpoints d r)"
  shows "cp_through_ns c \<le> sum_observed_ns s"
proof -
  let ?cps = "row_checkpoints d r"
  have "sorted_wrt (\<le>) (map checkpoint_cursor ?cps)" "sum_observed_ns s = cp_through_ns (last ?cps)" "?cps \<noteq> []"
    using w s by (auto simp: row_watermark_def summary_repeats_def)
  moreover have "checkpoint_cursor c \<le> checkpoint_cursor (last ?cps)"
    using calculation(1) c by (rule sorted_map_last)
  ultimately show ?thesis by (auto simp: checkpoint_cursor_def less_eq_prod_def)
qed

lemma cutover_row_origin:
  assumes ok: "assignments_ok rows" and cand: "cand \<in> set rows" "ar_id cand = aid" "ar_lifecycle cand = AssignmentArmed"
  shows "map row_key (cutover_rows E now eff aid cand rows) = map row_key rows"
  unfolding cutover_rows_map [OF ok cand] by simp

lemma CutoverAssignment_watermark:
  assumes tl: "timeline_inv (assignments d)" and inv: "watermark_inv d"
    and run: "CutoverAssignment E now source msg aid gen eff d = Inr (res, d')"
  shows "watermark_inv d'"
  using run
proof (cases rule: CutoverAssignment_cases)
  case (applied cand)
  note cand = lookup_row_Some [OF applied(4)]
  note ok = timeline_invD(1) [OF tl] and ev = applied(11)
  have cand': "cand \<in> set (assignments d)" "ar_id cand = aid" "ar_lifecycle cand = AssignmentArmed"
    using cand applied(5) by auto
  note mem = cutover_rows_mem [OF ok cand', consumes 1, case_names opened closed kept]
  have w: "row_watermark d r" if "r \<in> set (assignments d)" for r using inv that by (simp add: watermark_inv_def)
  have "row_watermark d' r'" if "r' \<in> set (assignments d')" for r'
    using that unfolding applied(9)
  proof (cases rule: mem)
    case opened
    have "row_checkpoints d cand = []"
      by (rule candidate_no_checkpoints [OF w [OF cand'(1)]])
        (use candidate_no_authority [OF row_ok [OF ok cand'(1)]] cand'(3) in simp)
    then show ?thesis
      by (intro watermark_keep [OF w [OF cand'(1)] ev]) (simp_all add: opened)
  next
    case (closed c)
    have b: "boundary_ok eff aid gen d c" using applied(8) closed(1) by blast
    have "authority_covers (cp_through_ns k) r'" if k: "k \<in> set (row_checkpoints d c)" for k
    proof -
      have "lookup_summary (ar_id c) (ar_gen c) d \<noteq> None"
        using w [OF closed(3)] k by (auto simp: row_watermark_def summary_repeats_def split: option.splits)
      then obtain s where s: "lookup_summary (ar_id c) (ar_gen c) d = Some s" by auto
      have "cp_through_ns k < UnixNano eff"
        using checkpoint_below_summary [OF w [OF closed(3)] s k] b s closed(4) by (auto simp: boundary_ok_def)
      then show ?thesis
        using row_watermark_covers [OF w [OF closed(3)] k] closed(2)
        by (auto simp: authority_covers_def split: option.splits)
    qed
    then show ?thesis by (intro watermark_keep [OF w [OF closed(3)] ev]) (simp_all add: closed(2))
  next
    case kept
    then show ?thesis by (intro watermark_keep_same [OF w ev]) simp_all
  qed
  moreover have "evidence_owned d'"
    by (rule evidence_owned_keep [OF _ ev])
      (use inv cutover_row_origin [OF ok cand'] in \<open>simp_all add: watermark_inv_def applied(9) del: set_map\<close>)
  ultimately show ?thesis by (simp add: watermark_inv_def)
qed (use inv in simp)

end
