(* ===== verification/Store_Commits.thy ===== *)
theory Store_Commits
  imports Store_Watermarks
begin

text \<open>
  Live and historical commits keep the invariants of the store: a commit counts the revision
  of one row up and appends the matching checkpoint, strictly past the previous one for the
  current generation and not before it for a superseded one.
\<close>

lemma authority_covers_same:
  "ar_from_ns r' = ar_from_ns r \<Longrightarrow> ar_until_ns r' = ar_until_ns r \<Longrightarrow> authority_covers ns r' \<longleftrightarrow> authority_covers ns r"
  by (simp add: authority_covers_def)

lemma newest_checkpoint_last:
  assumes "row_watermark d r" "row_checkpoints d r \<noteq> []"
  shows "newest_checkpoint (ar_id r) (ar_gen r) d = Some (last (row_checkpoints d r))"
proof -
  have "sorted_wrt (<) (map cp_rev (row_checkpoints d r))"
    using assms(1) by (simp only: row_watermark_def sorted_wrt_upt)
  then show ?thesis
    unfolding newest_checkpoint_def sorted_wrt_map by (rule greatest_sorted) (rule assms(2))
qed

lemma sorted_wrt_snoc_last:
  fixes f :: "'a \<Rightarrow> 'b :: linorder"
  assumes "sorted_wrt (<) (map f xs)" "xs \<noteq> [] \<Longrightarrow> f (last xs) < f y"
  shows "sorted_wrt (<) (map f (xs @ [y]))"
proof -
  have "sorted_wrt (\<le>) (map f xs)" using assms(1) by (rule sorted_wrt_mono_rel [rotated]) simp
  then have "f x < f y" if "x \<in> set xs" for x
    using sorted_map_last [of f xs x] assms(2) that by force
  then show ?thesis using assms(1) by (simp add: sorted_wrt_append)
qed

lemma sorted_snoc_last:
  fixes f :: "'a \<Rightarrow> 'b :: linorder"
  assumes "sorted_wrt (\<le>) (map f xs)" "xs \<noteq> [] \<Longrightarrow> f (last xs) \<le> f y"
  shows "sorted_wrt (\<le>) (map f (xs @ [y]))"
proof -
  have "f x \<le> f y" if "x \<in> set xs" for x
    using sorted_map_last [OF assms(1) that] assms(2) that by force
  then show ?thesis using assms(1) by (simp add: sorted_wrt_append)
qed

lemma entry_simps [simp]:
  "cp_aid (checkpoint_entry E a n e) = asg_ID a" "cp_gen (checkpoint_entry E a n e) = asg_Generation a"
  "cp_rev (checkpoint_entry E a n e) = n" "cp_through_ns (checkpoint_entry E a n e) = UnixNano (ev_ObservedAt e)"
  "checkpoint_cursor (checkpoint_entry E a n e) = evaluation_cursor e"
  "sum_aid (summary_entry E a n e) = asg_ID a" "sum_gen (summary_entry E a n e) = asg_Generation a"
  "sum_rev (summary_entry E a n e) = n" "sum_observed_ns (summary_entry E a n e) = UnixNano (ev_ObservedAt e)"
  "ev_ObservedAt (confirmed e) = ev_ObservedAt e" "evaluation_cursor (confirmed e) = evaluation_cursor e"
  "ev_State (confirmed e) = ev_State e"
  by (simp_all add: checkpoint_entry_def summary_entry_def checkpoint_cursor_def evaluation_cursor_def confirmed_def)

text \<open>The row an evaluation is written for, after its revision was counted up.\<close>

lemma written_row:
  assumes w: "row_watermark d row" and ev: "evidence_tables d1 = evidence_tables d"
    and run: "writeEvaluation E now a (ar_evaluation_revision row + 1) e allowEqual publish d1 = Inr d'"
    and key: "ar_id row = asg_ID a" "ar_gen row = asg_Generation a"
    and obs: "authority_covers (UnixNano (ev_ObservedAt e)) row" and live: "current_row row \<Longrightarrow> \<not> allowEqual"
    and r': "ar_id r' = ar_id row" "ar_gen r' = ar_gen row" "ar_evaluation_revision r' = ar_evaluation_revision row + 1"
      "ar_from_ns r' = ar_from_ns row" "ar_until_ns r' = ar_until_ns row" "current_row r' \<Longrightarrow> current_row row"
  shows "row_watermark d' r'"
proof -
  note wr = writeEvaluation_Inr [OF run]
  let ?cps = "row_checkpoints d row" and ?new = "checkpoint_entry E a (ar_evaluation_revision row + 1) (confirmed e)"
  have cps: "row_checkpoints d' r' = ?cps @ [?new]"
    using wr(3) key r'(1,2) evidence_tables_eqD(3) [OF ev] by (simp add: generation_checkpoints_def)
  have "newest_checkpoint (asg_ID a) (asg_Generation a) d1 = newest_checkpoint (ar_id row) (ar_gen row) d"
    using evidence_tables_eqD(1) [OF ev] key by (simp add: newest_checkpoint_def)
  then have cur: "checkpoint_cursor (last ?cps) < evaluation_cursor e \<or>
      (allowEqual \<and> checkpoint_cursor (last ?cps) = evaluation_cursor e)" if "?cps \<noteq> []"
    using wr(6) newest_checkpoint_last [OF w that] by (simp add: checked_cursor_def)
  have "map cp_rev (?cps @ [?new]) = [1..<Suc (ar_evaluation_revision row + 1)]"
    using w by (simp add: row_watermark_def)
  moreover have "sorted_wrt (\<le>) (map checkpoint_cursor (?cps @ [?new]))"
    by (rule sorted_snoc_last) (use w cur in \<open>auto simp: row_watermark_def\<close>)
  moreover have "sorted_wrt (<) (map checkpoint_cursor (?cps @ [?new]))" if "current_row r'"
    by (rule sorted_wrt_snoc_last) (use w cur live r'(6) that in \<open>auto simp: row_watermark_def\<close>)
  moreover have "authority_covers (cp_through_ns c) r'" if "c \<in> set (?cps @ [?new])" for c
    using that row_watermark_covers [OF w] obs authority_covers_same [OF r'(4,5)] by auto
  moreover have "summary_repeats (lookup_summary (ar_id r') (ar_gen r') d') (?cps @ [?new])"
    using wr(4) key r'(1,2) by (simp add: summary_repeats_def)
  ultimately show ?thesis unfolding row_watermark_def cps r'(3) by blast
qed

lemma written_other_row:
  assumes w: "row_watermark d r" and ev: "evidence_tables d1 = evidence_tables d"
    and run: "writeEvaluation E now a n e allowEqual publish d1 = Inr d'"
    and key: "row_key r \<noteq> (asg_ID a, asg_Generation a)"
    and r': "ar_id r' = ar_id r" "ar_gen r' = ar_gen r" "ar_evaluation_revision r' = ar_evaluation_revision r"
      "ar_from_ns r' = ar_from_ns r" "ar_until_ns r' = ar_until_ns r" "current_row r' \<Longrightarrow> current_row r"
  shows "row_watermark d' r'"
proof -
  note wr = writeEvaluation_Inr [OF run]
  have "row_checkpoints d' r' = row_checkpoints d r"
    using wr(3) key r'(1,2) evidence_tables_eqD(3) [OF ev] by (auto simp: generation_checkpoints_def)
  moreover have "lookup_summary (ar_id r') (ar_gen r') d' = lookup_summary (ar_id r) (ar_gen r) d"
    using wr(4) key r'(1,2) evidence_tables_eqD(2) [OF ev] by auto
  ultimately show ?thesis
    using w r' unfolding row_watermark_def by (simp add: authority_covers_def del: upt_Suc)
qed

text \<open>Both commits: the revision of one row is counted up, then the evaluation is written.\<close>

lemma commit_watermark:
  assumes ok: "assignments_ok (assignments d)" and inv: "watermark_inv d"
    and ev: "evidence_tables d1 = evidence_tables d" and rows: "assignments d1 = map g (assignments d)"
    and view: "\<And>r. authority_view (g r) = authority_view r"
    and row: "row \<in> set (assignments d)" "ar_id row = asg_ID a" "ar_gen row = asg_Generation a"
    and revs: "\<And>r. r \<in> set (assignments d) \<Longrightarrow>
      ar_evaluation_revision (g r) = ar_evaluation_revision r + (if r = row then 1 else 0)"
    and obs: "authority_covers (UnixNano (ev_ObservedAt e)) row" and live: "current_row row \<Longrightarrow> \<not> allowEqual"
    and run: "writeEvaluation E now a (ar_evaluation_revision row + 1) e allowEqual publish d1 = Inr d'"
  shows "watermark_inv d'"
proof -
  note wr = writeEvaluation_Inr [OF run] and v = authority_viewD [OF view]
  have keys: "map row_key (assignments d') = map row_key (assignments d)"
    using wr(1) rows v by (simp add: comp_def)
  have "row_watermark d' r'" if "r' \<in> set (assignments d')" for r'
  proof -
    from that wr(1) rows obtain r where r: "r \<in> set (assignments d)" "r' = g r" by auto
    have w: "row_watermark d r" using inv r(1) by (simp add: watermark_inv_def)
    show ?thesis
    proof (cases "r = row")
      case True
      show ?thesis
        by (rule written_row [OF _ ev run row(2,3) obs live])
          (use w r True revs [OF r(1)] v in simp_all)
    next
      case False
      then have key: "row_key r \<noteq> (asg_ID a, asg_Generation a)" using row_key_inj [OF ok r(1) row(1)] row by auto
      show ?thesis
        by (rule written_other_row [OF w ev run key]) (use r False revs [OF r(1)] v in simp_all)
    qed
  qed
  moreover have "evidence_owned d'"
    using inv wr(3,5,7) keys rows v evidence_tables_eqD(3,4) [OF ev]
    by (auto simp: watermark_inv_def evidence_owned_def has_assignment_def simp del: set_map)
      (auto simp: comp_def)
  ultimately show ?thesis by (simp add: watermark_inv_def)
qed


lemma fence_unique:
  assumes ok: "assignments_ok rows" and row: "row \<in> set rows" "P row"
    and key: "\<And>r. P r \<Longrightarrow> ar_id r = aid \<and> ar_gen r = gen" and r: "r \<in> set rows"
  shows "P r \<longleftrightarrow> r = row"
  using row_key_inj [OF ok r row(1)] key [of r] key [OF row(2)] row(2) by metis

abbreviation counted_up :: "store_env \<Rightarrow> gotime \<Rightarrow> evaluation_commit \<Rightarrow> assignment_row \<Rightarrow> assignment_row" where
  "counted_up E now commit r \<equiv> (drop_lease now (timestamptz E (ec_NextEvaluationAt commit)) r)
      \<lparr>ar_evaluation_revision := ar_evaluation_revision r + 1\<rparr>"

text \<open>What a live commit establishes: the fence held, and one row had its revision counted up.\<close>

lemma CommitEvaluation_Inr:
  assumes ok: "assignments_ok (assignments d)" and run: "CommitEvaluation E now c commit d = Inr d'"
  obtains row where "row \<in> set (assignments d)" "lease_fence now c row"
    "ar_evaluation_revision row = cl_EvaluationRevision c"
    "authority_covers (UnixNano (ev_ObservedAt (ec_Evaluation commit))) row"
    "validateEvaluationCommit commit = Inr ()"
    "validateEvaluationWithinAuthority (ec_Evaluation commit) (the (ar_from_ns row)) (the (ar_until_ns row)) = Inr ()"
    "writeEvaluation E now (cl_Assignment c) (ar_evaluation_revision row + 1) (ec_Evaluation commit) False True
       (d\<lparr>assignments := map (\<lambda>r. if r = row
          then counted_up E now commit r else r) (assignments d)\<rparr>) = Inr d'"
    "assignments_ok (assignments d')"
proof -
  let ?fence = "\<lambda>r. lease_fence now c r \<and> ar_evaluation_revision r = cl_EvaluationRevision c \<and>
      authority_covers (UnixNano (ev_ObservedAt (ec_Evaluation commit))) r"
  let ?f = "\<lambda>r. counted_up E now commit r"
  from run obtain row d1 where found: "List.find ?fence (assignments d) = Some row"
    and d1: "put_assignments (update_where ?fence ?f (assignments d)) d = Inr d1"
    and rest: "validateEvaluationCommit commit = Inr ()"
    "validateEvaluationWithinAuthority (ec_Evaluation commit) (the (ar_from_ns row)) (the (ar_until_ns row)) = Inr ()"
    "writeEvaluation E now (cl_Assignment c) (ar_evaluation_revision row + 1) (ec_Evaluation commit) False True d1 = Inr d'"
    by (auto simp: CommitEvaluation_def monad_splits Let_def split: option.splits)
  from find_Some_iff_mem [OF found] have row: "row \<in> set (assignments d)" "?fence row" by auto
  have "?fence r \<longleftrightarrow> r = row" if "r \<in> set (assignments d)" for r
    by (rule fence_unique [where P = ?fence, OF ok row _ that]) (simp add: lease_fence_def)
  then have upd: "update_where ?fence ?f (assignments d) = map (\<lambda>r. if r = row then ?f r else r) (assignments d)"
    unfolding update_where_def by (intro map_cong [OF refl]) simp
  show ?thesis
    by (rule that [OF row(1)]) (use row(2) rest d1 upd writeEvaluation_Inr(1) [OF rest(3)] in \<open>auto simp: stmt\<close>)
qed

lemma CommitEvaluation_inv:
  assumes tl: "timeline_inv (assignments d)" and inv: "watermark_inv d"
    and run: "CommitEvaluation E now c commit d = Inr d'"
  shows "timeline_inv (assignments d')" "watermark_inv d'"
proof -
  note ok = timeline_invD(1) [OF tl]
  from ok run obtain row where row: "row \<in> set (assignments d)" "lease_fence now c row"
    "authority_covers (UnixNano (ev_ObservedAt (ec_Evaluation commit))) row"
    and wr: "writeEvaluation E now (cl_Assignment c) (ar_evaluation_revision row + 1) (ec_Evaluation commit) False True
       (d\<lparr>assignments := map (\<lambda>r. if r = row
          then counted_up E now commit r else r) (assignments d)\<rparr>) = Inr d'"
    and ok': "assignments_ok (assignments d')"
    by (rule CommitEvaluation_Inr) blast
  show "watermark_inv d'"
    by (rule commit_watermark [where g = "\<lambda>r. if r = row
          then counted_up E now commit r else r", OF ok inv _ _ _ row(1) _ _ _ row(3) _ wr])
      (use row(2) in \<open>auto simp: evidence_tables_def lease_fence_def drop_lease_def authority_view_def\<close>)
  have rows: "assignments d' = update_where (\<lambda>r. r = row) (counted_up E now commit) (assignments d)"
    using writeEvaluation_Inr(1) [OF wr] by (simp add: update_where_def)
  show "timeline_inv (assignments d')"
    unfolding rows by (rule timeline_update [OF tl]) (use ok' rows in simp_all)
qed

lemma update_after_drop:
  assumes t: "\<And>r. T (g r) \<longleftrightarrow> T r" and cur: "\<not> T cur" and row: "\<And>r. r \<in> set rows \<Longrightarrow> T r \<longleftrightarrow> r = row"
  shows "update_where T f (map (\<lambda>r. if r = cur then g r else r) rows) =
    map (\<lambda>r. if r = row then f r else if r = cur then g r else r) rows"
proof -
  have "(if T (if r = cur then g r else r) then f (if r = cur then g r else r) else if r = cur then g r else r) =
      (if r = row then f r else if r = cur then g r else r)" if "r \<in> set rows" for r
    using t [of cur] cur row [OF that] by (cases "r = cur") auto
  then show ?thesis unfolding update_where_def map_map comp_def by (rule map_cong [OF refl])
qed

text \<open>The historical commit: the current lease is consumed, the superseded row is counted up.\<close>

lemma CommitHistoricalEvaluation_Inr:
  assumes ok: "assignments_ok (assignments d)" and run: "CommitHistoricalEvaluation E now c hist commit d = Inr d'"
  obtains cur row where "cur \<in> set (assignments d)" "lease_fence now c cur" "hist < asg_Generation (cl_Assignment c)"
    "row \<in> set (assignments d)" "ar_id row = asg_ID (cl_Assignment c)" "ar_gen row = hist"
    "ar_lifecycle row = AssignmentSuperseded"
    "authority_covers (UnixNano (ev_ObservedAt (ec_Evaluation commit))) row"
    "validateEvaluationCommit commit = Inr ()"
    "validateEvaluationWithinAuthority (ec_Evaluation commit) (the (ar_from_ns row)) (the (ar_until_ns row)) = Inr ()"
    "writeEvaluation E now (ar_spec row) (ar_evaluation_revision row + 1) (ec_Evaluation commit) True False
       (d\<lparr>assignments := map (\<lambda>r. if r = row then r\<lparr>ar_evaluation_revision := ar_evaluation_revision r + 1, ar_updated_at := now\<rparr>
          else if r = cur then drop_lease now (timestamptz E (ec_NextEvaluationAt commit)) r else r) (assignments d)\<rparr>) = Inr d'"
    "assignments_ok (assignments d')"
proof -
  let ?fence = "\<lambda>r. lease_fence now c r \<and> ar_evaluation_revision r = cl_EvaluationRevision c \<and>
      authority_open now r"
  let ?drop = "drop_lease now (timestamptz E (ec_NextEvaluationAt commit))"
  let ?target = "\<lambda>r. ar_id r = asg_ID (cl_Assignment c) \<and> ar_gen r = hist \<and>
      ar_lifecycle r = AssignmentSuperseded \<and> authority_covers (UnixNano (ev_ObservedAt (ec_Evaluation commit))) r"
  let ?up = "\<lambda>r. r\<lparr>ar_evaluation_revision := ar_evaluation_revision r + 1, ar_updated_at := now\<rparr>"
  from run obtain d1 row d2 where hist: "hist < asg_Generation (cl_Assignment c)"
    and d1: "fenced_update ?fence ?drop d = Inr d1"
    and found: "List.find ?target (assignments d1) = Some row"
    and d2: "put_assignments (update_where ?target ?up (assignments d1)) d1 = Inr d2"
    and rest: "validateEvaluationCommit commit = Inr ()"
    "validateEvaluationWithinAuthority (ec_Evaluation commit) (the (ar_from_ns row)) (the (ar_until_ns row)) = Inr ()"
    "writeEvaluation E now (ar_spec row) (ar_evaluation_revision row + 1) (ec_Evaluation commit) True False d2 = Inr d'"
    by (auto simp: CommitHistoricalEvaluation_def monad_splits Let_def split: option.splits)
  from d1 rows_affected_1 obtain cur where cur: "cur \<in> set (assignments d)" "?fence cur"
    and cur1: "\<And>r. r \<in> set (assignments d) \<Longrightarrow> ?fence r \<longleftrightarrow> r = cur"
    by (simp only: stmt) blast
  have a1: "assignments d1 = map (\<lambda>r. if r = cur then ?drop r else r) (assignments d)"
    using d1 unfolding stmt update_where_def by (auto simp: cur1 cong: map_cong)
  have t: "?target (?drop r) \<longleftrightarrow> ?target r" for r
    by (simp add: drop_lease_def authority_covers_def)
  have not_cur: "\<not> ?target cur" using cur(2) by (auto simp: lease_fence_def)
  from find_Some_iff_mem [OF found] a1 have row: "row \<in> set (assignments d)" "?target row"
    using t not_cur by (auto split: if_splits)
  have is_row: "?target r \<longleftrightarrow> r = row" if "r \<in> set (assignments d)" for r
    by (rule fence_unique [where P = ?target, OF ok row _ that]) simp
  have "update_where ?target ?up (assignments d1) =
      map (\<lambda>r. if r = row then ?up r else if r = cur then ?drop r else r) (assignments d)"
    unfolding a1 by (rule update_after_drop [where T = ?target, OF t not_cur is_row])
  then have d2': "d2 = d\<lparr>assignments := map (\<lambda>r. if r = row then ?up r else if r = cur then ?drop r else r) (assignments d)\<rparr>"
    using d1 d2 unfolding stmt by simp
  show ?thesis
    by (rule that [OF cur(1) _ hist row(1)])
      (use cur(2) row(2) rest d2 d2' writeEvaluation_Inr(1) [OF rest(3)] in \<open>auto simp: stmt\<close>)
qed


lemma CommitHistoricalEvaluation_inv:
  assumes tl: "timeline_inv (assignments d)" and inv: "watermark_inv d"
    and run: "CommitHistoricalEvaluation E now c hist commit d = Inr d'"
  shows "timeline_inv (assignments d')" "watermark_inv d'"
proof -
  note ok = timeline_invD(1) [OF tl]
  let ?g = "\<lambda>cur row r. if r = row then r\<lparr>ar_evaluation_revision := ar_evaluation_revision r + 1, ar_updated_at := now\<rparr>
      else if r = cur then drop_lease now (timestamptz E (ec_NextEvaluationAt commit)) r else r"
  from ok run obtain cur row where row: "row \<in> set (assignments d)" "ar_lifecycle row = AssignmentSuperseded"
    "authority_covers (UnixNano (ev_ObservedAt (ec_Evaluation commit))) row"
    and wr: "writeEvaluation E now (ar_spec row) (ar_evaluation_revision row + 1) (ec_Evaluation commit) True False
       (d\<lparr>assignments := map (?g cur row) (assignments d)\<rparr>) = Inr d'"
    and ok': "assignments_ok (assignments d')"
    by (rule CommitHistoricalEvaluation_Inr) blast
  have spec: "ar_id row = asg_ID (ar_spec row)" "ar_gen row = asg_Generation (ar_spec row)"
    using timeline_invD(2) [OF tl row(1)] by (simp_all add: spec_agrees_def)
  show "watermark_inv d'"
    by (rule commit_watermark [where g = "?g cur row", OF ok inv _ _ _ row(1) spec _ row(3) _ wr])
      (use row(2) in \<open>auto simp: evidence_tables_def drop_lease_def authority_view_def\<close>)
  have rows: "assignments d' = update_where (\<lambda>_. True) (?g cur row) (assignments d)"
    using writeEvaluation_Inr(1) [OF wr] by (simp add: update_where_def)
  show "timeline_inv (assignments d')"
    unfolding rows by (rule timeline_update [OF tl]) (use ok' rows in \<open>simp_all add: drop_lease_def authority_view_def\<close>)
qed

end
