(* ===== verification/Store_Reachable.thy ===== *)
theory Store_Reachable
  imports Store_Commits
begin

text \<open>
  The store as a state machine: a step is one successful operation at some database time (a
  failed one writes nothing), and a reachable database arises from the migrated, empty one.
  Rule induction gives the invariants of every reachable database and how a row can evolve.
\<close>

section \<open>Steps\<close>

inductive store_step :: "store_env \<Rightarrow> db \<Rightarrow> db \<Rightarrow> bool" for E where
  prepare: "PrepareAssignment E now source msg ty a d = Inr (res, d') \<Longrightarrow> store_step E d d'"
| arm: "ArmAssignment E now source msg aid gen d = Inr (lres, d') \<Longrightarrow> store_step E d d'"
| cancel: "CancelCandidate E now source msg aid gen d = Inr (lres, d') \<Longrightarrow> store_step E d d'"
| cutover: "CutoverAssignment E now source msg aid gen eff d = Inr (lres, d') \<Longrightarrow> store_step E d d'"
| claim_due: "ClaimDueAssignmentsWithFinalizationGrace E now locked w lease grace limit d = (cs, d') \<Longrightarrow> store_step E d d'"
| defer_evaluation: "DeferAssignmentEvaluation E now c t d = Inr d' \<Longrightarrow> store_step E d d'"
| renew: "RenewAssignmentLease E now c ext d = Inr d' \<Longrightarrow> store_step E d d'"
| commit: "CommitEvaluation E now c cm d = Inr d' \<Longrightarrow> store_step E d d'"
| commit_historical: "CommitHistoricalEvaluation E now c hist cm d = Inr d' \<Longrightarrow> store_step E d d'"
| claim_outbox: "ClaimOutbox E now olocked dest w lease limit d = Inr (ocs, d') \<Longrightarrow> store_step E d d'"
| delivered: "MarkOutboxDelivered now oc d = Inr d' \<Longrightarrow> store_step E d d'"
| retry: "RetryOutbox E now oc delay err d = Inr d' \<Longrightarrow> store_step E d d'"

inductive reachable :: "store_env \<Rightarrow> db \<Rightarrow> bool" for E where
  init: "reachable E empty_db"
| step: "reachable E d \<Longrightarrow> store_step E d d' \<Longrightarrow> reachable E d'"

text \<open>Outbox operations leave everything but the outbox alone.\<close>

lemma outbox_ops_frame:
  "ClaimOutbox E now olocked dest w lease limit d = Inr (ocs, d') \<Longrightarrow>
     assignments d' = assignments d \<and> evidence_tables d' = evidence_tables d \<and> inbox d' = inbox d"
  "MarkOutboxDelivered now oc d = Inr d' \<Longrightarrow>
     assignments d' = assignments d \<and> evidence_tables d' = evidence_tables d \<and> inbox d' = inbox d"
  "RetryOutbox E now oc delay err d = Inr d' \<Longrightarrow>
     assignments d' = assignments d \<and> evidence_tables d' = evidence_tables d \<and> inbox d' = inbox d"
  by (auto simp: ClaimOutbox_def MarkOutboxDelivered_def RetryOutbox_def monad_splits Let_def stmt evidence_tables_def
      split: option.splits)

definition store_inv :: "db \<Rightarrow> bool" where
  "store_inv d \<longleftrightarrow> timeline_inv (assignments d) \<and> watermark_inv d"

lemma store_inv_same:
  assumes "store_inv d" "assignments d' = assignments d" "evidence_tables d' = evidence_tables d"
  shows "store_inv d'"
proof -
  have "row_watermark d' r" if "r \<in> set (assignments d)" for r
    by (rule watermark_keep_same [OF _ assms(3)]) (use assms(1) that in \<open>auto simp: store_inv_def watermark_inv_def\<close>)
  then show ?thesis
    using assms evidence_owned_keep [OF _ assms(3)] by (simp add: store_inv_def watermark_inv_def)
qed

text \<open>Updates of leases, schedules and nothing else.\<close>

lemma store_inv_update:
  assumes inv: "store_inv d" and d': "d' = d\<lparr>assignments := update_where P f (assignments d)\<rparr>"
    and ok: "assignments_ok (assignments d')"
    and f: "\<And>r. authority_view (f r) = authority_view r" "\<And>r. ar_evaluation_revision (f r) = ar_evaluation_revision r"
  shows "store_inv d'"
proof -
  have "timeline_inv (assignments d')"
    using inv d' ok timeline_update [OF _ _ f(1), of "assignments d" P] by (simp add: store_inv_def)
  moreover have "watermark_inv d'"
    by (rule watermark_update [OF _ _ _ f]) (use inv d' in \<open>auto simp: store_inv_def evidence_tables_def\<close>)
  ultimately show ?thesis by (simp add: store_inv_def)
qed

lemma lease_ops_inv:
  "store_inv d \<Longrightarrow> ClaimDueAssignmentsWithFinalizationGrace E now locked w lease grace limit d = (cs, d') \<Longrightarrow> store_inv d'"
  "store_inv d \<Longrightarrow> DeferAssignmentEvaluation E now c t d = Inr d' \<Longrightarrow> store_inv d'"
  "store_inv d \<Longrightarrow> RenewAssignmentLease E now c ext d = Inr d' \<Longrightarrow> store_inv d'"
proof -
  assume inv: "store_inv d"
  show "ClaimDueAssignmentsWithFinalizationGrace E now locked w lease grace limit d = (cs, d') \<Longrightarrow> store_inv d'"
    by (erule ClaimDue_cases) (use inv store_inv_update [OF inv] in \<open>auto simp: take_lease_def authority_view_def\<close>)
  show "DeferAssignmentEvaluation E now c t d = Inr d' \<Longrightarrow> store_inv d'"
    by (rule store_inv_update [OF inv, where f = "drop_lease now (timestamptz E t)"])
      (auto simp: DeferAssignmentEvaluation_def monad_splits stmt drop_lease_def authority_view_def)
  show "RenewAssignmentLease E now c ext d = Inr d' \<Longrightarrow> store_inv d'"
    by (rule store_inv_update [OF inv, where f = "\<lambda>r. r\<lparr>ar_lease_until := Some (now + pg_interval E ext), ar_updated_at := now\<rparr>"])
      (auto simp: RenewAssignmentLease_def monad_splits stmt authority_view_def)
qed

lemma store_step_inv: "store_step E d d' \<Longrightarrow> store_inv d \<Longrightarrow> store_inv d'"
proof (induction rule: store_step.induct)
  case (prepare now source msg ty a d res d')
  then show ?case using PrepareAssignment_timeline PrepareAssignment_watermark unfolding store_inv_def by blast
next
  case (arm now source msg aid gen d lres d')
  then show ?case unfolding ArmAssignment_def store_inv_def
    by (metis transitionCandidate_timeline transitionCandidate_watermark)
next
  case (cancel now source msg aid gen d lres d')
  then show ?case unfolding CancelCandidate_def store_inv_def
    by (metis transitionCandidate_timeline transitionCandidate_watermark)
next
  case (cutover now source msg aid gen eff d lres d')
  then show ?case unfolding store_inv_def
    using CutoverAssignment_timeline CutoverAssignment_watermark by blast
next
  case (commit now c cm d d')
  then show ?case unfolding store_inv_def using CommitEvaluation_inv by blast
next
  case (commit_historical now c hist cm d d')
  then show ?case unfolding store_inv_def using CommitHistoricalEvaluation_inv by blast
next
  case (claim_due now locked w lease grace limit d cs d')
  then show ?case using lease_ops_inv(1) by simp
next
  case (defer_evaluation now c t d d')
  then show ?case using lease_ops_inv(2) by simp
next
  case (renew now c ext d d')
  then show ?case using lease_ops_inv(3) by simp
next
  case (claim_outbox now olocked dest w lease limit d ocs d')
  then show ?case using outbox_ops_frame(1) [OF claim_outbox(1)] store_inv_same by simp
next
  case (delivered now oc d d')
  then show ?case using outbox_ops_frame(2) [OF delivered(1)] store_inv_same by simp
next
  case (retry now oc delay err d d')
  then show ?case using outbox_ops_frame(3) [OF retry(1)] store_inv_same by simp
qed

lemma reachable_store_inv: "reachable E d \<Longrightarrow> store_inv d"
proof (induction rule: reachable.induct)
  case init
  then show ?case by (simp add: store_inv_def) (simp add: empty_db_def)
qed (rule store_step_inv)

end
