(* ===== verification/Store_Evolution.thy ===== *)
theory Store_Evolution
  imports Store_Reachable
begin

text \<open>
  How the rows of a reachable store evolve: generations are never deleted and never rewritten,
  a lifecycle moves only along the code's transitions, lease generations and revisions only
  grow, an authority interval keeps its start and only shrinks; the inbox only grows.
\<close>

fun lifecycle_next :: "assignment_lifecycle \<Rightarrow> assignment_lifecycle list" where
  "lifecycle_next AssignmentReceived = [AssignmentArmed, AssignmentCancelled, AssignmentSuperseded]"
| "lifecycle_next AssignmentArmed = [AssignmentActive, AssignmentCancelled, AssignmentSuperseded]"
| "lifecycle_next AssignmentActive = [AssignmentSuperseded]"
| "lifecycle_next AssignmentEnding = [AssignmentSuperseded]"
| "lifecycle_next _ = []"

definition row_step :: "assignment_row \<Rightarrow> assignment_row \<Rightarrow> bool" where
  "row_step r r' \<longleftrightarrow>
     row_key r' = row_key r \<and> ar_spec r' = ar_spec r \<and>
     (ar_lifecycle r' = ar_lifecycle r \<or> ar_lifecycle r' \<in> set (lifecycle_next (ar_lifecycle r))) \<and>
     ar_lease_generation r \<le> ar_lease_generation r' \<and>
     ar_evaluation_revision r \<le> ar_evaluation_revision r' \<and>
     (ar_from_ns r \<noteq> None \<longrightarrow> ar_from_ns r' = ar_from_ns r) \<and>
     (\<forall>u. ar_until_ns r = Some u \<longrightarrow> (\<exists>u'. ar_until_ns r' = Some u' \<and> u' \<le> u))"

lemma row_step_refl [simp]: "row_step r r"
  by (simp add: row_step_def)

definition evolves :: "db \<Rightarrow> db \<Rightarrow> bool" where
  "evolves d d' \<longleftrightarrow>
     (\<forall>r\<in>set (assignments d). \<exists>r'\<in>set (assignments d'). row_step r r') \<and>
     (\<exists>new. inbox d' = inbox d @ new)"

lemma evolves_same: "assignments d' = assignments d \<Longrightarrow> inbox d' = inbox d @ new \<Longrightarrow> evolves d d'"
  by (auto simp: evolves_def intro: row_step_refl)

lemma evolves_map:
  assumes "set (assignments d') = g ` set (assignments d) \<union> extra" "inbox d' = inbox d @ new"
    "\<And>r. r \<in> set (assignments d) \<Longrightarrow> row_step r (g r)"
  shows "evolves d d'"
  using assms by (auto simp: evolves_def)

lemma evolves_map_rows:
  assumes "assignments d' = map g (assignments d)" "inbox d' = inbox d @ new"
    "\<And>r. r \<in> set (assignments d) \<Longrightarrow> row_step r (g r)"
  shows "evolves d d'"
  by (rule evolves_map [where extra = "{}", OF _ assms(2,3)]) (simp add: assms(1))

lemma evolves_update:
  assumes "assignments d' = update_where P f (assignments d)" "inbox d' = inbox d @ new"
    "\<And>r. r \<in> set (assignments d) \<Longrightarrow> P r \<Longrightarrow> row_step r (f r)"
  shows "evolves d d'"
  by (rule evolves_map [where g = "\<lambda>r. if P r then f r else r" and extra = "{}" and new = new])
    (use assms in auto)

lemma row_step_lease [simp]:
  "row_step r (take_lease E now w l r)" "row_step r (drop_lease now t r)"
  "row_step r (r\<lparr>ar_lease_until := x, ar_updated_at := now\<rparr>)"
  "row_step r (r\<lparr>ar_evaluation_revision := Suc (ar_evaluation_revision r), ar_updated_at := now\<rparr>)"
  "row_step r ((drop_lease now t r)\<lparr>ar_evaluation_revision := Suc (ar_evaluation_revision r)\<rparr>)"
  by (simp_all add: row_step_def take_lease_def drop_lease_def)

lemma row_step_release:
  "l \<in> set (lifecycle_next (ar_lifecycle r)) \<Longrightarrow> row_step r (release l now r)"
  by (simp add: row_step_def release_def)

section \<open>Steps\<close>

lemma prepare_evolves:
  assumes "PrepareAssignment E now source msg ty a d = Inr (res, d')"
  shows "evolves d d'"
  using assms
proof (cases rule: PrepareAssignment_cases)
  case (replay row)
  then show ?thesis by (intro evolves_same [where new = "[]"]) auto
next
  case (known current)
  then show ?thesis by (intro evolves_same) (auto simp: stmt)
next
  case stored
  note st = store_candidate_Inr [OF stored(6)]
  show ?thesis
    by (rule evolves_map [OF _ st(4), where extra = "{new_candidate now a}" and
          g = "\<lambda>r. if candidate_of (asg_ID a) r then release AssignmentSuperseded now r else r"])
      (auto simp: st(1) candidate_of_def is_candidate_def intro!: row_step_release)
qed

lemma transitionCandidate_evolves:
  assumes "transitionCandidate E now source msg ty aid gen target d = Inr (res, d')"
  shows "evolves d d'"
  using assms
proof (cases rule: transitionCandidate_cases)
  case replay
  then show ?thesis by (intro evolves_same [where new = "[]"]) auto
next
  case (applied row d1)
  note rec = recordLifecycleCommand_Inr [OF applied(7)]
  have rows: "assignments d' = candidate_update now aid gen target (assignments d)"
    and inbox: "\<exists>new. inbox d' = inbox d @ new" using rec(1,3) applied(5) by auto
  from inbox obtain new where new: "inbox d' = inbox d @ new" by blast
  show ?thesis
  proof (cases "target = AssignmentArmed")
    case True
    show ?thesis
      by (rule evolves_update [OF rows [unfolded candidate_update_def if_P [OF True]] new]) (auto simp: row_step_def)
  next
    case False
    show ?thesis
      by (rule evolves_update [OF rows [unfolded candidate_update_def if_not_P [OF False]] new])
        (auto simp: is_candidate_def intro!: row_step_release)
  qed
qed

lemma cutover_inbox:
  assumes "CutoverAssignment E now source msg aid gen eff d = Inr (res, d')"
  shows "\<exists>new. inbox d' = inbox d @ new"
  using assms
  by (auto simp: CutoverAssignment_def cutover_candidate_def monad_splits stmt Let_def
      dest!: recordLifecycleCommand_Inr(3) split: option.splits if_splits)

lemma cutover_evolves:
  assumes tl: "timeline_inv (assignments d)" and run: "CutoverAssignment E now source msg aid gen eff d = Inr (res, d')"
  shows "evolves d d'"
  using run
proof (cases rule: CutoverAssignment_cases)
  case replay
  then show ?thesis by (intro evolves_same [where new = "[]"]) auto
next
  case (applied cand)
  note cand = lookup_row_Some [OF applied(4)] and ok = timeline_invD(1) [OF tl]
  have rows: "assignments d' = map (\<lambda>r. if r = cand then opened_row E now eff cand
      else if List.find (current_of aid) (assignments d) = Some r then closed_row E now eff r else r) (assignments d)"
    unfolding applied(9) by (rule cutover_rows_map [OF ok]) (use cand applied(5) in auto)
  have none: "ar_from_ns cand = None" "ar_until_ns cand = None"
    using candidate_no_authority [OF row_ok [OF ok]] cand applied(5) by auto
  have opened: "row_step cand (opened_row E now eff cand)"
    using applied(5) none by (simp add: row_step_def)
  have closed: "row_step c (closed_row E now eff c)" if "List.find (current_of aid) (assignments d) = Some c" for c
  proof -
    have "boundary_ok eff aid gen d c" "current_row c"
      using applied(8) that find_Some_iff_mem [OF that] by (auto simp: current_of_def)
    then show ?thesis by (auto simp: row_step_def boundary_ok_def is_current_def split: option.splits)
  qed
  from cutover_inbox [OF run] obtain new where "inbox d' = inbox d @ new" by blast
  then show ?thesis by (rule evolves_map_rows [OF rows]) (use opened closed in auto)
qed

lemma commits_evolve:
  "assignments_ok (assignments d) \<Longrightarrow> CommitEvaluation E now c cm d = Inr d' \<Longrightarrow> evolves d d'"
  "assignments_ok (assignments d) \<Longrightarrow> CommitHistoricalEvaluation E now c hist cm d = Inr d' \<Longrightarrow> evolves d d'"
proof -
  assume ok: "assignments_ok (assignments d)"
  show "evolves d d'" if run: "CommitEvaluation E now c cm d = Inr d'"
  proof -
    from ok run obtain row where "writeEvaluation E now (cl_Assignment c) (ar_evaluation_revision row + 1) (ec_Evaluation cm) False True
        (d\<lparr>assignments := map (\<lambda>r. if r = row then counted_up E now cm r else r) (assignments d)\<rparr>) = Inr d'"
      by (rule CommitEvaluation_Inr) blast
    note wr = writeEvaluation_Inr(1,2) [OF this]
    show ?thesis
      by (rule evolves_map [where new = "[]" and extra = "{}" and g = "\<lambda>r. if r = row then counted_up E now cm r else r"])
        (use wr in auto)
  qed
  show "evolves d d'" if run: "CommitHistoricalEvaluation E now c hist cm d = Inr d'"
  proof -
    let ?g = "\<lambda>cur row r. if r = row then r\<lparr>ar_evaluation_revision := ar_evaluation_revision r + 1, ar_updated_at := now\<rparr>
          else if r = cur then drop_lease now (timestamptz E (ec_NextEvaluationAt cm)) r else r"
    from ok run obtain cur row where "writeEvaluation E now (ar_spec row) (ar_evaluation_revision row + 1) (ec_Evaluation cm) True False
        (d\<lparr>assignments := map (?g cur row) (assignments d)\<rparr>) = Inr d'"
      by (rule CommitHistoricalEvaluation_Inr) blast
    note wr = writeEvaluation_Inr(1,2) [OF this]
    show ?thesis
      by (rule evolves_map [where new = "[]" and extra = "{}" and g = "?g cur row"]) (use wr in auto)
  qed
qed

lemma lease_ops_evolve:
  "ClaimDueAssignmentsWithFinalizationGrace E now locked w lease grace limit d = (cs, d') \<Longrightarrow> evolves d d'"
  "DeferAssignmentEvaluation E now c t d = Inr d' \<Longrightarrow> evolves d d'"
  "RenewAssignmentLease E now c ext d = Inr d' \<Longrightarrow> evolves d d'"
proof -
  show "evolves d d'" if "ClaimDueAssignmentsWithFinalizationGrace E now locked w lease grace limit d = (cs, d')"
    using that
  proof (cases rule: ClaimDue_cases)
    case refused
    then show ?thesis by (intro evolves_same [where new = "[]"]) auto
  next
    case (claimed keys)
    show ?thesis
      by (rule evolves_update [where f = "take_lease E now w lease" and P = "\<lambda>r. row_key r \<in> set keys" and new = "[]"])
        (use claimed(3) in auto)
  qed
  show "evolves d d'" if "DeferAssignmentEvaluation E now c t d = Inr d'"
    using that unfolding DeferAssignmentEvaluation_def
    by (auto simp: monad_splits stmt intro!: evolves_update [where f = "drop_lease now (timestamptz E t)" and new = "[]"])
  show "evolves d d'" if "RenewAssignmentLease E now c ext d = Inr d'"
    using that unfolding RenewAssignmentLease_def
    by (auto simp: monad_splits stmt intro!: evolves_update [where new = "[]" and
        f = "\<lambda>r. r\<lparr>ar_lease_until := Some (now + pg_interval E ext), ar_updated_at := now\<rparr>"])
qed

lemma store_step_evolves:
  assumes "store_step E d d'" "store_inv d"
  shows "evolves d d'"
  using assms(1)
proof cases
  case (prepare now source msg ty a res)
  then show ?thesis by (rule prepare_evolves)
next
  case (arm now source msg aid gen lres)
  then show ?thesis unfolding ArmAssignment_def by (rule transitionCandidate_evolves)
next
  case (cancel now source msg aid gen lres)
  then show ?thesis unfolding CancelCandidate_def by (rule transitionCandidate_evolves)
next
  case (cutover now source msg aid gen eff lres)
  then show ?thesis using cutover_evolves assms(2) by (simp add: store_inv_def)
next
  case (claim_due now locked w lease grace limit cs)
  then show ?thesis by (rule lease_ops_evolve)
next
  case (defer_evaluation now c t)
  then show ?thesis by (rule lease_ops_evolve)
next
  case (renew now c ext)
  then show ?thesis by (rule lease_ops_evolve)
next
  case (commit now c cm)
  then show ?thesis using commits_evolve(1) assms(2) timeline_invD(1) by (simp add: store_inv_def)
next
  case (commit_historical now c hist cm)
  then show ?thesis using commits_evolve(2) assms(2) timeline_invD(1) by (simp add: store_inv_def)
next
  case (claim_outbox now olocked dest w lease limit ocs)
  then show ?thesis using outbox_ops_frame(1) by (intro evolves_same [where new = "[]"]) auto
next
  case (delivered now oc)
  then show ?thesis using outbox_ops_frame(2) by (intro evolves_same [where new = "[]"]) auto
next
  case (retry now oc delay err)
  then show ?thesis using outbox_ops_frame(3) by (intro evolves_same [where new = "[]"]) auto
qed

section \<open>Sequences of steps\<close>

inductive store_steps :: "store_env \<Rightarrow> db \<Rightarrow> db \<Rightarrow> bool" for E where
  none: "store_steps E d d"
| more: "store_steps E d d1 \<Longrightarrow> store_step E d1 d2 \<Longrightarrow> store_steps E d d2"

lemma store_steps_reachable: "store_steps E d d' \<Longrightarrow> reachable E d \<Longrightarrow> reachable E d'"
  by (induction rule: store_steps.induct) (auto intro: reachable.step)

lemma store_steps_inv: "store_steps E d d' \<Longrightarrow> store_inv d \<Longrightarrow> store_inv d'"
  by (induction rule: store_steps.induct) (auto intro: store_step_inv)

text \<open>A generation stays, with its specification; its lease generation and revision never go back.\<close>

lemma store_steps_row:
  assumes "store_steps E d d'" "store_inv d" "r \<in> set (assignments d)"
  shows "\<exists>r'\<in>set (assignments d'). row_key r' = row_key r \<and> ar_spec r' = ar_spec r \<and>
    ar_lease_generation r \<le> ar_lease_generation r' \<and> ar_evaluation_revision r \<le> ar_evaluation_revision r'"
  using assms
proof (induction rule: store_steps.induct)
  case (more d d1 d2)
  then obtain r1 where r1: "r1 \<in> set (assignments d1)" "row_key r1 = row_key r" "ar_spec r1 = ar_spec r"
    "ar_lease_generation r \<le> ar_lease_generation r1" "ar_evaluation_revision r \<le> ar_evaluation_revision r1" by blast
  have "evolves d1 d2" using more.hyps more.prems(1) store_steps_inv store_step_evolves by blast
  with r1(1) obtain r2 where "r2 \<in> set (assignments d2)" "row_step r1 r2" by (auto simp: evolves_def)
  with r1 show ?case by (intro bexI [of _ r2]) (auto simp: row_step_def)
qed auto

lemma store_steps_inbox:
  assumes "store_steps E d d'" "store_inv d"
  shows "\<exists>new. inbox d' = inbox d @ new"
  using assms
proof (induction rule: store_steps.induct)
  case (more d d1 d2)
  have "evolves d1 d2" using more.hyps more.prems store_steps_inv store_step_evolves by blast
  with more show ?case by (auto simp: evolves_def)
qed auto

end
