(* ===== verification/Store_Demo.thy ===== *)
theory Store_Demo
  imports Store_Evolution "HOL-Library.Code_Target_Nat"
begin

text \<open>
  A concrete run of the store, at which the properties are instantiated: one assignment is
  prepared, armed and cut over, claimed and evaluated twice; then a second generation is
  prepared, armed and cut over. The environment keeps instants as they are, uses an injective
  digest and compares text bytewise.
\<close>

definition store_env_demo :: store_env where
  "store_env_demo =
     \<lparr>timestamptz = (\<lambda>t. t), sha_hex = (\<lambda>s. s),
      assignment_hash = (\<lambda>ty a. ty @ show_nat (asg_Generation a) @ asg_ID a),
      command_hash = (\<lambda>ty c. ty @ show_nat (cmd_Generation c) @ cmd_AssignmentID c),
      evidence_hash = (\<lambda>e. te_IncidentID e), pg_interval = (\<lambda>t. t),
      text_less = (\<lambda>a b. a < b)\<rparr>"

definition spec_demo :: "nat \<Rightarrow> assignment" where
  "spec_demo gen =
     \<lparr>asg_ID = ''A'', asg_Generation = gen, asg_OperatorID = ''o'', asg_AircraftID = ''c'',
      asg_AgentID = ''g'', asg_FlightID = ''f'', asg_IntentID = ''i'', asg_IntentVersion = gen,
      asg_PolicyVersion = ''p'', asg_EffectiveFrom = 1000, asg_EffectiveUntil = 9000,
      asg_Volumes = []\<rparr>"

definition evaluation_demo :: "gotime \<Rightarrow> string \<Rightarrow> nat \<Rightarrow> evaluation" where
  "evaluation_demo t wal seq =
     \<lparr>ev_Condition = ConditionConforming, ev_Monitoring = MonitoringCurrent,
      ev_Recording = RecordingPending, ev_State = empty_state, ev_Transitions = [],
      ev_CausalFrom = t, ev_ObservedAt = t, ev_FrameID = ''fr'', ev_WALID = wal,
      ev_WALSequence = seq\<rparr>"

definition commit_demo :: "gotime \<Rightarrow> string \<Rightarrow> nat \<Rightarrow> evaluation_commit" where
  "commit_demo t wal seq =
     \<lparr>ec_Evaluation = evaluation_demo t wal seq, ec_NextEvaluationAt = 5000\<rparr>"

definition claim_demo :: "nat \<Rightarrow> nat \<Rightarrow> nat \<Rightarrow> claim" where
  "claim_demo gen lease n =
     \<lparr>cl_Assignment = spec_demo gen, cl_AuthorityFrom = 1000, cl_AuthorityUntil = 9000,
      cl_FinalizationGrace = 0, cl_WorkerID = ''w'', cl_LeaseGeneration = lease,
      cl_LeaseUntil = 5100, cl_EvaluationRevision = n\<rparr>"

text \<open>The state after an operation that is known to succeed.\<close>

definition after :: "'e + ('a \<times> db) \<Rightarrow> db" where
  "after m = snd (projr m)"

lemma after_Inr: "\<not> isl m \<Longrightarrow> m = Inr (fst (projr m), after m)"
  by (cases m) (simp_all add: after_def)

abbreviation prepare_demo :: "string \<Rightarrow> nat \<Rightarrow> db \<Rightarrow> store_error + (apply_result \<times> db)" where
  "prepare_demo msg gen \<equiv> PrepareAssignment store_env_demo 5000 ''s'' msg ''t'' (spec_demo gen)"

abbreviation arm_demo :: "string \<Rightarrow> nat \<Rightarrow> db \<Rightarrow> store_error + (lifecycle_result \<times> db)" where
  "arm_demo msg gen \<equiv> ArmAssignment store_env_demo 5000 ''s'' msg ''A'' gen"

abbreviation cutover_demo :: "string \<Rightarrow> nat \<Rightarrow> gotime \<Rightarrow> db \<Rightarrow> store_error + (lifecycle_result \<times> db)" where
  "cutover_demo msg gen eff \<equiv> CutoverAssignment store_env_demo 5000 ''s'' msg ''A'' gen eff"

abbreviation claim_op_demo :: "db \<Rightarrow> (store_error + claim list) \<times> db" where
  "claim_op_demo \<equiv> ClaimDueAssignmentsWithFinalizationGrace store_env_demo 5000 (\<lambda>_. False) ''w'' 100 0 10"

definition db_prepared :: db where
  "db_prepared = after (prepare_demo ''1'' 1 empty_db)"

definition db_armed :: db where
  "db_armed = after (arm_demo ''2'' 1 db_prepared)"

definition db_active :: db where
  "db_active = after (cutover_demo ''3'' 1 1000 db_armed)"

definition db_claimed :: db where
  "db_claimed = snd (claim_op_demo db_active)"

definition db_evaluated :: db where
  "db_evaluated = projr (CommitEvaluation store_env_demo 5010 (claim_demo 1 1 0) (commit_demo 1500 ''B'' 1) db_claimed)"

definition db_replacing :: db where
  "db_replacing = after (arm_demo ''5'' 2 (after (prepare_demo ''4'' 2 db_evaluated)))"

definition db_replaced :: db where
  "db_replaced = after (cutover_demo ''6'' 2 2000 db_replacing)"

lemma demo_prepared: "prepare_demo ''1'' 1 empty_db = Inr (fst (projr (prepare_demo ''1'' 1 empty_db)), db_prepared)"
  unfolding db_prepared_def by (rule after_Inr) code_simp

lemma demo_armed: "arm_demo ''2'' 1 db_prepared = Inr (fst (projr (arm_demo ''2'' 1 db_prepared)), db_armed)"
  unfolding db_armed_def by (rule after_Inr) code_simp

lemma demo_active: "cutover_demo ''3'' 1 1000 db_armed = Inr (fst (projr (cutover_demo ''3'' 1 1000 db_armed)), db_active)"
  unfolding db_active_def by (rule after_Inr) code_simp

lemma demo_evaluated:
  "CommitEvaluation store_env_demo 5010 (claim_demo 1 1 0) (commit_demo 1500 ''B'' 1) db_claimed = Inr db_evaluated"
proof -
  have "\<not> isl (CommitEvaluation store_env_demo 5010 (claim_demo 1 1 0) (commit_demo 1500 ''B'' 1) db_claimed)"
    by code_simp
  then show ?thesis unfolding db_evaluated_def by (metis sum.collapse(2))
qed

lemma demo_replacing:
  "prepare_demo ''4'' 2 db_evaluated =
     Inr (fst (projr (prepare_demo ''4'' 2 db_evaluated)), after (prepare_demo ''4'' 2 db_evaluated))"
  "arm_demo ''5'' 2 (after (prepare_demo ''4'' 2 db_evaluated)) =
     Inr (fst (projr (arm_demo ''5'' 2 (after (prepare_demo ''4'' 2 db_evaluated)))), db_replacing)"
  unfolding db_replacing_def by (rule after_Inr, code_simp)+

lemma demo_replaced:
  "cutover_demo ''6'' 2 2000 db_replacing = Inr (fst (projr (cutover_demo ''6'' 2 2000 db_replacing)), db_replaced)"
  unfolding db_replaced_def by (rule after_Inr) code_simp

section \<open>Reachability\<close>

lemma reachable_prepared: "reachable store_env_demo db_prepared"
  by (rule reachable.step [OF reachable.init]) (rule store_step.prepare [OF demo_prepared])

lemma reachable_armed: "reachable store_env_demo db_armed"
  by (rule reachable.step [OF reachable_prepared]) (rule store_step.arm [OF demo_armed])

lemma reachable_active: "reachable store_env_demo db_active"
  by (rule reachable.step [OF reachable_armed]) (rule store_step.cutover [OF demo_active])

lemma reachable_claimed: "reachable store_env_demo db_claimed"
  by (rule reachable.step [OF reachable_active])
    (rule store_step.claim_due, unfold db_claimed_def, rule surjective_pairing)

lemma reachable_evaluated: "reachable store_env_demo db_evaluated"
  by (rule reachable.step [OF reachable_claimed]) (rule store_step.commit [OF demo_evaluated])

lemma reachable_replacing: "reachable store_env_demo db_replacing"
  by (rule reachable.step [OF reachable.step [OF reachable_evaluated]])
    (rule store_step.prepare [OF demo_replacing(1)], rule store_step.arm [OF demo_replacing(2)])

lemma reachable_replaced: "reachable store_env_demo db_replaced"
  by (rule reachable.step [OF reachable_replacing]) (rule store_step.cutover [OF demo_replaced])

end
