(* ===== verification/Store_Authority.thy ===== *)
theory Store_Authority
  imports Store_Demo
begin

text \<open>
  Who is authoritative when: the lookup by event time against the authority intervals of the
  reachable stores, what a cutover changes in it, and that no other lifecycle operation
  changes anything.
\<close>

section \<open>The lookup by event time\<close>

lemma latest_authority_None [simp]: "latest_authority rs = None \<longleftrightarrow> rs = []"
  by (cases rs) (auto split: option.splits)

lemma latest_authority_Some: "latest_authority rs = Some r \<Longrightarrow> r \<in> set rs"
  by (induction rs arbitrary: r) (auto split: option.splits if_splits)

lemma covers_Authorizes: "supportedUnixNanoseconds t \<Longrightarrow> covers r (UnixNano t) \<longleftrightarrow> Authorizes (scanAssignmentRecord r) t"
  by (auto simp: covers_def Authorizes_def split: option.splits)

lemma covers_unique:
  assumes inv: "timeline_inv rows" and r: "r \<in> set rows" "covers r t" and s: "s \<in> set rows" "covers s t"
    and id: "ar_id r = ar_id s"
  shows "r = s"
proof -
  note i = timeline_invD [OF inv]
  have both: "\<exists>f u. ar_from_ns x = Some f \<and> ar_until_ns x = Some u \<and> f \<le> t \<and> t < u"
    if "x \<in> set rows" "covers x t" for x
    using i(3) [OF that(1)] that(2) by (auto simp: covers_def authority_in_window_def split: option.splits)
  have no_lt: False if "x \<in> set rows" "covers x t" "y \<in> set rows" "covers y t" "ar_id x = ar_id y" "ar_gen x < ar_gen y" for x y
    using both [OF that(1,2)] both [OF that(3,4)] authority_orderedD [OF i(5) that(1,3,5,6)] by fastforce
  have "ar_gen r = ar_gen s" using no_lt [OF r s] no_lt [OF s r] id by (metis linorder_neqE_nat)
  then show ?thesis by (rule row_key_inj [OF i(1) r(1) s(1) id])
qed

text \<open>The generation an instant is attributed to.\<close>

definition resolved_generation :: "string \<Rightarrow> gotime \<Rightarrow> db \<Rightarrow> nat option" where
  "resolved_generation aid t d =
     (case ResolveAssignmentAt aid t d of
        Inr (Some rec) \<Rightarrow> Some (asg_Generation (rec_Assignment rec)) | _ \<Rightarrow> None)"

lemma ResolveAssignmentAt_Some_iff:
  assumes inv: "timeline_inv (assignments d)" and t: "supportedUnixNanoseconds t"
  shows "ResolveAssignmentAt aid t d = Inr (Some rec) \<longleftrightarrow>
    (\<exists>r\<in>set (assignments d). ar_id r = aid \<and> covers r t \<and> rec = scanAssignmentRecord r)"
proof -
  let ?hits = "filter (\<lambda>r. covers r t) (generations aid d)"
  have res: "ResolveAssignmentAt aid t d = Inr (map_option scanAssignmentRecord (latest_authority ?hits))"
    using t by (simp add: ResolveAssignmentAt_def)
  show ?thesis
  proof
    assume "ResolveAssignmentAt aid t d = Inr (Some rec)"
    then obtain r where "latest_authority ?hits = Some r" "rec = scanAssignmentRecord r" using res by auto
    then show "\<exists>r\<in>set (assignments d). ar_id r = aid \<and> covers r t \<and> rec = scanAssignmentRecord r"
      using latest_authority_Some [of ?hits r] by auto
  next
    assume "\<exists>r\<in>set (assignments d). ar_id r = aid \<and> covers r t \<and> rec = scanAssignmentRecord r"
    then obtain r where r: "r \<in> set (assignments d)" "ar_id r = aid" "covers r t" "rec = scanAssignmentRecord r" by blast
    then have "latest_authority ?hits \<noteq> None" by (auto simp: filter_empty_conv)
    then obtain s where s: "latest_authority ?hits = Some s" by (metis option.exhaust)
    from latest_authority_Some [OF s] have "s \<in> set (assignments d)" "ar_id s = aid" "covers s t" by auto
    then have "s = r" using covers_unique [OF inv] r by metis
    then show "ResolveAssignmentAt aid t d = Inr (Some rec)" using res s r by simp
  qed
qed

lemma ResolveAssignmentAt_total:
  "supportedUnixNanoseconds t \<Longrightarrow> \<exists>res. ResolveAssignmentAt aid t d = Inr res"
  by (simp add: ResolveAssignmentAt_def)

lemma resolved_generation_Some:
  assumes inv: "timeline_inv (assignments d)" and t: "supportedUnixNanoseconds t"
  shows "resolved_generation aid t d = Some g \<longleftrightarrow>
    (\<exists>r\<in>set (assignments d). ar_id r = aid \<and> ar_gen r = g \<and> covers r t)"
proof -
  have "resolved_generation aid t d = Some g \<longleftrightarrow>
      (\<exists>rec. ResolveAssignmentAt aid t d = Inr (Some rec) \<and> asg_Generation (rec_Assignment rec) = g)"
    by (auto simp: resolved_generation_def split: sum.splits option.splits)
  also have "\<dots> \<longleftrightarrow> (\<exists>r\<in>set (assignments d). ar_id r = aid \<and> ar_gen r = g \<and> covers r t)"
    unfolding ResolveAssignmentAt_Some_iff [OF inv t]
    using timeline_invD(2) [OF inv] by (auto simp: spec_agrees_def)
  finally show ?thesis .
qed

text \<open>
  C2: In every reachable store an instant (within the supported range) is authorised by at
  most one generation of an assignment, and the lookup by event time finds exactly that
  generation: its answer authorises the instant, and with no answer no generation does.
\<close>

theorem resolve_unique_authority:
  assumes "reachable E d" "supportedUnixNanoseconds t"
  shows "\<exists>res. ResolveAssignmentAt aid t d = Inr res \<and>
    (\<forall>r\<in>set (generations aid d). Authorizes (scanAssignmentRecord r) t \<longleftrightarrow> res = Some (scanAssignmentRecord r)) \<and>
    (\<forall>rec. res = Some rec \<longrightarrow> (\<exists>!r. r \<in> set (generations aid d) \<and> rec = scanAssignmentRecord r))"
proof -
  have inv: "timeline_inv (assignments d)" using reachable_store_inv [OF assms(1)] by (simp add: store_inv_def)
  obtain res where res: "ResolveAssignmentAt aid t d = Inr res" using ResolveAssignmentAt_total [OF assms(2)] by blast
  have cov: "covers r t \<longleftrightarrow> Authorizes (scanAssignmentRecord r) t" for r
    using covers_Authorizes [OF assms(2), of r] assms(2) by simp
  have inj: "r = s" if "r \<in> set (generations aid d)" "s \<in> set (generations aid d)"
    "scanAssignmentRecord r = scanAssignmentRecord s" for r s
  proof -
    have "ar_spec r = ar_spec s" using that(3) by (metis scanAssignmentRecord_simps(1))
    then have "ar_gen r = ar_gen s" using that timeline_invD(2) [OF inv] by (auto simp: spec_agrees_def)
    then show ?thesis using that row_key_inj [OF timeline_invD(1) [OF inv]] by auto
  qed
  have "Authorizes (scanAssignmentRecord r) t \<longleftrightarrow> res = Some (scanAssignmentRecord r)" if "r \<in> set (generations aid d)" for r
    using ResolveAssignmentAt_Some_iff [OF inv assms(2), of aid "scanAssignmentRecord r"] that inj res cov by auto
  moreover have "\<exists>!r. r \<in> set (generations aid d) \<and> rec = scanAssignmentRecord r" if "res = Some rec" for rec
    using ResolveAssignmentAt_Some_iff [OF inv assms(2), of aid rec] that res inj by auto
  ultimately show ?thesis using res by blast
qed

theorem resolve_unique_authority_witness:
  "\<exists>res. ResolveAssignmentAt ''A'' 2000 db_replaced = Inr res \<and>
    (\<forall>r\<in>set (generations ''A'' db_replaced). Authorizes (scanAssignmentRecord r) 2000 \<longleftrightarrow> res = Some (scanAssignmentRecord r)) \<and>
    (\<forall>rec. res = Some rec \<longrightarrow> (\<exists>!r. r \<in> set (generations ''A'' db_replaced) \<and> rec = scanAssignmentRecord r))"
  by (rule resolve_unique_authority [OF reachable_replaced]) code_simp

section \<open>Cutover\<close>

lemma option_eqI: "(\<And>g. x = Some g \<longleftrightarrow> y = Some g) \<Longrightarrow> x = y"
  by (cases x; cases y) auto

lemma resolved_generation_eqI:
  assumes "timeline_inv (assignments d)" "timeline_inv (assignments d')" "supportedUnixNanoseconds t"
    and "\<And>g. (\<exists>r\<in>set (assignments d'). ar_id r = aid \<and> ar_gen r = g \<and> covers r t) \<longleftrightarrow>
      (\<exists>r\<in>set (assignments d). ar_id r = aid \<and> ar_gen r = g \<and> covers r t)"
  shows "resolved_generation aid t d' = resolved_generation aid t d"
  by (rule option_eqI) (simp add: resolved_generation_Some [OF assms(1,3)] resolved_generation_Some [OF assms(2,3)] assms(4))

text \<open>Before the boundary the row the cutover closes covers the same instants as before.\<close>

lemma cutover_covers:
  assumes pre: "cutover_pre rows aid cand eff" and x: "x \<in> set rows" "x \<noteq> cand" "ar_id x = aid"
    and y: "y = (if List.find (current_of aid) rows = Some x then closed_row E now eff x else x)"
  shows "covers y t \<longleftrightarrow> covers x t \<and> t < eff"
proof (cases "List.find (current_of aid) rows = Some x")
  case True
  then show ?thesis using cutover_preD(5,6) [OF pre] y by (auto simp: covers_def)
next
  case False
  have "t < eff" if "covers x t"
  proof -
    have "ar_from_ns x \<noteq> None" using that by (auto simp: covers_def split: option.splits)
    then obtain c where c: "List.find (current_of aid) rows = Some c"
      "\<forall>u f. ar_until_ns x = Some u \<longrightarrow> ar_from_ns c = Some f \<longrightarrow> u \<le> f"
      using kept_before_current [OF cutover_preD(1) [OF pre] x(1,3) _ False] by auto
    moreover have "ar_until_ns x \<noteq> None"
      using timeline_invD(3) [OF cutover_preD(1) [OF pre] x(1)] \<open>ar_from_ns x \<noteq> None\<close>
      by (auto simp: authority_in_window_def)
    ultimately show ?thesis using that cutover_preD(5) [OF pre c(1)] by (fastforce simp: covers_def split: option.splits)
  qed
  then show ?thesis using False y by auto
qed

lemma cutover_rows_cover:
  assumes pre: "cutover_pre rows aid cand eff"
  shows "(\<exists>r\<in>set (cutover_rows E now eff aid cand rows). ar_id r = aid \<and> ar_gen r = g \<and> covers r t) \<longleftrightarrow>
    (if t < eff then \<exists>r\<in>set rows. ar_id r = aid \<and> ar_gen r = g \<and> covers r t
     else g = ar_gen cand \<and> t < asg_EffectiveUntil (ar_spec cand))"
proof -
  note cand = cutover_preD(2-4) [OF pre] and inv = cutover_preD(1) [OF pre]
  define y where "y = (\<lambda>r. if List.find (current_of aid) rows = Some r then closed_row E now eff r else r)"
  have rows: "cutover_rows E now eff aid cand rows = map (\<lambda>r. if r = cand then opened_row E now eff cand else y r) rows"
    unfolding y_def by (rule cutover_rows_map [OF timeline_invD(1) [OF inv] cand])
  have opened: "covers (opened_row E now eff cand) t \<longleftrightarrow> eff \<le> t \<and> t < asg_EffectiveUntil (ar_spec cand)"
    using cutover_preD(6,9) [OF pre] by (simp add: covers_def)
  have cand_none: "\<not> covers cand t"
    using candidate_no_authority [OF row_ok [OF timeline_invD(1) [OF inv] cand(1)]] cand(3) by (simp add: covers_def)
  have key: "ar_id (y r) = ar_id r" "ar_gen (y r) = ar_gen r" for r by (auto simp: y_def)
  have "(\<exists>r\<in>set (cutover_rows E now eff aid cand rows). ar_id r = aid \<and> ar_gen r = g \<and> covers r t) \<longleftrightarrow>
      (g = ar_gen cand \<and> covers (opened_row E now eff cand) t) \<or>
      (\<exists>r\<in>set rows. r \<noteq> cand \<and> ar_id r = aid \<and> ar_gen r = g \<and> covers (y r) t)"
    unfolding rows using cand(1,2) by (auto simp: key)
  also have "\<dots> \<longleftrightarrow> (g = ar_gen cand \<and> covers (opened_row E now eff cand) t) \<or>
      (\<exists>r\<in>set rows. r \<noteq> cand \<and> ar_id r = aid \<and> ar_gen r = g \<and> covers r t \<and> t < eff)"
    using cutover_covers [OF pre _ _ _ y_def [THEN fun_cong]] by blast
  finally show ?thesis using opened cand_none by auto
qed

text \<open>
  C13: An applied cutover at an event-time boundary attributes every instant before the
  boundary as before, every instant from the boundary to the end of the new generation's
  window to the new generation, and nothing after it; other assignments are not affected.
\<close>

theorem cutover_splits_timeline:
  assumes "reachable E d" and run: "CutoverAssignment E now source msg aid gen eff d = Inr (res, d')"
    and applied: "lcr_Disposition res = ApplyApplied" and t: "supportedUnixNanoseconds t"
  shows "resolved_generation a t d' =
      (if a \<noteq> aid \<or> t < eff then resolved_generation a t d
       else if t < asg_EffectiveUntil (rec_Assignment (lcr_Record res)) then Some gen else None)"
proof -
  have inv: "timeline_inv (assignments d)" using reachable_store_inv [OF assms(1)] by (simp add: store_inv_def)
  have inv': "timeline_inv (assignments d')" by (rule CutoverAssignment_timeline [OF inv run])
  from run show ?thesis
  proof (cases rule: CutoverAssignment_cases)
    case (applied cand)
    note cand = lookup_row_Some [OF applied(4)]
    have pre: "cutover_pre (assignments d) aid cand eff"
      by (rule CutoverAssignment_pre [OF inv applied(4,5,1,6,7,8)])
    have rec: "asg_EffectiveUntil (rec_Assignment (lcr_Record res)) = asg_EffectiveUntil (ar_spec cand)"
    proof -
      obtain r where r: "lookup_row aid gen d' = Some r" "lcr_Record res = scanAssignmentRecord r"
        using applied(13) by (auto simp: stmt)
      have "r = opened_row E now eff cand"
        by (rule row_key_inj [OF timeline_invD(1) [OF inv']])
          (use lookup_row_Some [OF r(1)] opened_mem [OF pre, of E now] cand applied(9) in auto)
      then show ?thesis using r by simp
    qed
    show ?thesis
    proof (cases "a = aid")
      case True
      show ?thesis
        by (rule option_eqI) (use True cutover_rows_cover [OF pre, of E now _ t] cand rec in
          \<open>auto simp: resolved_generation_Some [OF inv' t] resolved_generation_Some [OF inv t] applied(9)\<close>)
    next
      case False
      have "r \<in> set (assignments d') \<longleftrightarrow> r \<in> set (assignments d)" if "ar_id r = a" for r
        unfolding applied(9) cutover_rows_map [OF timeline_invD(1) [OF inv] cutover_preD(2-4) [OF pre]]
        using that False cand find_Some_iff_mem [of "current_of aid" "assignments d"]
        by (auto simp: current_of_def image_iff split: if_splits)
      then show ?thesis using False by (simp, intro resolved_generation_eqI [OF inv inv' t]) blast
    qed
  qed (use assms(3) in simp)
qed

theorem cutover_splits_timeline_witness:
  "resolved_generation ''A'' 1999 db_replaced = Some 1 \<and> resolved_generation ''A'' 2000 db_replaced = Some 2"
proof -
  have d: "lcr_Disposition (fst (projr (cutover_demo ''6'' 2 2000 db_replacing))) = ApplyApplied" by code_simp
  note split = cutover_splits_timeline [OF reachable_replacing demo_replaced d]
  have "resolved_generation ''A'' 1999 db_replaced = resolved_generation ''A'' 1999 db_replacing"
    by (subst split) (code_simp, simp)
  moreover have "resolved_generation ''A'' 1999 db_replacing = Some 1" by code_simp
  moreover have "asg_EffectiveUntil (rec_Assignment (lcr_Record (fst (projr (cutover_demo ''6'' 2 2000 db_replacing))))) = 9000"
    by code_simp
  then have "resolved_generation ''A'' 2000 db_replaced = Some 2"
    by (subst split) (code_simp, simp)
  ultimately show ?thesis by simp
qed

section \<open>Preparation, arming, cancellation\<close>

text \<open>Rewriting candidates into rows that are not current leaves every other row in place.\<close>

lemma quiet_rows:
  assumes ok: "assignments_ok rows" and P: "\<And>r. P r \<Longrightarrow> candidate_row r"
    and f: "\<And>r. P r \<Longrightarrow> \<not> current_row (f r) \<and> ar_from_ns (f r) = ar_from_ns r"
  shows "filter current_row (update_where P f rows) = filter current_row rows"
    "filter (\<lambda>r. ar_id r = aid \<and> covers r t) (update_where P f rows) = filter (\<lambda>r. ar_id r = aid \<and> covers r t) rows"
proof -
  show "filter current_row (update_where P f rows) = filter current_row rows"
    by (rule filter_update_where) (use P f candidate_not_current in auto)
  show "filter (\<lambda>r. ar_id r = aid \<and> covers r t) (update_where P f rows) = filter (\<lambda>r. ar_id r = aid \<and> covers r t) rows"
    by (rule filter_update_where)
      (use P f candidate_no_authority [OF row_ok [OF ok]] in \<open>auto simp: covers_def\<close>)
qed

lemma ResolveAssignmentAt_filter:
  "ResolveAssignmentAt aid t d =
     ebind (ensure (supportedUnixNanoseconds t) TimestampUnsupported) (\<lambda>_.
     Inr (map_option scanAssignmentRecord (latest_authority
       (filter (\<lambda>r. ar_id r = aid \<and> covers r (UnixNano t)) (assignments d)))))"
  by (simp add: ResolveAssignmentAt_def generations_def conj_commute)

lemma prepare_quiet:
  assumes ok: "assignments_ok (assignments d)" and run: "PrepareAssignment E now source msg ty a d = Inr (res, d')"
  shows "filter current_row (assignments d') = filter current_row (assignments d)"
    "ResolveAssignmentAt aid t d' = ResolveAssignmentAt aid t d"
proof -
  have "filter current_row (assignments d') = filter current_row (assignments d) \<and>
      ResolveAssignmentAt aid t d' = ResolveAssignmentAt aid t d"
    using run
  proof (cases rule: PrepareAssignment_cases)
    case stored
    let ?rows = "update_where (candidate_of (asg_ID a)) (release AssignmentSuperseded now) (assignments d)"
    have "filter current_row ?rows = filter current_row (assignments d)"
      "filter (\<lambda>r. ar_id r = aid \<and> covers r (UnixNano t)) ?rows = filter (\<lambda>r. ar_id r = aid \<and> covers r (UnixNano t)) (assignments d)"
      by (rule quiet_rows [OF ok]; simp add: candidate_of_def)+
    moreover have "\<not> covers (new_candidate now a) (UnixNano t)" by (simp add: covers_def)
    ultimately show ?thesis
      unfolding ResolveAssignmentAt_filter store_candidate_Inr(1) [OF stored(6)] filter_append by simp
  qed (auto simp: stmt ResolveAssignmentAt_filter)
  then show "filter current_row (assignments d') = filter current_row (assignments d)"
    "ResolveAssignmentAt aid t d' = ResolveAssignmentAt aid t d" by simp_all
qed

lemma transitionCandidate_quiet:
  assumes ok: "assignments_ok (assignments d)"
    and run: "transitionCandidate E now source msg ty cid gen target d = Inr (res, d')"
  shows "filter current_row (assignments d') = filter current_row (assignments d)"
    "ResolveAssignmentAt aid t d' = ResolveAssignmentAt aid t d"
proof -
  have "filter current_row (assignments d') = filter current_row (assignments d) \<and>
      ResolveAssignmentAt aid t d' = ResolveAssignmentAt aid t d"
    using run
  proof (cases rule: transitionCandidate_cases)
    case (applied row d1)
    have rows: "assignments d' = candidate_update now cid gen target (assignments d)"
      using recordLifecycleCommand_Inr(1) [OF applied(7)] applied(5) by simp
    show ?thesis
    proof (cases "target = AssignmentArmed")
      case True
      show ?thesis
        unfolding ResolveAssignmentAt_filter rows candidate_update_def if_P [OF True]
        by (subst quiet_rows [OF ok], simp, simp)+ simp
    next
      case False
      show ?thesis
        unfolding ResolveAssignmentAt_filter rows candidate_update_def if_not_P [OF False]
        by (subst quiet_rows [OF ok], simp, simp)+ simp
    qed
  qed simp
  then show "filter current_row (assignments d') = filter current_row (assignments d)"
    "ResolveAssignmentAt aid t d' = ResolveAssignmentAt aid t d" by simp_all
qed

text \<open>
  C25: Preparing, arming and cancelling candidates never disturbs authority: the current rows
  (their leases, schedules and revisions included) stay as they are, and every lookup by
  event time gives the same answer as before.
\<close>

theorem candidates_never_disturb_authority:
  assumes "reachable E d"
    and "PrepareAssignment E now source msg ty a d = Inr (pres, d') \<or>
      ArmAssignment E now source msg cid gen d = Inr (lres, d') \<or>
      CancelCandidate E now source msg cid gen d = Inr (lres, d')"
  shows "filter current_row (assignments d') = filter current_row (assignments d) \<and>
    ResolveAssignmentAt aid t d' = ResolveAssignmentAt aid t d"
proof -
  have ok: "assignments_ok (assignments d)"
    using reachable_store_inv [OF assms(1)] by (simp add: store_inv_def timeline_inv_def)
  show ?thesis
    using assms(2) prepare_quiet [OF ok] transitionCandidate_quiet [OF ok]
    unfolding ArmAssignment_def CancelCandidate_def by metis
qed

theorem candidates_never_disturb_authority_witness:
  "filter current_row (assignments db_replacing) =
     filter current_row (assignments (after (prepare_demo ''4'' 2 db_evaluated))) \<and>
   ResolveAssignmentAt ''A'' 1500 db_replacing = ResolveAssignmentAt ''A'' 1500 (after (prepare_demo ''4'' 2 db_evaluated))"
proof (rule candidates_never_disturb_authority)
  show "reachable store_env_demo (after (prepare_demo ''4'' 2 db_evaluated))"
    by (rule reachable.step [OF reachable_evaluated]) (rule store_step.prepare [OF demo_replacing(1)])
qed (intro disjI2 disjI1, rule demo_replacing(2))

end
