(* ===== verification/Store_Fencing.thy ===== *)
theory Store_Fencing
  imports Store_Authority
begin

text \<open>
  Lease fences. The contract an assignment lease and an outbox lease share is stated once: a
  generation that never goes back (\<open>monotone_fence\<close>) and operations that succeed only at the
  generation they were claimed under (\<open>fenced_operation\<close>). What follows from it, that a claim
  overtaken by a newer one can never write again, is proved in the locales and interpreted for
  the operations of the store.
\<close>

section \<open>The contract\<close>

locale monotone_fence =
  fixes step :: "'s \<Rightarrow> 's \<Rightarrow> bool" and inv :: "'s \<Rightarrow> bool" and fence_of :: "'s \<Rightarrow> 'k \<Rightarrow> nat option"
  assumes inv_step: "inv s \<Longrightarrow> step s s' \<Longrightarrow> inv s'"
    and fence_mono: "inv s \<Longrightarrow> step s s' \<Longrightarrow> fence_of s k = Some n \<Longrightarrow> \<exists>m. fence_of s' k = Some m \<and> n \<le> m"
begin

lemma steps_inv: "step\<^sup>*\<^sup>* s s' \<Longrightarrow> inv s \<Longrightarrow> inv s'"
  by (induction rule: rtranclp_induct) (auto intro: inv_step)

lemma steps_mono: "step\<^sup>*\<^sup>* s s' \<Longrightarrow> inv s \<Longrightarrow> fence_of s k = Some n \<Longrightarrow> \<exists>m. fence_of s' k = Some m \<and> n \<le> m"
proof (induction rule: rtranclp_induct)
  case (step t u)
  then obtain m where m: "fence_of t k = Some m" "n \<le> m" by blast
  have "inv t" using step.hyps(1) step.prems(1) by (rule steps_inv)
  from fence_mono [OF this step.hyps(2) m(1)] m(2) show ?case by (auto intro: order_trans)
qed simp

end

locale fenced_operation = monotone_fence step inv fence_of
  for step :: "'s \<Rightarrow> 's \<Rightarrow> bool" and inv :: "'s \<Rightarrow> bool" and fence_of :: "'s \<Rightarrow> 'k \<Rightarrow> nat option" +
  fixes succeeds :: "'c \<Rightarrow> 's \<Rightarrow> bool" and key_of :: "'c \<Rightarrow> 'k" and held :: "'c \<Rightarrow> nat"
  assumes fenced: "inv s \<Longrightarrow> succeeds c s \<Longrightarrow> fence_of s (key_of c) = Some (held c)"
begin

lemma overtaken_never_succeeds:
  assumes "inv s" "fence_of s (key_of c) = Some n" "held c < n" "step\<^sup>*\<^sup>* s s'"
  shows "\<not> succeeds c s'"
proof
  assume "succeeds c s'"
  then have "fence_of s' (key_of c) = Some (held c)" using fenced steps_inv [OF assms(4,1)] by blast
  then show False using steps_mono [OF assms(4,1,2)] assms(3) by auto
qed

end

section \<open>Assignment leases\<close>

definition lease_generation_of :: "db \<Rightarrow> string \<times> nat \<Rightarrow> nat option" where
  "lease_generation_of d k = map_option ar_lease_generation (lookup_row (fst k) (snd k) d)"

lemma lookup_row_mem:
  assumes "assignments_ok (assignments d)" "r \<in> set (assignments d)"
  shows "lookup_row (ar_id r) (ar_gen r) d = Some r"
  unfolding lookup_row_def
  by (rule find_unique) (use assms row_key_inj [OF assms(1) _ assms(2)] in auto)

lemma lease_generation_mono:
  assumes "store_inv d" "store_step E d d'" "lease_generation_of d k = Some n"
  shows "\<exists>m. lease_generation_of d' k = Some m \<and> n \<le> m"
proof -
  from assms(3) obtain r where r: "lookup_row (fst k) (snd k) d = Some r" "n = ar_lease_generation r"
    by (auto simp: lease_generation_of_def)
  note mem = lookup_row_Some [OF r(1)]
  obtain r' where r': "r' \<in> set (assignments d')" "row_step r r'"
    using store_step_evolves [OF assms(2,1)] mem by (auto simp: evolves_def)
  have "assignments_ok (assignments d')"
    using store_step_inv [OF assms(2,1)] by (simp add: store_inv_def timeline_inv_def)
  from lookup_row_mem [OF this r'(1)] r' r mem show ?thesis
    by (auto simp: lease_generation_of_def row_step_def)
qed

lemma lease_fence_generation:
  assumes "store_inv d" "row \<in> set (assignments d)" "lease_fence now c row"
  shows "lease_generation_of d (asg_ID (cl_Assignment c), asg_Generation (cl_Assignment c)) = Some (cl_LeaseGeneration c)"
  using assms lookup_row_mem [of d row]
  by (auto simp: lease_generation_of_def lease_fence_def store_inv_def timeline_inv_def)

abbreviation claim_key :: "claim \<Rightarrow> string \<times> nat" where
  "claim_key c \<equiv> (asg_ID (cl_Assignment c), asg_Generation (cl_Assignment c))"

interpretation assignment_lease: monotone_fence "store_step E" store_inv lease_generation_of for E
  by unfold_locales (auto intro: store_step_inv lease_generation_mono)

definition commit_succeeds :: "store_env \<Rightarrow> claim \<Rightarrow> db \<Rightarrow> bool" where
  "commit_succeeds E c d \<longleftrightarrow>
     (\<exists>now cm d'. CommitEvaluation E now c cm d = Inr d') \<or>
     (\<exists>now hist cm d'. CommitHistoricalEvaluation E now c hist cm d = Inr d')"

definition lease_kept :: "store_env \<Rightarrow> claim \<Rightarrow> db \<Rightarrow> bool" where
  "lease_kept E c d \<longleftrightarrow>
     (\<exists>now t d'. DeferAssignmentEvaluation E now c t d = Inr d') \<or>
     (\<exists>now ext d'. RenewAssignmentLease E now c ext d = Inr d')"

lemma commit_fenced:
  assumes "store_inv d" "commit_succeeds E c d"
  shows "lease_generation_of d (claim_key c) = Some (cl_LeaseGeneration c)"
proof -
  have ok: "assignments_ok (assignments d)" using assms(1) by (simp add: store_inv_def timeline_inv_def)
  from assms(2) have "\<exists>now row. row \<in> set (assignments d) \<and> lease_fence now c row"
    unfolding commit_succeeds_def
    by (elim disjE exE) (erule CommitEvaluation_Inr [OF ok] CommitHistoricalEvaluation_Inr [OF ok], blast)+
  then show ?thesis using lease_fence_generation [OF assms(1)] by blast
qed

lemma rows_affected_ex: "rows_affected P rows = Suc 0 \<Longrightarrow> \<exists>r\<in>set rows. P r"
  using rows_affected_1 [of P rows] by auto

lemma lease_kept_fenced:
  assumes "store_inv d" "lease_kept E c d"
  shows "lease_generation_of d (claim_key c) = Some (cl_LeaseGeneration c)"
proof -
  from assms(2) have "\<exists>now row. row \<in> set (assignments d) \<and> lease_fence now c row"
    unfolding lease_kept_def DeferAssignmentEvaluation_def RenewAssignmentLease_def
    by (auto simp: monad_splits stmt dest!: rows_affected_ex)
  then show ?thesis using lease_fence_generation [OF assms(1)] by blast
qed

interpretation fenced_commit: fenced_operation "store_step E" store_inv lease_generation_of
    "commit_succeeds E" claim_key cl_LeaseGeneration for E
  by unfold_locales (rule commit_fenced)

interpretation fenced_lease: fenced_operation "store_step E" store_inv lease_generation_of
    "lease_kept E" claim_key cl_LeaseGeneration for E
  by unfold_locales (rule lease_kept_fenced)

text \<open>
  C3: Fencing. Once the lease generation of an assignment has moved past the one a worker
  claimed, no sequence of operations of any workers brings that worker back: neither a live
  nor a historical commit, nor a deferral, nor a renewal with the old claim ever succeeds
  again.
\<close>

theorem overtaken_claim_is_fenced:
  assumes "reachable E d" "(store_step E)\<^sup>*\<^sup>* d d'"
    and "lookup_row (asg_ID (cl_Assignment c)) (asg_Generation (cl_Assignment c)) d = Some r"
    and "cl_LeaseGeneration c < ar_lease_generation r"
  shows "CommitEvaluation E now c cm d' \<noteq> Inr d1 \<and> CommitHistoricalEvaluation E now c hist cm d' \<noteq> Inr d1 \<and>
    DeferAssignmentEvaluation E now c t d' \<noteq> Inr d1 \<and> RenewAssignmentLease E now c ext d' \<noteq> Inr d1"
proof -
  have inv: "store_inv d" by (rule reachable_store_inv [OF assms(1)])
  have gen: "lease_generation_of d (claim_key c) = Some (ar_lease_generation r)"
    using assms(3) by (simp add: lease_generation_of_def)
  have "\<not> commit_succeeds E c d'" by (rule fenced_commit.overtaken_never_succeeds [OF inv gen assms(4,2)])
  moreover have "\<not> lease_kept E c d'" by (rule fenced_lease.overtaken_never_succeeds [OF inv gen assms(4,2)])
  ultimately show ?thesis unfolding commit_succeeds_def lease_kept_def by blast
qed

theorem overtaken_claim_is_fenced_witness:
  "CommitEvaluation store_env_demo 5010 (claim_demo 1 0 0) (commit_demo 1500 ''B'' 1) db_claimed \<noteq> Inr db_evaluated \<and>
   CommitHistoricalEvaluation store_env_demo 5010 (claim_demo 1 0 0) 0 (commit_demo 1500 ''B'' 1) db_claimed \<noteq> Inr db_evaluated \<and>
   DeferAssignmentEvaluation store_env_demo 5010 (claim_demo 1 0 0) 6000 db_claimed \<noteq> Inr db_evaluated \<and>
   RenewAssignmentLease store_env_demo 5010 (claim_demo 1 0 0) 50 db_claimed \<noteq> Inr db_evaluated"
proof -
  have "\<exists>r. lookup_row (asg_ID (cl_Assignment (claim_demo 1 0 0))) (asg_Generation (cl_Assignment (claim_demo 1 0 0))) db_claimed = Some r \<and>
      cl_LeaseGeneration (claim_demo 1 0 0) < ar_lease_generation r"
  proof -
    have "map_option ar_lease_generation (lookup_row (asg_ID (cl_Assignment (claim_demo 1 0 0))) (asg_Generation (cl_Assignment (claim_demo 1 0 0))) db_claimed) = Some 1"
      by code_simp
    then show ?thesis by (auto simp: claim_demo_def)
  qed
  then obtain r where r: "lookup_row (asg_ID (cl_Assignment (claim_demo 1 0 0))) (asg_Generation (cl_Assignment (claim_demo 1 0 0))) db_claimed = Some r"
      "cl_LeaseGeneration (claim_demo 1 0 0) < ar_lease_generation r" by blast
  show ?thesis by (rule overtaken_claim_is_fenced [OF reachable_claimed rtranclp.rtrancl_refl r])
qed

end
