(* ===== verification/Store_Claims.thy ===== *)
theory Store_Claims
  imports Store_Fencing
begin

text \<open>
  Claiming due assignments: valid arguments always give a result, the claims lease distinct,
  due, unleased rows and repeat what those rows say, and rows under a live lease are not
  touched.
\<close>

lemma take_lease_simps [simp]:
  "ar_id (take_lease E now w lease r) = ar_id r" "ar_gen (take_lease E now w lease r) = ar_gen r" "ar_lifecycle (take_lease E now w lease r) = ar_lifecycle r"
  "ar_spec (take_lease E now w lease r) = ar_spec r" "ar_from_ns (take_lease E now w lease r) = ar_from_ns r"
  "ar_until_ns (take_lease E now w lease r) = ar_until_ns r"
  "ar_lease_generation (take_lease E now w lease r) = Suc (ar_lease_generation r)"
  "ar_lease_owner (take_lease E now w lease r) = Some w"
  "ar_lease_until (take_lease E now w lease r) = Some (now + pg_interval E lease)"
  "ar_evaluation_revision (take_lease E now w lease r) = ar_evaluation_revision r"
  "assignment_row_ok (take_lease E now w lease r) = assignment_row_ok r"
  by (simp_all add: take_lease_def assignment_row_ok_def authority_interval_valid_def lifecycle_authority_valid_def)

lemma updates_keep_constraints:
  assumes ok: "assignments_ok rows"
    and f: "\<And>r. row_key (f r) = row_key r \<and> ar_lifecycle (f r) = ar_lifecycle r \<and> assignment_row_ok (f r) = assignment_row_ok r"
  shows "assignments_ok (update_where P f rows)"
proof -
  let ?g = "\<lambda>r. if P r then f r else r"
  have same: "row_key (?g r) = row_key r" "ar_id (?g r) = ar_id r" "ar_lifecycle (?g r) = ar_lifecycle r"
    "assignment_row_ok (?g r) = assignment_row_ok r" for r
    using f [of r] by auto
  have "map row_key (map ?g rows) = map row_key rows"
    "map ar_id (filter current_row (map ?g rows)) = map ar_id (filter current_row rows)"
    "map ar_id (filter candidate_row (map ?g rows)) = map ar_id (filter candidate_row rows)"
    using same by (induction rows) auto
  moreover have "list_all assignment_row_ok (map ?g rows) = list_all assignment_row_ok rows"
    using same(4) by (induction rows) auto
  ultimately show ?thesis using ok unfolding assignments_ok_def update_where_def by (simp only: simp_thms)
qed

lemma leases_keep_constraints:
  "assignments_ok rows \<Longrightarrow> assignments_ok (update_where P (take_lease E now w lease) rows)"
  by (rule updates_keep_constraints) simp_all

lemma drop_lease_row_ok [simp]: "assignment_row_ok (drop_lease now t r) = assignment_row_ok r"
  by (simp add: drop_lease_def assignment_row_ok_def authority_interval_valid_def lifecycle_authority_valid_def)

lemma counted_row_ok [simp]: "assignment_row_ok (r\<lparr>ar_evaluation_revision := n\<rparr>) = assignment_row_ok r"
  by (simp add: assignment_row_ok_def authority_interval_valid_def lifecycle_authority_valid_def)

text \<open>The claim that scanning a leased row with authority gives.\<close>

definition claim_of :: "string \<Rightarrow> duration \<Rightarrow> assignment_row \<Rightarrow> claim" where
  "claim_of w grace r =
     \<lparr>cl_Assignment = ar_spec r, cl_AuthorityFrom = the (ar_from_ns r), cl_AuthorityUntil = the (ar_until_ns r),
      cl_FinalizationGrace = grace, cl_WorkerID = w, cl_LeaseGeneration = ar_lease_generation r,
      cl_LeaseUntil = the (ar_lease_until r), cl_EvaluationRevision = ar_evaluation_revision r\<rparr>"

lemma scan_claims_total:
  "\<forall>r\<in>set rs. ar_from_ns r \<noteq> None \<and> ar_until_ns r \<noteq> None \<and> ar_lease_until r \<noteq> None \<Longrightarrow>
   scan_claims w grace rs = Inr (map (claim_of w grace) rs)"
  by (induction rs) (auto simp: scan_claim_def claim_of_def)

lemma due_keys_mem:
  "k \<in> set (due_keys E now locked grace n d) \<Longrightarrow>
     \<exists>r\<in>set (assignments d). row_key r = k \<and> due E now grace r \<and> \<not> locked r"
  by (auto simp: due_keys_def dest!: in_set_takeD)

text \<open>The outcome of a claim, row by row: every chosen row is leased, the claims repeat them.\<close>

lemma ClaimDue_rows:
  assumes inv: "store_inv d" and args: "w \<noteq> []" "0 < lease" "0 \<le> grace" "1 \<le> limit"
    and chosen_def: "chosen = filter (\<lambda>r. row_key r \<in> set (due_keys E now locked grace (nat limit) d)) (assignments d)"
    and leased_def: "leased = take_lease E now w lease"
  shows "ClaimDueAssignmentsWithFinalizationGrace E now locked w lease grace limit d =
      (Inr (map (claim_of w grace \<circ> leased) chosen),
       d\<lparr>assignments := map (\<lambda>r. if r \<in> set chosen then leased r else r) (assignments d)\<rparr>)"
    "\<And>r. r \<in> set chosen \<Longrightarrow> r \<in> set (assignments d) \<and> due E now grace r \<and> \<not> locked r"
    "length chosen \<le> nat limit" "distinct (map row_key chosen)"
proof -
  let ?keys = "due_keys E now locked grace (nat limit) d"
  let ?P = "\<lambda>r. row_key r \<in> set ?keys"
  have tl: "timeline_inv (assignments d)" using inv by (simp add: store_inv_def)
  note ok = timeline_invD(1) [OF tl]
  show sel: "r \<in> set (assignments d) \<and> due E now grace r \<and> \<not> locked r" if "r \<in> set chosen" for r
  proof -
    from that have r: "r \<in> set (assignments d)" "row_key r \<in> set ?keys" by (simp_all add: chosen_def)
    from due_keys_mem [OF r(2)] obtain s where s: "s \<in> set (assignments d)" "row_key s = row_key r" "due E now grace s" "\<not> locked s"
      by blast
    have "s = r" by (rule row_key_inj [OF ok s(1) r(1)]) (use s(2) in simp_all)
    then show ?thesis using s r by simp
  qed
  have dist: "distinct (map row_key (assignments d))" using ok by (simp add: assignments_ok_def)
  then show dc: "distinct (map row_key chosen)" unfolding chosen_def by (rule distinct_map_filter)
  show "length chosen \<le> nat limit"
  proof -
    have "length chosen = card (row_key ` set chosen)" using dc by (metis distinct_card length_map list.set_map)
    also have "\<dots> \<le> card (set ?keys)" by (rule card_mono) (auto simp: chosen_def)
    also have "\<dots> \<le> nat limit" using card_length [of ?keys] by (simp add: due_keys_def)
    finally show ?thesis .
  qed
  have rows: "update_where ?P leased (assignments d) = map (\<lambda>r. if r \<in> set chosen then leased r else r) (assignments d)"
    by (simp add: update_where_def chosen_def)
  have filt: "filter ?P (map (\<lambda>r. if r \<in> set chosen then leased r else r) xs) = map leased (filter ?P xs)"
    if "set xs \<subseteq> set (assignments d)" for xs
    using that by (induction xs) (auto simp: chosen_def leased_def)
  have auth: "\<forall>r\<in>set (map leased chosen). ar_from_ns r \<noteq> None \<and> ar_until_ns r \<noteq> None \<and> ar_lease_until r \<noteq> None"
  proof
    fix r assume "r \<in> set (map leased chosen)"
    then obtain s where s: "s \<in> set chosen" "r = leased s" by auto
    then have "current_row s" "s \<in> set (assignments d)" using sel by (auto simp: due_def)
    then show "ar_from_ns r \<noteq> None \<and> ar_until_ns r \<noteq> None \<and> ar_lease_until r \<noteq> None"
      using current_authority [OF row_ok [OF ok], of s] s(2) by (auto simp: leased_def)
  qed
  have "put_assignments (update_where ?P leased (assignments d)) d =
      Inr (d\<lparr>assignments := map (\<lambda>r. if r \<in> set chosen then leased r else r) (assignments d)\<rparr>)"
    using leases_keep_constraints [OF ok, of ?P E now w lease] rows by (simp add: put_assignments_def leased_def)
  then show "ClaimDueAssignmentsWithFinalizationGrace E now locked w lease grace limit d =
      (Inr (map (claim_of w grace \<circ> leased) chosen),
       d\<lparr>assignments := map (\<lambda>r. if r \<in> set chosen then leased r else r) (assignments d)\<rparr>)"
    using args filt [of "assignments d"] scan_claims_total [OF auth, of w grace]
    by (simp add: ClaimDueAssignmentsWithFinalizationGrace_def Let_def leased_def flip: chosen_def)
qed

lemma leased_claim:
  assumes tl: "timeline_inv rs" and r: "r \<in> set rs" "due E now grace r" and "0 < pg_interval E lease"
    and leased_def: "leased = take_lease E now w lease r" and c_def: "c = claim_of w grace leased"
  shows "claim_key c = row_key r" "cl_Assignment c = ar_spec r" "Some (cl_AuthorityFrom c) = ar_from_ns r"
    "Some (cl_AuthorityUntil c) = ar_until_ns r" "cl_EvaluationRevision c = ar_evaluation_revision r"
    "cl_LeaseGeneration c = Suc (ar_lease_generation r)" "lease_fence now c leased"
proof -
  have cur: "current_row r" using r by (simp add: due_def)
  obtain f u where fu: "ar_from_ns r = Some f" "ar_until_ns r = Some u"
    using current_authority [OF row_ok [OF timeline_invD(1) [OF tl]] cur] r by blast
  show key: "claim_key c = row_key r"
    using timeline_invD(2) [OF tl] r by (simp add: c_def leased_def claim_of_def spec_agrees_def)
  show "cl_Assignment c = ar_spec r" "Some (cl_AuthorityFrom c) = ar_from_ns r"
    "Some (cl_AuthorityUntil c) = ar_until_ns r" "cl_EvaluationRevision c = ar_evaluation_revision r"
    "cl_LeaseGeneration c = Suc (ar_lease_generation r)"
    using fu by (simp_all add: c_def leased_def claim_of_def)
  show "lease_fence now c leased"
    using key fu cur assms(4) unfolding c_def leased_def
    by (simp add: lease_fence_def lease_live_def) (simp add: claim_of_def)
qed

lemma overwritten_rows:
  fixes g :: "assignment_row \<Rightarrow> assignment_row"
  defines "new \<equiv> \<lambda>ys xs. map (\<lambda>r. if r \<in> set ys then g r else r) xs"
  shows "r \<in> set ys \<Longrightarrow> r \<in> set xs \<Longrightarrow> g r \<in> set (new ys xs)"
    "r \<notin> set ys \<Longrightarrow> r \<in> set xs \<Longrightarrow> r \<in> set (new ys xs)"
  by (force simp: new_def)+

text \<open>
  C18: Exclusive claims. With valid arguments a claim never fails, takes at most the requested
  number of distinct assignments, and leases only rows that are current, due, within their grace
  and under no live lease. Each claim repeats the specification, the authority interval and the
  revision of its row, carries the next lease generation, and passes the ownership fence; no
  other row is changed.
\<close>

theorem claims_are_exclusive:
  assumes "reachable E d" "w \<noteq> []" "0 < lease" "0 \<le> grace" "1 \<le> limit" "0 < pg_interval E lease"
  shows "\<exists>cs d'. ClaimDueAssignmentsWithFinalizationGrace E now locked w lease grace limit d = (Inr cs, d') \<and>
    length cs \<le> nat limit \<and> distinct (map claim_key cs) \<and>
    (\<forall>c\<in>set cs. \<exists>r\<in>set (assignments d). \<exists>r'\<in>set (assignments d').
        claim_key c = row_key r \<and> due E now grace r \<and> \<not> locked r \<and> cl_Assignment c = ar_spec r \<and>
        Some (cl_AuthorityFrom c) = ar_from_ns r \<and> Some (cl_AuthorityUntil c) = ar_until_ns r \<and>
        cl_EvaluationRevision c = ar_evaluation_revision r \<and>
        cl_LeaseGeneration c = Suc (ar_lease_generation r) \<and> lease_fence now c r') \<and>
    (\<forall>r\<in>set (assignments d). row_key r \<notin> claim_key ` set cs \<longrightarrow> r \<in> set (assignments d'))"
proof -
  note inv = reachable_store_inv [OF assms(1)]
  have tl: "timeline_inv (assignments d)" using inv by (simp add: store_inv_def)
  define chosen where chosen: "chosen = filter (\<lambda>r. row_key r \<in> set (due_keys E now locked grace (nat limit) d)) (assignments d)"
  let ?leased = "take_lease E now w lease"
  let ?cs = "map (claim_of w grace \<circ> ?leased) chosen"
  let ?d' = "d\<lparr>assignments := map (\<lambda>r. if r \<in> set chosen then ?leased r else r) (assignments d)\<rparr>"
  note cd = ClaimDue_rows [OF inv assms(2-5) chosen refl]
  have claim: "r \<in> set (assignments d)" "due E now grace r" "\<not> locked r" if "r \<in> set chosen" for r
    using cd(2) [OF that] by simp_all
  note made = leased_claim [OF tl claim(1, 2) assms(6) refl refl]
  have keys: "map claim_key ?cs = map row_key chosen" by (simp add: made(1))
  then have "claim_key ` set ?cs = row_key ` set chosen" by (metis list.set_map)
  then have rest: "r \<notin> set chosen" if "row_key r \<notin> claim_key ` set ?cs" for r using that by auto
  show ?thesis
  proof (intro exI [of _ ?cs] exI [of _ ?d'] conjI ballI impI)
    show "ClaimDueAssignmentsWithFinalizationGrace E now locked w lease grace limit d = (Inr ?cs, ?d')" by (rule cd(1))
    show "length ?cs \<le> nat limit" using cd(3) by simp
    show "distinct (map claim_key ?cs)" unfolding keys by (rule cd(4))
    show "r \<in> set (assignments ?d')" if "r \<in> set (assignments d)" "row_key r \<notin> claim_key ` set ?cs" for r
      using overwritten_rows(2) [OF rest [OF that(2)] that(1)] by simp
    fix c assume "c \<in> set ?cs"
    then obtain r where r: "r \<in> set chosen" "c = claim_of w grace (?leased r)" by auto
    note m = made [OF r(1) r(1)] claim [OF r(1)]
    have "?leased r \<in> set (assignments ?d')" using overwritten_rows(1) [OF r(1) m(8)] by simp
    note row = bexI [OF bexI [OF _ this] m(8)]
    show "\<exists>r\<in>set (assignments d). \<exists>r'\<in>set (assignments ?d').
        claim_key c = row_key r \<and> due E now grace r \<and> \<not> locked r \<and> cl_Assignment c = ar_spec r \<and>
        Some (cl_AuthorityFrom c) = ar_from_ns r \<and> Some (cl_AuthorityUntil c) = ar_until_ns r \<and>
        cl_EvaluationRevision c = ar_evaluation_revision r \<and>
        cl_LeaseGeneration c = Suc (ar_lease_generation r) \<and> lease_fence now c r'"
      unfolding r(2) by (rule row) (intro conjI m)
  qed
qed

theorem claims_are_exclusive_witness:
  "\<exists>cs d'. claim_op_demo db_active = (Inr cs, d') \<and> length cs \<le> 10 \<and> distinct (map claim_key cs)"
proof -
  have args: "''w'' \<noteq> []" "0 < (100 :: duration)" "0 \<le> (0 :: duration)" "1 \<le> (10 :: int)" "0 < pg_interval store_env_demo 100"
    by (simp_all add: store_env_demo_def)
  from claims_are_exclusive [OF reachable_active args, of 5000 "\<lambda>_. False"]
  obtain cs d' where "claim_op_demo db_active = (Inr cs, d')" "length cs \<le> nat 10" "distinct (map claim_key cs)"
    by (elim exE conjE)
  then show ?thesis by (intro exI [of _ cs] exI [of _ d'] conjI) simp_all
qed

end
