(* ===== verification/Store_Ledger.thy ===== *)
theory Store_Ledger
  imports Store_Evolution
begin

text \<open>
  The append-only tables. No operation rewrites or deletes an event, a checkpoint or a lifecycle
  transition; an outbox row keeps its identity and payload, its lease generation only grows and
  a delivered row is never touched again. Every event belongs to a stored generation, and every
  Registry message repeats a revision its generation has reached.
\<close>

section \<open>Rows\<close>

definition outbox_row_step :: "outbox_row \<Rightarrow> outbox_row \<Rightarrow> bool" where
  "outbox_row_step o1 o2 \<longleftrightarrow>
     ob_id o2 = ob_id o1 \<and> ob_key o2 = ob_key o1 \<and> ob_destination o2 = ob_destination o1 \<and>
     ob_aid o2 = ob_aid o1 \<and> ob_gen o2 = ob_gen o1 \<and> ob_rev o2 = ob_rev o1 \<and>
     ob_payload o2 = ob_payload o1 \<and> ob_lease_generation o1 \<le> ob_lease_generation o2 \<and>
     (ob_delivered_at o1 \<noteq> None \<longrightarrow> o2 = o1)"

lemma outbox_row_step_refl [simp]: "outbox_row_step r r"
  by (simp add: outbox_row_step_def)

text \<open>A Registry message is leased only at the head of its line, and delivered only under a lease.\<close>

definition outbox_move :: "outbox_row list \<Rightarrow> outbox_row \<Rightarrow> outbox_row \<Rightarrow> bool" where
  "outbox_move rows r r' \<longleftrightarrow>
     outbox_row_step r r' \<and>
     (ob_lease_owner r' = None \<or> ob_lease_owner r' = ob_lease_owner r \<or> ob_destination r \<noteq> ''registry'' \<or>
      head_of_line rows r) \<and>
     (ob_delivered_at r' = ob_delivered_at r \<or> ob_lease_owner r \<noteq> None)"

lemma outbox_move_refl [simp]: "outbox_move rows r r"
  by (simp add: outbox_move_def)

lemma outbox_moveD: "outbox_move rows r r' \<Longrightarrow> outbox_row_step r r'"
  by (simp add: outbox_move_def)

definition event_wf :: "store_env \<Rightarrow> db \<Rightarrow> event_row \<Rightarrow> bool" where
  "event_wf E d e \<longleftrightarrow>
     has_assignment d (evt_aid e) (evt_gen e) \<and> (\<exists>t. evt_observed_at e = timestamptz E t) \<and>
     (\<exists>s. evt_id e = sha_hex E s)"

definition registry_wf :: "db \<Rightarrow> outbox_row \<Rightarrow> bool" where
  "registry_wf d r \<longleftrightarrow>
     ob_destination r = ''registry'' \<and> ob_id r = registry_id (ob_aid r) (ob_gen r) (ob_rev r) \<and>
     (\<exists>e. ob_payload r = PayloadEvaluation e) \<and>
     (\<exists>a\<in>set (assignments d). row_key a = (ob_aid r, ob_gen r) \<and> ar_from_ns a \<noteq> None \<and>
        ob_rev r \<le> ar_evaluation_revision a)"

definition outbox_wf :: "store_env \<Rightarrow> db \<Rightarrow> outbox_row \<Rightarrow> bool" where
  "outbox_wf E d r \<longleftrightarrow>
     ob_key r = ob_id r \<and>
     ((ob_destination r = ''api'' \<and> (\<exists>s. ob_id r = sha_hex E s)) \<or> registry_wf d r)"

text \<open>A message as it is enqueued: not leased, not delivered, of the current generation and revision.\<close>

definition outbox_new :: "db \<Rightarrow> outbox_row \<Rightarrow> bool" where
  "outbox_new d r \<longleftrightarrow>
     ob_lease_owner r = None \<and> ob_delivered_at r = None \<and>
     (ob_destination r = ''registry'' \<longrightarrow>
        (\<exists>a\<in>set (assignments d). current_row a \<and> row_key a = (ob_aid r, ob_gen r) \<and>
           ob_rev r = ar_evaluation_revision a))"

definition appends :: "'a list \<Rightarrow> 'a list \<Rightarrow> ('a \<Rightarrow> bool) \<Rightarrow> bool" where
  "appends xs ys P \<longleftrightarrow> (\<exists>new. ys = xs @ new \<and> list_all P new)"

lemma appends_same [simp]: "appends xs xs P"
  by (auto simp: appends_def)

lemma appends_one [simp]: "P x \<Longrightarrow> appends xs (xs @ [x]) P"
  by (auto simp: appends_def)

lemma appends_trans: "appends xs ys P \<Longrightarrow> appends ys zs P \<Longrightarrow> appends xs zs P"
  by (auto simp: appends_def)

lemma appends_weaken: "appends xs ys P \<Longrightarrow> (\<And>x. P x \<Longrightarrow> Q x) \<Longrightarrow> appends xs ys Q"
  by (auto simp: appends_def list_all_iff)

definition outbox_evolves :: "store_env \<Rightarrow> db \<Rightarrow> db \<Rightarrow> bool" where
  "outbox_evolves E d d' \<longleftrightarrow>
     (\<exists>f new. outbox d' = map f (outbox d) @ new \<and> (\<forall>r\<in>set (outbox d). outbox_move (outbox d) r (f r)) \<and>
        list_all (\<lambda>r. outbox_wf E d' r \<and> outbox_new d' r) new \<and> length new \<le> 1) \<and>
     (outbox_ok (outbox d) \<longrightarrow> outbox_ok (outbox d'))"

definition ledger_step :: "store_env \<Rightarrow> db \<Rightarrow> db \<Rightarrow> bool" where
  "ledger_step E d d' \<longleftrightarrow>
     appends (events d) (events d') (event_wf E d') \<and> (events_ok (events d) \<longrightarrow> events_ok (events d')) \<and>
     appends (checkpoints d) (checkpoints d') (\<lambda>_. True) \<and>
     appends (transitions d) (transitions d') (\<lambda>_. True) \<and> outbox_evolves E d d'"

section \<open>Steps\<close>

lemma outbox_evolves_same: "outbox d' = outbox d \<Longrightarrow> outbox_evolves E d d'"
  unfolding outbox_evolves_def by (intro conjI exI [of _ "\<lambda>r. r"] exI [of _ "[]"]) auto

lemma outbox_evolves_append:
  assumes "outbox d' = outbox d @ [r]" "outbox_wf E d' r" "outbox_new d' r" "outbox_ok (outbox d')"
  shows "outbox_evolves E d d'"
  unfolding outbox_evolves_def using assms by (intro conjI exI [of _ "\<lambda>r. r"] exI [of _ "[r]"]) auto

lemma outbox_evolves_update:
  assumes "outbox d' = update_where P f (outbox d)" "\<And>r. r \<in> set (outbox d) \<Longrightarrow> P r \<Longrightarrow> outbox_move (outbox d) r (f r)"
  shows "outbox_evolves E d d'"
proof -
  have steps: "outbox_move (outbox d) r (if P r then f r else r)" if "r \<in> set (outbox d)" for r using assms(2) that by simp
  have "map ob_id (outbox d') = map ob_id (outbox d)" "map ob_key (outbox d') = map ob_key (outbox d)"
    using assms(1) steps by (auto simp: update_where_def outbox_move_def outbox_row_step_def)
  then have "outbox_ok (outbox d) \<longrightarrow> outbox_ok (outbox d')" by (simp add: outbox_ok_def)
  moreover have "outbox d' = map (\<lambda>r. if P r then f r else r) (outbox d) @ []"
    using assms(1) by (simp add: update_where_def)
  ultimately show ?thesis unfolding outbox_evolves_def using steps
    by (intro conjI exI [of _ "\<lambda>r. if P r then f r else r"] exI [of _ "[]"]) auto
qed

lemma ledger_same:
  "evidence_tables d' = evidence_tables d \<Longrightarrow> transitions d' = transitions d \<Longrightarrow> outbox d' = outbox d \<Longrightarrow> ledger_step E d d'"
  by (simp add: ledger_step_def evidence_tables_def outbox_evolves_same)

lemma ledger_lifecycle:
  assumes "evidence_tables d' = evidence_tables d" "appends (transitions d) (transitions d') (\<lambda>_. True)" "outbox_evolves E d d'"
  shows "ledger_step E d d'"
  using assms by (simp add: ledger_step_def evidence_tables_def)

lemma api_outbox_wf [simp]: "outbox_wf E d (api_outbox now (stableID E parts) aid gen pl)"
  by (auto simp: outbox_wf_def api_outbox_def stableID_def)

lemma api_outbox_new [simp]: "outbox_new d (api_outbox now oid aid gen pl)"
  by (simp add: outbox_new_def api_outbox_def)

lemma prepare_ledger:
  assumes "PrepareAssignment E now source msg ty a d = Inr (res, d')"
  shows "ledger_step E d d'"
  using assms
proof (cases rule: PrepareAssignment_cases)
  case (replay row)
  then show ?thesis by (simp add: ledger_same)
next
  case (known current)
  then show ?thesis by (auto simp: stmt evidence_tables_def intro!: ledger_same)
next
  case stored
  show ?thesis
  proof (rule ledger_lifecycle)
    show "evidence_tables d' = evidence_tables d" by (rule store_candidate_Inr(3) [OF stored(6)])
    show "appends (transitions d) (transitions d') (\<lambda>_. True)"
      using stored(6) by (auto simp: store_candidate_def monad_splits stmt Let_def appends_def split: option.splits)
    show "outbox_evolves E d d'"
      by (rule outbox_evolves_append [OF _ api_outbox_wf api_outbox_new])
        (use stored(6) in \<open>auto simp: store_candidate_def monad_splits stmt Let_def split: option.splits\<close>)
  qed
qed

lemma record_ledger:
  assumes "recordLifecycleCommand E now source msg ty aid gen from target eff pl hash d = Inr d'"
  shows "outbox_ok (outbox d')"
  using assms by (auto simp: recordLifecycleCommand_def monad_splits stmt)

lemma transitionCandidate_ledger:
  assumes "transitionCandidate E now source msg ty aid gen target d = Inr (res, d')"
  shows "ledger_step E d d'"
  using assms
proof (cases rule: transitionCandidate_cases)
  case replay
  then show ?thesis by (simp add: ledger_same)
next
  case (applied row d1)
  note rec = recordLifecycleCommand_Inr [OF applied(7)] and ok = record_ledger [OF applied(7)]
  show ?thesis
  proof (rule ledger_lifecycle)
    show "evidence_tables d' = evidence_tables d" using rec(2) applied(5) by (simp add: evidence_tables_def)
    show "appends (transitions d) (transitions d') (\<lambda>_. True)" using rec(4) applied(5) by simp
    show "outbox_evolves E d d'" by (rule outbox_evolves_append [OF _ api_outbox_wf api_outbox_new ok]) (use rec(5) applied(5) in simp)
  qed
qed

lemma cutover_ledger:
  assumes "CutoverAssignment E now source msg aid gen eff d = Inr (res, d')"
  shows "ledger_step E d d'"
proof (cases "readInboxHash source msg d")
  case (Some h)
  then have "d' = d" using assms by (auto simp: CutoverAssignment_def monad_splits stmt)
  then show ?thesis by (simp add: ledger_same)
next
  case None
  obtain cand pl hash d1 d2 d3 where "lookup_row aid gen d = Some cand"
    and d1: "(case List.find (current_of aid) (assignments d) of None \<Rightarrow> Inr d
            | Some c \<Rightarrow> supersede_current E now eff aid gen c d) = Inr d1"
    and "assignments_ok (assignments d2)" and d2: "d2 = d1\<lparr>assignments := open_authority E now eff
              (asg_EffectiveUntil (ar_spec cand)) aid gen (assignments d1)\<rparr>"
    and d3: "recordLifecycleCommand E now source msg ''assignment_cutover'' aid gen
              AssignmentArmed AssignmentActive (Some eff) pl hash d2 = Inr d3"
    and d4: "(case List.find (current_of aid) (assignments d) of None \<Rightarrow> Inr d3
            | Some c \<Rightarrow>
                if ar_gen c = 0 then Inr d3
                else insert_transition
                  (transition_entry E source msg aid (ar_gen c) (Some (ar_lifecycle c))
                     AssignmentSuperseded (Some eff) pl) d3) = Inr d'"
    using assms None
    by (auto simp: CutoverAssignment_def cutover_candidate_def monad_splits stmt Let_def)
  have a1: "evidence_tables d1 = evidence_tables d" "transitions d1 = transitions d" "outbox d1 = outbox d"
    using d1 by (auto simp: stmt evidence_tables_def split: option.splits)
  have a4: "evidence_tables d' = evidence_tables d3" "outbox d' = outbox d3"
    "appends (transitions d3) (transitions d') (\<lambda>_. True)"
    using d4 by (auto simp: stmt evidence_tables_def split: option.splits if_splits)
  note rec = recordLifecycleCommand_Inr [OF d3] and ok = record_ledger [OF d3]
  show ?thesis
  proof (rule ledger_lifecycle)
    show "evidence_tables d' = evidence_tables d" using rec(2) a1 a4 d2 by (simp add: evidence_tables_def)
    show "appends (transitions d) (transitions d') (\<lambda>_. True)"
      using a4(3) rec(4) a1(2) d2 by (auto simp: appends_def)
    show "outbox_evolves E d d'"
      by (rule outbox_evolves_append [OF _ api_outbox_wf api_outbox_new]) (use rec(5) a1(3) a4(2) d2 ok in auto)
  qed
qed

section \<open>Commits\<close>

lemma put_event_appends:
  assumes "put_event row d = Inr d'" "\<exists>t. evt_observed_at row = timestamptz E t" "\<exists>s. evt_id row = sha_hex E s"
  shows "appends (events d) (events d') (event_wf E d')" "events_ok (events d) \<Longrightarrow> events_ok (events d')"
proof -
  have "events d' = events d \<or> (events d' = events d @ [row] \<and> events_ok (events d') \<and> event_wf E d' row)"
    using assms by (auto simp: put_event_def event_wf_def has_assignment_def split: option.splits if_splits)
  then show "appends (events d) (events d') (event_wf E d')" "events_ok (events d) \<Longrightarrow> events_ok (events d')"
    by auto
qed

lemma write_transition_appends:
  assumes "write_transition E a n pl t d = Inr d'"
  shows "appends (events d) (events d') (event_wf E d')" "events_ok (events d) \<Longrightarrow> events_ok (events d')"
proof -
  from assms obtain iid d1 d2 where d1: "mutate_incident E a pl t d = Inr (iid, d1)"
    and d2: "put_event (event_entry E a n iid t) d1 = Inr d2"
    and d': "events d' = events d2" "assignments d' = assignments d2"
    by (auto simp: write_transition_def monad_splits materialize_resolution_def Let_def split: if_splits)
  have e1: "events d1 = events d"
    using d1 by (auto simp: mutate_incident_def open_incident_def find_opening_def Let_def
        split: transition.splits option.splits if_splits)
  have row: "\<exists>u. evt_observed_at (event_entry E a n iid t) = timestamptz E u" "\<exists>s. evt_id (event_entry E a n iid t) = sha_hex E s"
    by (auto simp: event_entry_def event_id_def stableID_def)
  note ap = put_event_appends [OF d2 row]
  have "event_wf E d' = event_wf E d2" using d'(2) by (intro ext) (simp add: event_wf_def has_assignment_def)
  then show "appends (events d) (events d') (event_wf E d')" "events_ok (events d) \<Longrightarrow> events_ok (events d')"
    using ap d'(1) e1 by auto
qed

lemma event_wf_assignments: "assignments d' = assignments d \<Longrightarrow> event_wf E d' = event_wf E d"
  by (intro ext) (simp add: event_wf_def has_assignment_def)

lemma write_transitions_appends:
  "write_transitions E a n pl ts d = Inr d' \<Longrightarrow>
     appends (events d) (events d') (event_wf E d') \<and> (events_ok (events d) \<longrightarrow> events_ok (events d'))"
proof (induction ts arbitrary: d)
  case (Cons t ts)
  then obtain d1 where d1: "write_transition E a n pl t d = Inr d1" "write_transitions E a n pl ts d1 = Inr d'"
    by (auto simp: monad_splits)
  have "assignments d' = assignments d1" using write_transitions_frame [OF d1(2)] by (simp add: other_tables_def)
  then have "event_wf E d' = event_wf E d1" by (rule event_wf_assignments)
  with write_transition_appends [OF d1(1)] Cons.IH [OF d1(2)] show ?case by (auto intro: appends_trans)
qed simp

lemma registry_outbox_wf:
  assumes "a' \<in> set (assignments d)" "row_key a' = (asg_ID a, asg_Generation a)" "n = ar_evaluation_revision a'"
    "ar_from_ns a' \<noteq> None" "current_row a'"
  shows "outbox_wf E d (registry_outbox now a n e)" "outbox_new d (registry_outbox now a n e)"
  using assms by (auto simp: outbox_wf_def outbox_new_def registry_wf_def registry_outbox_def Let_def)

lemma writeEvaluation_ledger:
  assumes run: "writeEvaluation E now a n e allowEqual publish d = Inr d'"
    and row: "publish \<Longrightarrow> \<exists>r\<in>set (assignments d). row_key r = (asg_ID a, asg_Generation a) \<and>
      n = ar_evaluation_revision r \<and> ar_from_ns r \<noteq> None \<and> current_row r"
  shows "ledger_step E d d'"
proof -
  obtain d1 d2 d3 where d1: "write_transitions E a n (confirmed e) (ev_Transitions (confirmed e)) d = Inr d1"
    and d2: "insert_checkpoint (checkpoint_entry E a n (confirmed e)) d1 = Inr d2"
    and d3: "upsert_summary (summary_entry E a n (confirmed e)) d2 = Inr d3"
    and d': "d' = (if publish then enqueue_live (registry_outbox now a n (confirmed e)) d3 else d3)"
    using run by (auto simp: writeEvaluation_def confirmed_def monad_splits Let_def)
  note f1 = write_transitions_frame [OF d1] and wr = writeEvaluation_Inr [OF run]
  have e: "events d' = events d1" "transitions d' = transitions d" "assignments d' = assignments d1"
    using d2 d3 d' f1 by (auto simp: stmt upsert_summary_def enqueue_live_def other_tables_def Let_def split: if_splits)
  have wf: "event_wf E d' = event_wf E d1" using e(3) by (rule event_wf_assignments)
  have "outbox d3 = outbox d"
    using d2 d3 f1 by (auto simp: stmt upsert_summary_def other_tables_def Let_def split: if_splits)
  then have "outbox d' = outbox d \<or> (publish \<and> outbox d' = outbox d @ [registry_outbox now a n (confirmed e)] \<and> outbox_ok (outbox d'))"
    using d' by (auto simp: enqueue_live_def)
  moreover have "outbox_wf E d' (registry_outbox now a n (confirmed e)) \<and> outbox_new d' (registry_outbox now a n (confirmed e))"
    if "publish"
    using row [OF that] wr(1) registry_outbox_wf [of _ d' a n] by auto
  ultimately have "outbox_evolves E d d'" using outbox_evolves_same outbox_evolves_append by blast
  with write_transitions_appends [OF d1] e wf wr(3) show ?thesis by (simp add: ledger_step_def)
qed

lemma ledger_assignments:
  assumes "ledger_step E (d\<lparr>assignments := rows\<rparr>) d'"
  shows "ledger_step E d d'"
  using assms by (simp add: ledger_step_def outbox_evolves_def)

lemma commit_ledger:
  assumes inv: "store_inv d" and run: "CommitEvaluation E now c cm d = Inr d'"
  shows "ledger_step E d d'"
proof -
  have ok: "assignments_ok (assignments d)" using inv by (simp add: store_inv_def timeline_inv_def)
  from ok run show ?thesis
  proof (rule CommitEvaluation_Inr)
    fix row
    let ?rows = "map (\<lambda>r. if r = row then counted_up E now cm r else r) (assignments d)"
    assume row: "row \<in> set (assignments d)" "lease_fence now c row"
      and wr: "writeEvaluation E now (cl_Assignment c) (ar_evaluation_revision row + 1) (ec_Evaluation cm) False True
         (d\<lparr>assignments := ?rows\<rparr>) = Inr d'"
    have "\<exists>r\<in>set (assignments (d\<lparr>assignments := ?rows\<rparr>)). row_key r = (asg_ID (cl_Assignment c), asg_Generation (cl_Assignment c)) \<and>
        ar_evaluation_revision row + 1 = ar_evaluation_revision r \<and> ar_from_ns r \<noteq> None \<and> current_row r"
    proof (rule bexI [of _ "counted_up E now cm row"])
      have "current_row row" using row(2) by (simp add: lease_fence_def)
      then have "ar_from_ns row \<noteq> None" using current_authority [OF row_ok [OF ok row(1)]] by auto
      then show "row_key (counted_up E now cm row) = (asg_ID (cl_Assignment c), asg_Generation (cl_Assignment c)) \<and>
          ar_evaluation_revision row + 1 = ar_evaluation_revision (counted_up E now cm row) \<and>
          ar_from_ns (counted_up E now cm row) \<noteq> None \<and> current_row (counted_up E now cm row)"
        using row(2) by (simp add: lease_fence_def drop_lease_def)
      show "counted_up E now cm row \<in> set (assignments (d\<lparr>assignments := ?rows\<rparr>))" using row(1) by force
    qed
    from writeEvaluation_ledger [OF wr this] have "ledger_step E (d\<lparr>assignments := ?rows\<rparr>) d'" .
    then show ?thesis by (rule ledger_assignments)
  qed
qed

lemma historical_ledger:
  assumes inv: "store_inv d" and run: "CommitHistoricalEvaluation E now c hist cm d = Inr d'"
  shows "ledger_step E d d'"
proof -
  have tl: "timeline_inv (assignments d)" using inv by (simp add: store_inv_def)
  note ok = timeline_invD(1) [OF tl]
  from ok run show ?thesis
  proof (rule CommitHistoricalEvaluation_Inr)
    fix cur row :: assignment_row
    let ?rows = "map (\<lambda>r. if r = row then r\<lparr>ar_evaluation_revision := ar_evaluation_revision r + 1, ar_updated_at := now\<rparr>
          else if r = cur then drop_lease now (timestamptz E (ec_NextEvaluationAt cm)) r else r) (assignments d)"
    assume wr: "writeEvaluation E now (ar_spec row) (ar_evaluation_revision row + 1) (ec_Evaluation cm) True False
         (d\<lparr>assignments := ?rows\<rparr>) = Inr d'"
    from writeEvaluation_ledger [OF wr] have "ledger_step E (d\<lparr>assignments := ?rows\<rparr>) d'" by simp
    then show ?thesis by (rule ledger_assignments)
  qed
qed

section \<open>The outbox operations\<close>

lemma claim_outbox_ledger:
  assumes "ClaimOutbox E now olocked dest w lease limit d = Inr (ocs, d')" "outbox_ok (outbox d)"
  shows "ledger_step E d d'"
proof -
  let ?due = "filter (\<lambda>r. outbox_due now dest (outbox d) r \<and> \<not> olocked r) (outbox d)"
  let ?ids = "map ob_id (take (nat limit) (sort_by (outbox_order E) ?due))"
  have d': "d' = d\<lparr>outbox := update_where (\<lambda>r. ob_id r \<in> set ?ids) (take_outbox_lease E now w lease) (outbox d)\<rparr>"
    using assms(1) by (auto simp: ClaimOutbox_def monad_splits Let_def)
  have due: "outbox_due now dest (outbox d) r" if "r \<in> set (outbox d)" "ob_id r \<in> set ?ids" for r
  proof -
    from that(2) obtain s where s: "s \<in> set ?due" "ob_id r = ob_id s"
      by (auto dest!: in_set_takeD)
    have "inj_on ob_id (set (outbox d))" using assms(2) by (simp add: outbox_ok_def distinct_map)
    then have "r = s" using s that(1) by (auto dest: inj_onD)
    then show ?thesis using s(1) by simp
  qed
  have move: "outbox_move (outbox d) r (take_outbox_lease E now w lease r)" if "outbox_due now dest (outbox d) r" for r
    using that by (auto simp: outbox_move_def outbox_row_step_def take_outbox_lease_def outbox_due_def)
  have "outbox d' = update_where (\<lambda>r. ob_id r \<in> set ?ids) (take_outbox_lease E now w lease) (outbox d)"
    using d' by simp
  then have "outbox_evolves E d d'" by (rule outbox_evolves_update) (use due move in blast)
  then show ?thesis using d' by (simp add: ledger_step_def)
qed

lemma fenced_outbox_ledger:
  assumes "fenced_outbox_update now c f d = Inr d'" "\<And>r rows. outbox_fence now c r \<Longrightarrow> outbox_move rows r (f r)"
  shows "ledger_step E d d'"
proof -
  have d': "d' = d\<lparr>outbox := update_where (outbox_fence now c) f (outbox d)\<rparr>" using assms(1) by (simp add: stmt)
  have "outbox_evolves E d d'" by (rule outbox_evolves_update [OF _ assms(2)]) (simp_all add: d')
  then show ?thesis using d' by (simp add: ledger_step_def)
qed

lemma deliver_ledger:
  "MarkOutboxDelivered now c d = Inr d' \<Longrightarrow> ledger_step E d d'"
  "RetryOutbox E now c delay err d = Inr d' \<Longrightarrow> ledger_step E d d'"
  by (auto simp: MarkOutboxDelivered_def RetryOutbox_def monad_splits outbox_move_def outbox_row_step_def outbox_fence_def
      split: option.splits elim!: fenced_outbox_ledger)

lemma lease_ops_ledger:
  "ClaimDueAssignmentsWithFinalizationGrace E now locked w lease grace limit d = (cs, d') \<Longrightarrow> ledger_step E d d'"
  "DeferAssignmentEvaluation E now c t d = Inr d' \<Longrightarrow> ledger_step E d d'"
  "RenewAssignmentLease E now c ext d = Inr d' \<Longrightarrow> ledger_step E d d'"
  by (erule ClaimDue_cases)
    (auto simp: DeferAssignmentEvaluation_def RenewAssignmentLease_def monad_splits stmt evidence_tables_def intro!: ledger_same)

lemma store_step_ledger:
  assumes "store_step E d d'" "store_inv d" "outbox_ok (outbox d)"
  shows "ledger_step E d d'"
  using assms(1)
proof cases
  case (prepare now source msg ty a res)
  then show ?thesis by (rule prepare_ledger)
next
  case (arm now source msg aid gen lres)
  then show ?thesis unfolding ArmAssignment_def by (rule transitionCandidate_ledger)
next
  case (cancel now source msg aid gen lres)
  then show ?thesis unfolding CancelCandidate_def by (rule transitionCandidate_ledger)
next
  case (cutover now source msg aid gen eff lres)
  then show ?thesis by (rule cutover_ledger)
next
  case (commit now c cm)
  then show ?thesis by (rule commit_ledger [OF assms(2)])
next
  case (commit_historical now c hist cm)
  then show ?thesis by (rule historical_ledger [OF assms(2)])
next
  case (claim_outbox now olocked dest w lease limit ocs)
  then show ?thesis using claim_outbox_ledger assms(3) by blast
qed (auto intro: lease_ops_ledger deliver_ledger)

section \<open>Invariant\<close>

definition ledger_inv :: "store_env \<Rightarrow> db \<Rightarrow> bool" where
  "ledger_inv E d \<longleftrightarrow>
     events_ok (events d) \<and> outbox_ok (outbox d) \<and>
     list_all (event_wf E d) (events d) \<and> list_all (outbox_wf E d) (outbox d)"

lemma event_wf_evolves: "evolves d d' \<Longrightarrow> event_wf E d e \<Longrightarrow> event_wf E d' e"
  unfolding event_wf_def has_assignment_def evolves_def row_step_def by (auto simp: image_iff) (metis)

lemma outbox_wf_evolves:
  assumes ev: "evolves d d'" and wf: "outbox_wf E d r" and "outbox_row_step r r'"
  shows "outbox_wf E d' r'"
proof -
  have "registry_wf d' r" if "registry_wf d r"
  proof -
    from that obtain a where a: "a \<in> set (assignments d)" "row_key a = (ob_aid r, ob_gen r)" "ob_rev r \<le> ar_evaluation_revision a"
      "ar_from_ns a \<noteq> None"
      by (auto simp: registry_wf_def)
    then obtain a' where "a' \<in> set (assignments d')" "row_step a a'" using ev by (auto simp: evolves_def)
    with a have "\<exists>a\<in>set (assignments d'). row_key a = (ob_aid r, ob_gen r) \<and> ar_from_ns a \<noteq> None \<and> ob_rev r \<le> ar_evaluation_revision a"
      by (intro bexI [of _ a']) (auto simp: row_step_def)
    with that show ?thesis by (simp add: registry_wf_def)
  qed
  with wf have "outbox_wf E d' r" by (auto simp: outbox_wf_def)
  with assms(3) show ?thesis by (simp add: outbox_wf_def registry_wf_def outbox_row_step_def)
qed

lemma ledger_inv_step:
  assumes step: "store_step E d d'" and inv: "store_inv d" and led: "ledger_inv E d"
  shows "ledger_inv E d'"
proof -
  have ls: "ledger_step E d d'" using store_step_ledger [OF step inv] led by (simp add: ledger_inv_def)
  have ev: "evolves d d'" by (rule store_step_evolves [OF step inv])
  obtain new where new: "events d' = events d @ new" "list_all (event_wf E d') new"
    using ls by (auto simp: ledger_step_def appends_def)
  obtain f more' where ob: "outbox d' = map f (outbox d) @ more'" "\<forall>r\<in>set (outbox d). outbox_move (outbox d) r (f r)"
    "list_all (outbox_wf E d') more'"
    using ls by (auto simp: ledger_step_def outbox_evolves_def list_all_iff)
  have "list_all (event_wf E d') (events d')"
    using new led event_wf_evolves [OF ev] by (auto simp: ledger_inv_def list_all_iff)
  moreover have "outbox_wf E d' (f r)" if "r \<in> set (outbox d)" for r
    by (rule outbox_wf_evolves [OF ev]) (use led ob(2) that outbox_moveD in \<open>auto simp: ledger_inv_def list_all_iff\<close>)
  then have "list_all (outbox_wf E d') (outbox d')" using ob by (auto simp: list_all_iff)
  ultimately show ?thesis using ls led by (simp add: ledger_inv_def ledger_step_def outbox_evolves_def)
qed

lemma reachable_ledger_inv: "reachable E d \<Longrightarrow> ledger_inv E d"
proof (induction rule: reachable.induct)
  case init
  then show ?case by (simp add: ledger_inv_def empty_db_def events_ok_def outbox_ok_def)
next
  case (step d d')
  then show ?case using ledger_inv_step reachable_store_inv by blast
qed

section \<open>The order of delivery\<close>

definition registry_pair :: "outbox_row \<Rightarrow> outbox_row \<Rightarrow> bool" where
  "registry_pair s r \<longleftrightarrow>
     ob_destination r = ''registry'' \<and> ob_destination s = ''registry'' \<and> ob_aid s = ob_aid r \<and> cursor_before s r"

text \<open>Behind a message that waits for delivery, none is leased and none has been delivered.\<close>

definition line_order :: "db \<Rightarrow> bool" where
  "line_order d \<longleftrightarrow>
     (\<forall>r\<in>set (outbox d). \<forall>s\<in>set (outbox d). registry_pair s r \<and>
        (ob_delivered_at r \<noteq> None \<or> ob_lease_owner r \<noteq> None) \<longrightarrow> ob_delivered_at s \<noteq> None)"

lemma newest_registry:
  assumes tl: "timeline_inv (assignments d)" and new: "outbox_new d n" and wf: "outbox_wf E d r"
    and pair: "registry_pair n r"
  shows False
proof -
  from pair have reg: "ob_destination n = ''registry''" "ob_destination r = ''registry''" "ob_aid n = ob_aid r" "cursor_before n r"
    by (auto simp: registry_pair_def)
  obtain a where a: "a \<in> set (assignments d)" "current_row a" "row_key a = (ob_aid n, ob_gen n)"
    "ob_rev n = ar_evaluation_revision a" using new reg(1) by (auto simp: outbox_new_def)
  obtain b where b: "b \<in> set (assignments d)" "row_key b = (ob_aid r, ob_gen r)" "ar_from_ns b \<noteq> None"
    "ob_rev r \<le> ar_evaluation_revision b" using wf reg(2) by (auto simp: outbox_wf_def registry_wf_def)
  have id: "ar_id b = ar_id a" using a(3) b(2) reg(3) by simp
  show False
  proof (cases "current_row b")
    case True
    then have "b = a" using current_unique [OF timeline_invD(1) [OF tl] b(1) a(1) True a(2) id] by simp
    then show False using a b reg(4) by (auto simp: cursor_before_def)
  next
    case False
    from closed_has_successorD [OF timeline_invD(6) [OF tl] b(1,3) False] obtain c where
      c: "c \<in> set (assignments d)" "current_row c" "ar_id c = ar_id b" "ar_gen b < ar_gen c" by blast
    have "c = a" using current_unique [OF timeline_invD(1) [OF tl] c(1) a(1) c(2) a(2)] c(3) id by simp
    then show False using a(3) b(2) c(4) reg(4) by (simp add: cursor_before_def)
  qed
qed

lemma moved_line:
  assumes ord: "line_order d" and r: "r \<in> set (outbox d)" and s: "s \<in> set (outbox d)" and pair: "registry_pair s r"
    and mr: "outbox_move (outbox d) r r'" and ms: "outbox_move (outbox d) s s'"
    and busy: "ob_delivered_at r' \<noteq> None \<or> ob_lease_owner r' \<noteq> None"
  shows "ob_delivered_at s' \<noteq> None"
proof -
  have "ob_delivered_at s \<noteq> None"
  proof (cases "ob_delivered_at r \<noteq> None \<or> ob_lease_owner r \<noteq> None")
    case True
    then show ?thesis using ord r s pair unfolding line_order_def by blast
  next
    case False
    then have "head_of_line (outbox d) r" using mr busy pair by (auto simp: outbox_move_def registry_pair_def)
    then show ?thesis using s pair by (auto simp: head_of_line_def list_ex_iff registry_pair_def)
  qed
  then show ?thesis using ms by (auto simp: outbox_move_def outbox_row_step_def)
qed

lemma registry_pair_step:
  "outbox_row_step s s' \<Longrightarrow> outbox_row_step r r' \<Longrightarrow> registry_pair s' r' \<longleftrightarrow> registry_pair s r"
  by (simp add: outbox_row_step_def registry_pair_def cursor_before_def)

lemma line_order_step:
  assumes step: "store_step E d d'" and inv: "store_inv d" and led: "ledger_inv E d" and ord: "line_order d"
  shows "line_order d'"
  unfolding line_order_def
proof (intro ballI impI, elim conjE)
  fix r' s' assume mem: "r' \<in> set (outbox d')" "s' \<in> set (outbox d')" and pair: "registry_pair s' r'"
    and busy: "ob_delivered_at r' \<noteq> None \<or> ob_lease_owner r' \<noteq> None"
  have tl': "timeline_inv (assignments d')" using store_step_inv [OF step inv] by (simp add: store_inv_def)
  have wf': "list_all (outbox_wf E d') (outbox d')" using ledger_inv_step [OF step inv led] by (simp add: ledger_inv_def)
  have "ledger_step E d d'" using store_step_ledger [OF step inv] led by (simp add: ledger_inv_def)
  then obtain f new where ob: "outbox d' = map f (outbox d) @ new" "\<forall>r\<in>set (outbox d). outbox_move (outbox d) r (f r)"
    "list_all (\<lambda>r. outbox_wf E d' r \<and> outbox_new d' r) new"
    by (auto simp: ledger_step_def outbox_evolves_def)
  have "r' \<notin> set new" using busy ob(3) by (auto simp: list_all_iff outbox_new_def)
  then obtain r where r: "r \<in> set (outbox d)" "r' = f r" using mem(1) ob(1) by auto
  have "s' \<notin> set new"
    using newest_registry [OF tl' _ _ pair] ob(3) wf' mem(1) by (auto simp: list_all_iff)
  then obtain s where s: "s \<in> set (outbox d)" "s' = f s" using mem(2) ob(1) by auto
  have moves: "outbox_move (outbox d) r r'" "outbox_move (outbox d) s s'" using ob(2) r s by auto
  have "registry_pair s r" using registry_pair_step [OF outbox_moveD [OF moves(2)] outbox_moveD [OF moves(1)]] pair by simp
  from moved_line [OF ord r(1) s(1) this moves busy] show "ob_delivered_at s' \<noteq> None" .
qed

lemma reachable_line_order: "reachable E d \<Longrightarrow> line_order d"
proof (induction rule: reachable.induct)
  case init
  then show ?case by (simp add: line_order_def empty_db_def)
next
  case (step d d')
  then show ?case using line_order_step reachable_store_inv reachable_ledger_inv by blast
qed

end
