(* ===== verification/Reader.thy ===== *)
theory Reader
  imports Evaluator Store_Schema
begin

text \<open>
  The telemetry reader of \<^verbatim>\<open>internal/telemetry/influx/reader.go\<close>: cleaning of aircraft
  identifiers, the chunked query, decoding of rows, canonical order and removal of repeated
  frames. InfluxDB is the parameter \<open>runner\<close>: a query gives rows or a failure. The
  reading of a \<^verbatim>\<open>float64\<close> outside the range of \<^verbatim>\<open>uint64\<close>, which Go leaves to the
  implementation, is the parameter \<open>out_of_range\<close>.
\<close>

section \<open>Rows\<close>

text \<open>The dynamic types a column can have; a column that is absent is nil.\<close>

datatype cell =
  VNil | VString string | VTime gotime | VFloat64 f64 | VFloat32 f64 | VInt64 int | VUint64 nat | VOther

type_synonym row = "string \<Rightarrow> cell"

datatype row_error =
  TimeInvalid | FieldMissing string | WALIdentityMissing | SequenceInvalid | LatitudeInvalid | LongitudeInvalid

text \<open>A failed query: its message, and whether it wraps the cancellation of the context.\<close>

record query_failure =
  qf_message :: string
  qf_canceled :: bool

datatype reader_error =
  ErrWALIdentityUnavailable | ErrWindowSaturated | TelemetryWindowInvalid | QueryFailed query_failure

record row_rejection =
  rj_FrameID :: string
  rj_Reason :: row_error

record read_result =
  rr_Observations :: "observation list"
  rr_Rejections :: "row_rejection list"

record influx_query =
  q_aircraft :: "string list"
  q_start :: gotime
  q_end :: gotime
  q_limit :: nat

type_synonym runner = "influx_query \<Rightarrow> query_failure + row list"

text \<open>
  The InfluxDB client: a query fails at once, or gives the rows of its iterator and the error
  with which the iterator ended, if any.
\<close>

type_synonym influx_client = "influx_query \<Rightarrow> query_failure + (row list \<times> query_failure option)"

definition clientRunner_Query :: "influx_client \<Rightarrow> runner" where
  "clientRunner_Query client q =
     (case client q of
        Inl e \<Rightarrow> Inl e
      | Inr (rows, None) \<Rightarrow> Inr rows
      | Inr (rows, Some e) \<Rightarrow> Inl e)"

record reader =
  rd_chunkSize :: nat
  rd_maxRows :: nat

definition NewWithRunner :: "runner option \<Rightarrow> int \<Rightarrow> int \<Rightarrow> unit + reader" where
  "NewWithRunner runner chunkSize maxRows =
     (if Option.is_none runner \<or> chunkSize < 1 \<or> maxRows < 1 then Inl ()
      else Inr \<lparr>rd_chunkSize = nat chunkSize, rd_maxRows = nat maxRows\<rparr>)"

text \<open>\<^verbatim>\<open>New\<close>: the client as the driver gives it, if it does.\<close>

datatype reader_new_error = ClientRefused | ReaderRefused

definition reader_New :: "influx_client option \<Rightarrow> int \<Rightarrow> int \<Rightarrow> reader_new_error + (runner \<times> reader)" where
  "reader_New client chunkSize maxRows =
     (case client of
        None \<Rightarrow> Inl ClientRefused
      | Some c \<Rightarrow>
         (case NewWithRunner (Some (clientRunner_Query c)) chunkSize maxRows of
            Inl _ \<Rightarrow> Inl ReaderRefused
          | Inr r \<Rightarrow> Inr (clientRunner_Query c, r)))"

section \<open>Values\<close>

definition stringValue :: "cell \<Rightarrow> string" where
  "stringValue v = (case v of VString s \<Rightarrow> s | _ \<Rightarrow> [])"

definition floatValue :: "fpu \<Rightarrow> cell \<Rightarrow> f64 option" where
  "floatValue F v =
     (let checked = (\<lambda>f. if finite64 f then Some f else None) in
      case v of
        VFloat64 n \<Rightarrow> checked n
      | VFloat32 n \<Rightarrow> checked n
      | VInt64 n \<Rightarrow> checked (rnd F (of_int n))
      | VUint64 n \<Rightarrow> checked (rnd F (of_nat n))
      | _ \<Rightarrow> None)"

text \<open>\<^verbatim>\<open>strconv.ParseUint(s, 10, 64)\<close>: one or more decimal digits, at most the largest \<^verbatim>\<open>uint64\<close>.\<close>

definition digit :: "char \<Rightarrow> bool" where
  "digit c \<longleftrightarrow> 48 \<le> (of_char c :: nat) \<and> (of_char c :: nat) \<le> 57"

definition decimal :: "string \<Rightarrow> nat" where
  "decimal s = foldl (\<lambda>n c. 10 * n + (of_char c - 48)) 0 s"

definition ParseUint :: "string \<Rightarrow> nat option" where
  "ParseUint s =
     (if s \<noteq> [] \<and> list_all digit s \<and> decimal s \<le> MaxUint64 then Some (decimal s) else None)"

text \<open>
  In \<^verbatim>\<open>n <= math.MaxUint64\<close> the constant takes the type \<^verbatim>\<open>float64\<close>, whose nearest value is
  2 to the power 64.
\<close>

definition uint64_of_float :: "(real \<Rightarrow> nat) \<Rightarrow> real \<Rightarrow> nat" where
  "uint64_of_float out_of_range n = (if n < 2 ^ 64 then nat \<lfloor>n\<rfloor> else out_of_range n)"

definition uintValue :: "(real \<Rightarrow> nat) \<Rightarrow> cell \<Rightarrow> nat option" where
  "uintValue out_of_range v =
     (case v of
        VUint64 n \<Rightarrow> Some n
      | VInt64 n \<Rightarrow> if 0 \<le> n then Some (nat n) else None
      | VFloat64 (Fin n) \<Rightarrow>
          if 0 \<le> n \<and> n = of_int \<lfloor>n\<rfloor> \<and> n \<le> 2 ^ 64 then Some (uint64_of_float out_of_range n) else None
      | VString s \<Rightarrow> ParseUint s
      | _ \<Rightarrow> None)"

definition uint32Value :: "(real \<Rightarrow> nat) \<Rightarrow> cell \<Rightarrow> nat" where
  "uint32Value out_of_range v =
     (case uintValue out_of_range v of None \<Rightarrow> 0 | Some u \<Rightarrow> if MaxUint32 < u then 0 else u)"

section \<open>Decoding\<close>

definition requiredString :: "row \<Rightarrow> string \<Rightarrow> row_error + string" where
  "requiredString row name =
     (case row name of VString v \<Rightarrow> if blank v then Inl (FieldMissing name) else Inr v
      | _ \<Rightarrow> Inl (FieldMissing name))"

definition decodeObservation :: "fpu \<Rightarrow> (real \<Rightarrow> nat) \<Rightarrow> row \<Rightarrow> row_error + observation" where
  "decodeObservation F oor row =
     ebind (case row ''time'' of VTime t \<Rightarrow> Inr t | _ \<Rightarrow> Inl TimeInvalid) (\<lambda>observedAt.
     ebind (requiredString row ''frame_id'') (\<lambda>frameID.
     ebind (requiredString row ''agent_id'') (\<lambda>agentID.
     ebind (requiredString row ''aircraft_id'') (\<lambda>aircraftID.
     ebind (case requiredString row ''wal_id'' of Inl _ \<Rightarrow> Inl WALIdentityMissing | Inr w \<Rightarrow> Inr w) (\<lambda>walID.
     ebind (case uintValue oor (row ''wal_sequence'') of None \<Rightarrow> Inl SequenceInvalid | Some s \<Rightarrow> Inr s) (\<lambda>seq.
     ebind (case floatValue F (row ''latitude_deg'') of None \<Rightarrow> Inl LatitudeInvalid
            | Some lat \<Rightarrow> if f_lt lat (Fin (- 90)) \<or> f_lt (Fin 90) lat then Inl LatitudeInvalid else Inr lat) (\<lambda>lat.
     ebind (case floatValue F (row ''longitude_deg'') of None \<Rightarrow> Inl LongitudeInvalid
            | Some lon \<Rightarrow> if f_lt lon (Fin (- 180)) \<or> f_lt (Fin 180) lon then Inl LongitudeInvalid else Inr lon) (\<lambda>lon.
     let o' = \<lparr>obs_FrameID = frameID, obs_AgentID = agentID, obs_WALID = walID, obs_WALSequence = seq,
               obs_AircraftID = aircraftID, obs_FlightID = stringValue (row ''flight_id''),
               obs_IntentID = stringValue (row ''intent_id''),
               obs_IntentVersion = uint32Value oor (row ''intent_version''),
               obs_Latitude = lat, obs_Longitude = lon, obs_AltitudeM = Fin 0, obs_AltitudeKnown = False,
               obs_AltitudeReference = AltitudeUnset, obs_ObservedAt = observedAt\<rparr> in
     Inr (case floatValue F (row ''altitude_msl_m'') of None \<Rightarrow> o'
          | Some alt \<Rightarrow> o'\<lparr>obs_AltitudeM := alt, obs_AltitudeKnown := True,
                             obs_AltitudeReference := AltitudeMSL\<rparr>)))))))))"

section \<open>Error messages\<close>

text \<open>\<^verbatim>\<open>strings.ToLower\<close> on the ASCII letters, \<^verbatim>\<open>strings.Contains\<close> on bytes.\<close>

definition lower_char :: "char \<Rightarrow> char" where
  "lower_char c =
     (let n = of_char c :: nat in if 65 \<le> n \<and> n \<le> 90 then char_of (n + 32) else c)"

definition ToLower :: "string \<Rightarrow> string" where
  "ToLower s = map lower_char s"

fun Contains :: "string \<Rightarrow> string \<Rightarrow> bool" where
  "Contains [] sub = (sub = [])"
| "Contains (c # s) sub = (take (length sub) (c # s) = sub \<or> Contains s sub)"

definition missingColumn :: "string \<Rightarrow> string \<Rightarrow> bool" where
  "missingColumn message column =
     (let m = ToLower message in
      Contains m ''column'' \<and> Contains m (ToLower column) \<and>
      (Contains m ''not found'' \<or> Contains m ''unknown'' \<or> Contains m ''does not exist''))"

section \<open>Identifiers\<close>

text \<open>The first occurrence of each element, in order: the map of seen keys.\<close>

fun unique_by :: "('a \<Rightarrow> 'k) \<Rightarrow> 'k set \<Rightarrow> 'a list \<Rightarrow> 'a list" where
  "unique_by k seen [] = []"
| "unique_by k seen (x # xs) =
     (if k x \<in> seen then unique_by k seen xs else x # unique_by k (insert (k x) seen) xs)"

definition uniqueIDs :: "string list \<Rightarrow> string list" where
  "uniqueIDs values = sort (unique_by (\<lambda>x. x) {} (filter (\<lambda>v. v \<noteq> []) (map TrimSpace values)))"

section \<open>Reading\<close>

definition queryChunk :: "runner \<Rightarrow> reader \<Rightarrow> string list \<Rightarrow> gotime \<Rightarrow> gotime \<Rightarrow> query_failure + row list" where
  "queryChunk runner r ids start end' =
     (case runner \<lparr>q_aircraft = ids, q_start = start, q_end = end', q_limit = rd_maxRows r\<rparr> of
        Inl e \<Rightarrow> Inl (e\<lparr>qf_message := ''query position telemetry: '' @ qf_message e\<rparr>)
      | Inr rows \<Rightarrow> Inr rows)"

fun decode_rows ::
  "fpu \<Rightarrow> (real \<Rightarrow> nat) \<Rightarrow> row list \<Rightarrow> reader_error + (observation list \<times> row_rejection list)" where
  "decode_rows F oor [] = Inr ([], [])"
| "decode_rows F oor (row # rows) =
     (case decodeObservation F oor row of
        Inl WALIdentityMissing \<Rightarrow> Inl ErrWALIdentityUnavailable
      | Inl reason \<Rightarrow>
          ebind (decode_rows F oor rows) (\<lambda>(all, rejected).
            Inr (all, \<lparr>rj_FrameID = stringValue (row ''frame_id''), rj_Reason = reason\<rparr> # rejected))
      | Inr obs \<Rightarrow>
          ebind (decode_rows F oor rows) (\<lambda>(all, rejected). Inr (obs # all, rejected)))"

text \<open>Chunks of at most \<open>rd_chunkSize\<close> identifiers; a chunk without the aircraft column is skipped.\<close>

function chunks :: "nat \<Rightarrow> 'a list \<Rightarrow> 'a list list" where
  "chunks n xs = (if n = 0 \<or> xs = [] then [] else take n xs # chunks n (drop n xs))"
  by pat_completeness auto
termination by (relation "measure (\<lambda>(n, xs). length xs)") auto

declare chunks.simps [simp del]

fun read_chunks ::
  "fpu \<Rightarrow> (real \<Rightarrow> nat) \<Rightarrow> runner \<Rightarrow> reader \<Rightarrow> gotime \<Rightarrow> gotime \<Rightarrow> string list list \<Rightarrow>
   reader_error + (observation list \<times> row_rejection list)" where
  "read_chunks F oor runner r start end' [] = Inr ([], [])"
| "read_chunks F oor runner r start end' (ids # rest) =
     (case queryChunk runner r ids start end' of
        Inl e \<Rightarrow>
          if missingColumn (qf_message e) ''aircraft_id'' then read_chunks F oor runner r start end' rest
          else if missingColumn (qf_message e) ''wal_id'' then Inl ErrWALIdentityUnavailable
          else Inl (QueryFailed e)
      | Inr rows \<Rightarrow>
          if rd_maxRows r \<le> length rows then Inl ErrWindowSaturated
          else
            ebind (decode_rows F oor rows) (\<lambda>(all, rejected).
            ebind (read_chunks F oor runner r start end' rest) (\<lambda>(all', rejected').
            Inr (all @ all', rejected @ rejected'))))"

definition positionBefore :: "observation \<Rightarrow> observation \<Rightarrow> bool" where
  "positionBefore a b =
     (if obs_ObservedAt a \<noteq> obs_ObservedAt b then obs_ObservedAt a < obs_ObservedAt b
      else if obs_AgentID a \<noteq> obs_AgentID b then obs_AgentID a < obs_AgentID b
      else if obs_WALID a \<noteq> obs_WALID b then obs_WALID a < obs_WALID b
      else if obs_WALSequence a \<noteq> obs_WALSequence b then obs_WALSequence a < obs_WALSequence b
      else obs_FrameID a < obs_FrameID b)"

definition ReadPositions ::
  "fpu \<Rightarrow> (real \<Rightarrow> nat) \<Rightarrow> runner \<Rightarrow> reader \<Rightarrow> string list \<Rightarrow> gotime \<Rightarrow> gotime \<Rightarrow> reader_error + read_result" where
  "ReadPositions F oor runner r aircraftIDs start end' =
     (let ids = uniqueIDs aircraftIDs in
      if ids = [] then Inr \<lparr>rr_Observations = [], rr_Rejections = []\<rparr>
      else if IsZero start \<or> \<not> start < end' then Inl TelemetryWindowInvalid
      else
        ebind (read_chunks F oor runner r start end' (chunks (rd_chunkSize r) ids)) (\<lambda>(all, rejected).
        Inr \<lparr>rr_Observations = unique_by obs_FrameID {} (sort_by positionBefore all),
             rr_Rejections = rejected\<rparr>))"

end
