(* ===== verification/Identifiers.thy ===== *)
theory Identifiers
  imports Reader Store_Evaluation
begin

text \<open>
  Identifiers that are built from parts can be taken apart again: the decimal numerals of
  \<^verbatim>\<open>fmt.Sprint\<close>, the length-framed parts that \<^verbatim>\<open>stableID\<close> digests, and the Registry
  message key.
\<close>

section \<open>Decimal numerals\<close>

lemma digit_char [simp]: "(n :: nat) < 10 \<Longrightarrow> digit (char_of (48 + n))"
  by (simp add: digit_def)

lemma decimal_snoc [simp]: "decimal (s @ [c]) = 10 * decimal s + (of_char c - 48)"
  by (simp add: decimal_def)

lemma show_nat_digits: "show_nat n \<noteq> [] \<and> list_all digit (show_nat n)"
proof (induction n rule: show_nat.induct)
  case (1 n)
  have "digit (char_of (48 + n mod 10))" by simp
  with 1 show ?case by (subst show_nat.simps, subst (2) show_nat.simps) auto
qed

lemma decimal_show_nat [simp]: "decimal (show_nat n) = n"
proof (induction n rule: show_nat.induct)
  case (1 n)
  then show ?case by (subst show_nat.simps) (auto simp: decimal_def)
qed

lemma show_nat_inj [simp]: "show_nat m = show_nat n \<longleftrightarrow> m = n"
  by (metis decimal_show_nat)

lemma ParseUint_show_nat: "n \<le> MaxUint64 \<Longrightarrow> ParseUint (show_nat n) = Some n"
  using show_nat_digits [of n] by (simp add: ParseUint_def)

lemma colon_not_digit [simp]: "\<not> digit CHR '':''"
  by (simp add: digit_def)

section \<open>Framed parts\<close>

text \<open>A numeral followed by a colon ends at the colon.\<close>

lemma numeral_colon:
  assumes "show_nat m @ CHR '':'' # s = show_nat n @ CHR '':'' # t"
  shows "m = n \<and> s = t"
proof -
  have tw: "takeWhile digit (show_nat k @ CHR '':'' # u) = show_nat k" for k u
    using show_nat_digits [of k] by (subst takeWhile_append2) (auto simp: list_all_iff)
  from assms have "takeWhile digit (show_nat m @ CHR '':'' # s) = takeWhile digit (show_nat n @ CHR '':'' # t)" by simp
  then have "m = n" by (simp add: tw)
  with assms show ?thesis by simp
qed

lemma frame_part_inj:
  assumes "frame_part s @ xs = frame_part t @ ys"
  shows "s = t \<and> xs = ys"
proof -
  have "length s = length t \<and> s @ xs = t @ ys"
    using assms by (intro numeral_colon) (simp add: frame_part_def)
  then show ?thesis by auto
qed

lemma frame_part_not_empty [simp]: "frame_part s \<noteq> []"
  by (simp add: frame_part_def)

lemma stable_bytes_inj: "stable_bytes xs = stable_bytes ys \<Longrightarrow> xs = ys"
proof (induction xs arbitrary: ys)
  case Nil
  then show ?case by (cases ys) (auto simp: stable_bytes_def)
next
  case (Cons x xs)
  then obtain y ys' where ys: "ys = y # ys'" by (cases ys) (auto simp: stable_bytes_def)
  have "x = y \<and> stable_bytes xs = stable_bytes ys'"
    by (rule frame_part_inj) (use Cons.prems ys in \<open>simp add: stable_bytes_def\<close>)
  with Cons.IH ys show ?case by blast
qed

section \<open>Registry keys\<close>

text \<open>The identifier may hold colons itself, so the key is read from its end.\<close>

lemma colon_numeral:
  assumes "s @ CHR '':'' # show_nat m = t @ CHR '':'' # show_nat n"
  shows "s = t \<and> m = n"
proof -
  have tw: "takeWhile digit (rev (u @ CHR '':'' # show_nat k)) = rev (show_nat k)" for u k
    using show_nat_digits [of k] by (simp, subst takeWhile_append2) (auto simp: list_all_iff)
  from assms have "takeWhile digit (rev (s @ CHR '':'' # show_nat m)) = takeWhile digit (rev (t @ CHR '':'' # show_nat n))"
    by simp
  then have "m = n" by (simp only: tw rev_is_rev_conv show_nat_inj)
  with assms show ?thesis by simp
qed

lemma registry_id_inj:
  assumes "registry_id a g n = registry_id b h m"
  shows "a = b \<and> g = h \<and> n = m"
proof -
  have "(a @ CHR '':'' # show_nat g) @ CHR '':'' # show_nat n = (b @ CHR '':'' # show_nat h) @ CHR '':'' # show_nat m"
    using assms by (simp add: registry_id_def)
  from colon_numeral [OF this] have "a @ CHR '':'' # show_nat g = b @ CHR '':'' # show_nat h" "n = m" by blast+
  with colon_numeral [OF this(1)] show ?thesis by blast
qed

text \<open>
  C39: Stable identities. The bytes that \<^verbatim>\<open>stableID\<close> digests determine the parts they were
  built from: two different lists of parts (for instance a source and a message identifier
  split at another place) never feed the same bytes to the digest.
\<close>

theorem stable_identity_unambiguous:
  "stable_bytes xs = stable_bytes ys \<longleftrightarrow> xs = ys"
  using stable_bytes_inj by blast

end
