(* ===== verification/Store_Evidence.thy ===== *)
theory Store_Evidence
  imports Store_Ledger Store_Fencing Identifiers
begin

text \<open>
  Properties of the durable evidence: the tables of evidence only grow, revisions are counted
  without a gap, and a committed evaluation is handed to the Registry exactly once.
\<close>

section \<open>Sequences of steps\<close>

lemma steps_store_inv: "(store_step E)\<^sup>*\<^sup>* d d' \<Longrightarrow> store_inv d \<Longrightarrow> store_inv d'"
  by (rule assignment_lease.steps_inv)

lemma steps_ledger_inv: "(store_step E)\<^sup>*\<^sup>* d d' \<Longrightarrow> store_inv d \<Longrightarrow> ledger_inv E d \<Longrightarrow> ledger_inv E d'"
  by (induction rule: rtranclp_induct) (auto intro: ledger_inv_step steps_store_inv)

lemma steps_append:
  assumes "(store_step E)\<^sup>*\<^sup>* d d'" "store_inv d" "ledger_inv E d"
  shows "(\<exists>new. events d' = events d @ new) \<and> (\<exists>new. checkpoints d' = checkpoints d @ new) \<and>
    (\<exists>new. transitions d' = transitions d @ new) \<and> (\<exists>new. inbox d' = inbox d @ new)"
  using assms
proof (induction rule: rtranclp_induct)
  case (step d1 d2)
  have inv: "store_inv d1" "ledger_inv E d1"
    using steps_store_inv [OF step.hyps(1)] steps_ledger_inv [OF step.hyps(1)] step.prems by auto
  have "ledger_step E d1 d2" by (rule store_step_ledger) (use inv step.hyps(2) in \<open>auto simp: ledger_inv_def\<close>)
  moreover have "evolves d1 d2" by (rule store_step_evolves [OF step.hyps(2) inv(1)])
  ultimately show ?case using step.IH [OF step.prems] by (auto simp: ledger_step_def appends_def evolves_def)
qed simp

lemma steps_delivered:
  assumes "(store_step E)\<^sup>*\<^sup>* d d'" "store_inv d" "ledger_inv E d" "r \<in> set (outbox d)" "ob_delivered_at r \<noteq> None"
  shows "r \<in> set (outbox d')"
  using assms
proof (induction rule: rtranclp_induct)
  case (step d1 d2)
  have inv: "store_inv d1" "ledger_inv E d1"
    using steps_store_inv [OF step.hyps(1)] steps_ledger_inv [OF step.hyps(1)] step.prems by auto
  have "ledger_step E d1 d2" by (rule store_step_ledger) (use inv step.hyps(2) in \<open>auto simp: ledger_inv_def\<close>)
  then obtain f new where f: "outbox d2 = map f (outbox d1) @ new" "\<forall>r\<in>set (outbox d1). outbox_move (outbox d1) r (f r)"
    by (auto simp: ledger_step_def outbox_evolves_def)
  have "r \<in> set (outbox d1)" by (rule step.IH [OF step.prems])
  with f step.prems(4) show ?case by (force simp: outbox_move_def outbox_row_step_def)
qed simp

text \<open>
  C8: Append-only evidence. Whatever operations any workers and operators perform, no event,
  checkpoint, lifecycle transition or inbox entry that was ever committed is changed, removed
  or reordered, and an outbox message that was delivered stays exactly as it was recorded.
\<close>

theorem evidence_append_only:
  assumes "reachable E d" "(store_step E)\<^sup>*\<^sup>* d d'"
  shows "(\<exists>new. events d' = events d @ new) \<and> (\<exists>new. checkpoints d' = checkpoints d @ new) \<and>
    (\<exists>new. transitions d' = transitions d @ new) \<and> (\<exists>new. inbox d' = inbox d @ new) \<and>
    (\<forall>r\<in>set (outbox d). ob_delivered_at r \<noteq> None \<longrightarrow> r \<in> set (outbox d'))"
proof -
  note inv = reachable_store_inv [OF assms(1)] reachable_ledger_inv [OF assms(1)]
  show ?thesis using steps_append [OF assms(2) inv] steps_delivered [OF assms(2) inv] by blast
qed

lemma steps_demo: "(store_step store_env_demo)\<^sup>*\<^sup>* db_evaluated db_replaced"
proof -
  have "store_step store_env_demo db_evaluated (after (prepare_demo ''4'' 2 db_evaluated))"
    by (rule store_step.prepare [OF demo_replacing(1)])
  moreover have "store_step store_env_demo (after (prepare_demo ''4'' 2 db_evaluated)) db_replacing"
    by (rule store_step.arm [OF demo_replacing(2)])
  moreover have "store_step store_env_demo db_replacing db_replaced"
    by (rule store_step.cutover [OF demo_replaced])
  ultimately show ?thesis by (meson rtranclp.rtrancl_into_rtrancl rtranclp.rtrancl_refl)
qed

theorem evidence_append_only_witness:
  "\<exists>new. checkpoints db_replaced = checkpoints db_evaluated @ new"
  using evidence_append_only [OF reachable_evaluated steps_demo] by blast

section \<open>Revisions\<close>

text \<open>
  C10: Revisions without gaps. In every reachable store the checkpoints of a generation carry
  the revisions 1, 2, and so on up to the evaluation revision of its row, none missing and none
  twice; their telemetry cursors never go back, for the live generation they strictly advance;
  each lies inside the authority interval of the generation, and the summary repeats the last.
\<close>

theorem revisions_without_gaps:
  assumes "reachable E d" "r \<in> set (assignments d)"
  shows "map cp_rev (generation_checkpoints (ar_id r) (ar_gen r) d) = [1..<Suc (ar_evaluation_revision r)] \<and>
    sorted_wrt (\<le>) (map checkpoint_cursor (generation_checkpoints (ar_id r) (ar_gen r) d)) \<and>
    (current_row r \<longrightarrow> sorted_wrt (<) (map checkpoint_cursor (generation_checkpoints (ar_id r) (ar_gen r) d))) \<and>
    (\<forall>c\<in>set (generation_checkpoints (ar_id r) (ar_gen r) d). authority_covers (cp_through_ns c) r) \<and>
    (case lookup_summary (ar_id r) (ar_gen r) d of
       None \<Rightarrow> ar_evaluation_revision r = 0
     | Some s \<Rightarrow> sum_rev s = ar_evaluation_revision r)"
proof -
  have w: "row_watermark d r"
    using reachable_store_inv [OF assms(1)] assms(2) by (simp add: store_inv_def watermark_inv_def)
  let ?cps = "generation_checkpoints (ar_id r) (ar_gen r) d"
  have revs: "map cp_rev ?cps = [1..<Suc (ar_evaluation_revision r)]" using w by (simp only: row_watermark_def)
  have len: "length ?cps = ar_evaluation_revision r"
    using arg_cong [OF revs, of length] by simp
  have "cp_rev (last ?cps) = ar_evaluation_revision r" if ne: "?cps \<noteq> []"
  proof -
    have "Suc 0 \<le> ar_evaluation_revision r" using ne len by (cases ?cps) auto
    then show ?thesis using arg_cong [OF revs, of last] ne by (simp add: last_map)
  qed
  then have "case lookup_summary (ar_id r) (ar_gen r) d of None \<Rightarrow> ar_evaluation_revision r = 0
     | Some s \<Rightarrow> sum_rev s = ar_evaluation_revision r"
    using w len by (auto simp: row_watermark_def summary_repeats_def split: option.splits)
  then show ?thesis using w unfolding row_watermark_def by blast
qed

theorem revisions_without_gaps_witness:
  "\<exists>r\<in>set (assignments db_evaluated).
     map cp_rev (generation_checkpoints (ar_id r) (ar_gen r) db_evaluated) = [1..<Suc (ar_evaluation_revision r)]"
proof -
  have "assignments db_evaluated \<noteq> []" by code_simp
  then obtain r where r: "r \<in> set (assignments db_evaluated)" using list.set_sel(1) by blast
  show ?thesis using revisions_without_gaps [OF reachable_evaluated r] r by blast
qed

section \<open>Handover to the Registry\<close>

lemma outbox_accepts:
  assumes led: "ledger_inv E d" and sha: "\<And>s t. sha_hex E s \<noteq> ''registry:'' @ t"
    and newer: "\<And>a. a \<in> set (assignments d) \<Longrightarrow> row_key a = (asg_ID x, asg_Generation x) \<Longrightarrow> ar_evaluation_revision a < n"
  shows "outbox_ok (outbox d @ [registry_outbox now x n e])"
proof -
  let ?new = "registry_outbox now x n e"
  have new: "ob_id ?new = registry_id (asg_ID x) (asg_Generation x) n" "ob_key ?new = ob_id ?new"
    by (simp_all add: registry_outbox_def Let_def)
  have "ob_key r = ob_id r \<and> ob_id r \<noteq> ob_id ?new" if "r \<in> set (outbox d)" for r
  proof -
    have wf: "outbox_wf E d r" using led that by (auto simp: ledger_inv_def list_all_iff)
    show ?thesis
    proof (cases "registry_wf d r")
      case True
      then obtain a where a: "a \<in> set (assignments d)" "row_key a = (ob_aid r, ob_gen r)" "ob_rev r \<le> ar_evaluation_revision a"
        and rid: "ob_id r = registry_id (ob_aid r) (ob_gen r) (ob_rev r)" by (auto simp: registry_wf_def)
      have "ob_id r \<noteq> ob_id ?new"
      proof
        assume "ob_id r = ob_id ?new"
        then have "ob_aid r = asg_ID x \<and> ob_gen r = asg_Generation x \<and> ob_rev r = n"
          using rid new registry_id_inj by simp
        then show False using newer [OF a(1)] a by simp
      qed
      then show ?thesis using wf by (simp add: outbox_wf_def)
    next
      case False
      then obtain s where "ob_id r = sha_hex E s" using wf by (auto simp: outbox_wf_def)
      moreover have "\<exists>t. ob_id ?new = ''registry:'' @ t" unfolding new registry_id_def by blast
      ultimately show ?thesis using sha wf by (auto simp: outbox_wf_def)
    qed
  qed
  then have "ob_id ?new \<notin> ob_id ` set (outbox d)" "ob_key ?new \<notin> ob_key ` set (outbox d)"
    using new(2) by (metis imageE)+
  then show ?thesis using led by (simp add: ledger_inv_def outbox_ok_def)
qed

lemma writeEvaluation_outbox:
  assumes run: "writeEvaluation E now a n e allowEqual publish d = Inr d'"
    and ok: "publish \<Longrightarrow> outbox_ok (outbox d @ [registry_outbox now a n (confirmed e)])"
  shows "outbox d' = outbox d @ (if publish then [registry_outbox now a n (confirmed e)] else [])"
proof -
  obtain d1 d2 d3 where d1: "write_transitions E a n (confirmed e) (ev_Transitions (confirmed e)) d = Inr d1"
    and d2: "insert_checkpoint (checkpoint_entry E a n (confirmed e)) d1 = Inr d2"
    and d3: "upsert_summary (summary_entry E a n (confirmed e)) d2 = Inr d3"
    and d': "d' = (if publish then enqueue_live (registry_outbox now a n (confirmed e)) d3 else d3)"
    using run by (auto simp: writeEvaluation_def confirmed_def monad_splits Let_def)
  have "outbox d3 = outbox d"
    using d2 d3 write_transitions_frame [OF d1]
    by (auto simp: stmt upsert_summary_def other_tables_def Let_def split: if_splits)
  then show ?thesis using d' ok by (auto simp: enqueue_live_def)
qed

text \<open>
  C9: Handover. The insert of the Registry message is \<^verbatim>\<open>ON CONFLICT DO NOTHING\<close>, and yet it is
  never swallowed: a live commit appends exactly one message, keyed by the assignment, its
  generation and the revision it has just reached, with the committed evaluation as payload. A
  historical commit appends none and leaves every message as it was. (A hexadecimal digest does
  not begin with the prefix of the Registry keys.)
\<close>

theorem commit_hands_over_once:
  assumes reach: "reachable E d" and sha: "\<And>s t. sha_hex E s \<noteq> ''registry:'' @ t"
  shows "(CommitEvaluation E now c cm d = Inr d1 \<longrightarrow>
      outbox d1 = outbox d @ [registry_outbox now (cl_Assignment c) (cl_EvaluationRevision c + 1) (confirmed (ec_Evaluation cm))]) \<and>
    (CommitHistoricalEvaluation E now c hist cm d = Inr d2 \<longrightarrow> outbox d2 = outbox d)"
proof (intro conjI impI)
  note inv = reachable_store_inv [OF reach]
  have ok: "assignments_ok (assignments d)" using inv by (simp add: store_inv_def timeline_inv_def)
  show "outbox d1 = outbox d @ [registry_outbox now (cl_Assignment c) (cl_EvaluationRevision c + 1) (confirmed (ec_Evaluation cm))]"
    if run: "CommitEvaluation E now c cm d = Inr d1"
    using ok run
  proof (rule CommitEvaluation_Inr)
    fix row :: assignment_row
    let ?n = "ar_evaluation_revision row + 1"
    let ?row = "registry_outbox now (cl_Assignment c) ?n (confirmed (ec_Evaluation cm))"
    assume row: "row \<in> set (assignments d)" "lease_fence now c row" "ar_evaluation_revision row = cl_EvaluationRevision c"
      and wr: "writeEvaluation E now (cl_Assignment c) ?n (ec_Evaluation cm) False True
         (d\<lparr>assignments := map (\<lambda>r. if r = row then counted_up E now cm r else r) (assignments d)\<rparr>) = Inr d1"
    have "outbox_ok (outbox d @ [?row])"
    proof (rule outbox_accepts [OF reachable_ledger_inv [OF reach] sha])
      fix a assume "a \<in> set (assignments d)" "row_key a = (asg_ID (cl_Assignment c), asg_Generation (cl_Assignment c))"
      then have "a = row" using row row_key_inj [OF ok] by (simp add: lease_fence_def)
      then show "ar_evaluation_revision a < ?n" by simp
    qed
    then show ?thesis using writeEvaluation_outbox [OF wr] row(3) by simp
  qed
  show "outbox d2 = outbox d" if run: "CommitHistoricalEvaluation E now c hist cm d = Inr d2"
    using ok run by (rule CommitHistoricalEvaluation_Inr) (drule writeEvaluation_Inr(8), simp)
qed

text \<open>The digest of the demonstration, made to look like no Registry key.\<close>

definition store_env_hex :: store_env where
  "store_env_hex = store_env_demo\<lparr>sha_hex := (\<lambda>s. CHR ''0'' # s)\<rparr>"

definition db_hex :: db where
  "db_hex = snd (ClaimDueAssignmentsWithFinalizationGrace store_env_hex 5000 (\<lambda>_. False) ''w'' 100 0 10
     (after (CutoverAssignment store_env_hex 5000 ''s'' ''3'' ''A'' 1 1000
       (after (ArmAssignment store_env_hex 5000 ''s'' ''2'' ''A'' 1
         (after (PrepareAssignment store_env_hex 5000 ''s'' ''1'' ''t'' (spec_demo 1) empty_db)))))))"

lemma reachable_hex: "reachable store_env_hex db_hex"
proof -
  let ?p = "PrepareAssignment store_env_hex 5000 ''s'' ''1'' ''t'' (spec_demo 1) empty_db"
  let ?a = "ArmAssignment store_env_hex 5000 ''s'' ''2'' ''A'' 1 (after ?p)"
  let ?c = "CutoverAssignment store_env_hex 5000 ''s'' ''3'' ''A'' 1 1000 (after ?a)"
  have "\<not> isl ?p" by code_simp
  from store_step.prepare [OF after_Inr [OF this]] have p: "reachable store_env_hex (after ?p)"
    by (rule reachable.step [OF reachable.init])
  have "\<not> isl ?a" by code_simp
  from store_step.arm [OF after_Inr [OF this]] have a: "reachable store_env_hex (after ?a)"
    by (rule reachable.step [OF p])
  have "\<not> isl ?c" by code_simp
  from store_step.cutover [OF after_Inr [OF this]] have c: "reachable store_env_hex (after ?c)"
    by (rule reachable.step [OF a])
  show ?thesis unfolding db_hex_def
    by (rule reachable.step [OF c]) (rule store_step.claim_due, rule surjective_pairing)
qed

theorem commit_hands_over_once_witness:
  "\<exists>d1. CommitEvaluation store_env_hex 5010 (claim_demo 1 1 0) (commit_demo 1500 ''B'' 1) db_hex = Inr d1 \<and>
     outbox d1 = outbox db_hex @ [registry_outbox 5010 (spec_demo 1) 1 (confirmed (evaluation_demo 1500 ''B'' 1))]"
proof -
  have "\<not> isl (CommitEvaluation store_env_hex 5010 (claim_demo 1 1 0) (commit_demo 1500 ''B'' 1) db_hex)" by code_simp
  then obtain d1 where d1: "CommitEvaluation store_env_hex 5010 (claim_demo 1 1 0) (commit_demo 1500 ''B'' 1) db_hex = Inr d1"
    by (metis sum.collapse(2))
  have sha: "sha_hex store_env_hex s \<noteq> ''registry:'' @ t" for s t by (simp add: store_env_hex_def)
  show ?thesis using commit_hands_over_once [OF reachable_hex sha] d1
    by (auto simp: claim_demo_def commit_demo_def)
qed

end
