(* ===== verification/Worker.thy ===== *)
theory Worker
  imports Reader Store_Evaluation
begin

text \<open>
  The evaluation worker of \<^verbatim>\<open>internal/worker/evaluation.go\<close>: configuration, the complete read
  of a saturated window by bisection, the suffix after a checkpoint, the processing of one
  claim and one poll.

  A claim is processed while other replicas, the renewal goroutine and the operator act on the
  same database. What they do is the argument \<open>interference\<close>: the database clock at each store
  call of the claim, what happened to the database before it, and which contexts are cancelled
  by then. The renewal goroutine is part of it: its renewals happen between the calls, its
  error and its cancellation are visible through \<open>ix_renewal\<close> and \<open>ix_cancelled\<close>.
\<close>

record worker_config =
  wc_WorkerID :: string
  wc_PollInterval :: duration
  wc_LeaseDuration :: duration
  wc_RenewInterval :: duration
  wc_SettleDelay :: duration
  wc_OverlapWindow :: duration
  wc_ClaimBatchSize :: int

definition Config_Validate :: "worker_config \<Rightarrow> bool" where
  "Config_Validate c \<longleftrightarrow>
     \<not> (wc_WorkerID c = [] \<or> wc_PollInterval c \<le> 0 \<or> wc_LeaseDuration c \<le> 0 \<or> wc_RenewInterval c \<le> 0 \<or>
        wc_LeaseDuration c \<le> wc_RenewInterval c \<or> wc_SettleDelay c < 0 \<or> wc_OverlapWindow c \<le> 0 \<or>
        wc_ClaimBatchSize c < 1)"

definition worker_New :: "bool \<Rightarrow> bool \<Rightarrow> bool \<Rightarrow> bool \<Rightarrow> worker_config \<Rightarrow> unit + worker_config" where
  "worker_New has_store has_reader has_engine has_log cfg =
     (if \<not> has_store \<or> \<not> has_reader \<or> \<not> has_engine \<or> \<not> has_log then Inl ()
      else if \<not> Config_Validate cfg then Inl () else Inr cfg)"

datatype worker_error =
  WStore store_error | WReader reader_error | WEvaluator eval_error | WCheckpointMismatch | WCanceled
  | WJoined worker_error worker_error

text \<open>\<^verbatim>\<open>errors.Is\<close> looks through joined and wrapped errors.\<close>

fun error_is :: "(worker_error \<Rightarrow> bool) \<Rightarrow> worker_error \<Rightarrow> bool" where
  "error_is P (WJoined a b) = (P (WJoined a b) \<or> error_is P a \<or> error_is P b)"
| "error_is P e = P e"

definition is_wal_unavailable :: "worker_error \<Rightarrow> bool" where
  "is_wal_unavailable = error_is (\<lambda>e. e = WReader ErrWALIdentityUnavailable)"

definition is_canceled :: "worker_error \<Rightarrow> bool" where
  "is_canceled = error_is (\<lambda>e. e = WCanceled \<or> (case e of WReader (QueryFailed f) \<Rightarrow> qf_canceled f | _ \<Rightarrow> False))"

definition is_lease_lost :: "worker_error \<Rightarrow> bool" where
  "is_lease_lost = error_is (\<lambda>e. e = WStore ErrLeaseLost)"

section \<open>Complete reads\<close>

definition window_middle :: "gotime \<Rightarrow> gotime \<Rightarrow> gotime" where
  "window_middle start end' = start + quot (Sub end' start) 2"

definition merge_reads :: "read_result \<Rightarrow> read_result \<Rightarrow> read_result" where
  "merge_reads left right =
     \<lparr>rr_Observations = unique_by obs_FrameID {} (rr_Observations left @ rr_Observations right),
      rr_Rejections = rr_Rejections left @ rr_Rejections right\<rparr>"

function readComplete ::
  "fpu \<Rightarrow> (real \<Rightarrow> nat) \<Rightarrow> runner \<Rightarrow> reader \<Rightarrow> string \<Rightarrow> gotime \<Rightarrow> gotime \<Rightarrow> reader_error + read_result" where
  "readComplete F oor runner r aircraftID start end' =
     (case ReadPositions F oor runner r [aircraftID] start end' of
        Inl ErrWindowSaturated \<Rightarrow>
          (let middle = window_middle start end' in
           if \<not> start < middle \<or> \<not> middle < end' then Inl ErrWindowSaturated
           else
             ebind (readComplete F oor runner r aircraftID start middle) (\<lambda>left.
             ebind (readComplete F oor runner r aircraftID middle end') (\<lambda>right.
             Inr (merge_reads left right))))
      | other \<Rightarrow> other)"
  by pat_completeness auto
termination
  by (relation "measure (\<lambda>(F, oor, runner, r, aircraftID, start, end'). nat (end' - start))") auto

declare readComplete.simps [simp del]

section \<open>The suffix after a checkpoint\<close>

definition afterCheckpoint :: "observation \<Rightarrow> replay_checkpoint \<Rightarrow> bool" where
  "afterCheckpoint obs cp =
     (if obs_ObservedAt obs \<noteq> rc_StateThroughAt cp then rc_StateThroughAt cp < obs_ObservedAt obs
      else if obs_WALID obs \<noteq> rc_WALID cp then rc_WALID cp < obs_WALID obs
      else if obs_WALSequence obs \<noteq> rc_WALSequence cp then rc_WALSequence cp < obs_WALSequence obs
      else rc_FrameID cp < obs_FrameID obs)"

definition workerBefore :: "observation \<Rightarrow> observation \<Rightarrow> bool" where
  "workerBefore a b =
     (if obs_ObservedAt a \<noteq> obs_ObservedAt b then obs_ObservedAt a < obs_ObservedAt b
      else if obs_AgentID a \<noteq> obs_AgentID b then obs_AgentID a < obs_AgentID b
      else if obs_WALID a \<noteq> obs_WALID b then obs_WALID a < obs_WALID b
      else if obs_WALSequence a \<noteq> obs_WALSequence b then obs_WALSequence a < obs_WALSequence b
      else obs_FrameID a < obs_FrameID b)"

definition attributed :: "claim \<Rightarrow> observation \<Rightarrow> bool" where
  "attributed c obs \<longleftrightarrow>
     \<not> (obs_AgentID obs \<noteq> asg_AgentID (cl_Assignment c) \<or> obs_FlightID obs \<noteq> asg_FlightID (cl_Assignment c) \<or>
        obs_IntentID obs \<noteq> asg_IntentID (cl_Assignment c) \<or>
        obs_IntentVersion obs \<noteq> asg_IntentVersion (cl_Assignment c))"

definition evaluableSuffix :: "observation list \<Rightarrow> claim \<Rightarrow> replay_checkpoint option \<Rightarrow> observation list" where
  "evaluableSuffix observations c cp =
     sort_by workerBefore (filter (\<lambda>obs.
        attributed c obs \<and>
        \<not> (obs_ObservedAt obs < cl_AuthorityFrom c \<or> \<not> obs_ObservedAt obs < cl_AuthorityUntil c) \<and>
        \<not> (case cp of None \<Rightarrow> False | Some k \<Rightarrow> \<not> afterCheckpoint obs k)) observations)"

section \<open>One claim\<close>

record interference =
  ix_clock :: "nat \<Rightarrow> gotime"
  ix_before :: "nat \<Rightarrow> db \<Rightarrow> db"
  ix_cancelled :: "nat \<Rightarrow> bool"
  ix_parent_cancelled :: "nat \<Rightarrow> bool"
  ix_renewal :: "worker_error option"

record worker_env =
  we_store :: store_env
  we_fpu :: fpu
  we_out_of_range :: "real \<Rightarrow> nat"
  we_runner :: runner
  we_reader :: reader
  we_policy :: policy
  we_config :: worker_config

type_synonym outcome = "worker_error option \<times> db"

definition deferClaim :: "worker_env \<Rightarrow> interference \<Rightarrow> nat \<Rightarrow> claim \<Rightarrow> gotime \<Rightarrow> db \<Rightarrow> outcome" where
  "deferClaim W I k c nextAt d =
     (let d1 = ix_before I k d in
      if ix_parent_cancelled I k then (Some WCanceled, d1)
      else case DeferAssignmentEvaluation (we_store W) (ix_clock I k) c nextAt d1 of
        Inl e \<Rightarrow> (Some (WStore e), d1) | Inr d2 \<Rightarrow> (None, d2))"

definition deferAfterError ::
  "worker_env \<Rightarrow> interference \<Rightarrow> nat \<Rightarrow> claim \<Rightarrow> gotime \<Rightarrow> worker_error \<Rightarrow> db \<Rightarrow> outcome" where
  "deferAfterError W I k c now cause d =
     (if is_wal_unavailable cause \<or> is_lease_lost cause \<or> is_canceled cause then (Some cause, d)
      else case deferClaim W I k c (now + wc_PollInterval (we_config W)) d of
        (Some e, d') \<Rightarrow> (Some (WJoined cause e), d') | (None, d') \<Rightarrow> (Some cause, d'))"

definition window_end :: "worker_config \<Rightarrow> gotime \<Rightarrow> claim \<Rightarrow> gotime" where
  "window_end cfg now c =
     (let e = now - wc_SettleDelay cfg in if cl_AuthorityUntil c < e then cl_AuthorityUntil c else e)"

definition window_start :: "worker_config \<Rightarrow> claim \<Rightarrow> replay_checkpoint option \<Rightarrow> gotime" where
  "window_start cfg c cp =
     (case cp of None \<Rightarrow> cl_AuthorityFrom c
      | Some k \<Rightarrow>
          (let s = rc_StateThroughAt k - wc_OverlapWindow cfg in
           if s < cl_AuthorityFrom c then cl_AuthorityFrom c else s))"

definition checkpoint_matches :: "claim \<Rightarrow> replay_checkpoint option \<Rightarrow> bool" where
  "checkpoint_matches c cp \<longleftrightarrow>
     \<not> ((cl_EvaluationRevision c = 0 \<and> cp \<noteq> None) \<or>
        (0 < cl_EvaluationRevision c \<and>
         (case cp of None \<Rightarrow> True | Some k \<Rightarrow> rc_EvaluationRevision k \<noteq> cl_EvaluationRevision c)))"

definition evaluation_assignment :: "claim \<Rightarrow> assignment" where
  "evaluation_assignment c =
     (cl_Assignment c)\<lparr>asg_EffectiveFrom := cl_AuthorityFrom c, asg_EffectiveUntil := cl_AuthorityUntil c\<rparr>"

text \<open>From the replay checkpoint on: read, select, evaluate, commit.\<close>

definition evaluate_claim ::
  "worker_env \<Rightarrow> interference \<Rightarrow> gotime \<Rightarrow> claim \<Rightarrow> replay_checkpoint option \<Rightarrow> db \<Rightarrow> outcome" where
  "evaluate_claim W I now c cp d =
     (let cfg = we_config W;
          previous = (case cp of None \<Rightarrow> empty_state | Some k \<Rightarrow> rc_State k) in
      case readComplete (we_fpu W) (we_out_of_range W) (we_runner W) (we_reader W)
             (asg_AircraftID (cl_Assignment c)) (window_start cfg c cp) (window_end cfg now c) of
        Inl e \<Rightarrow> deferAfterError W I 1 c now (WReader e) d
      | Inr result \<Rightarrow>
          (case evaluableSuffix (rr_Observations result) c cp of
             [] \<Rightarrow> deferClaim W I 1 c (now + wc_PollInterval cfg) d
           | suffix \<Rightarrow>
              (case EvaluateBatch (we_fpu W) (we_policy W) (evaluation_assignment c) suffix previous of
                 Inl e \<Rightarrow> deferAfterError W I 1 c now (WEvaluator e) d
               | Inr evaluation \<Rightarrow>
                  (case ix_renewal I of
                     Some e \<Rightarrow> (Some e, d)
                   | None \<Rightarrow>
                      (let d1 = ix_before I 1 d in
                       if ix_cancelled I 1 then (Some WCanceled, d1)
                       else case CommitEvaluation (we_store W) (ix_clock I 1) c
                              \<lparr>ec_Evaluation = evaluation, ec_NextEvaluationAt = now + wc_PollInterval cfg\<rparr> d1 of
                         Inl e \<Rightarrow> (Some (WStore e), d1) | Inr d2 \<Rightarrow> (None, d2))))))"

definition processClaim :: "worker_env \<Rightarrow> interference \<Rightarrow> gotime \<Rightarrow> claim \<Rightarrow> db \<Rightarrow> outcome" where
  "processClaim W I now c d =
     (let cfg = we_config W; end' = window_end cfg now c in
      if \<not> cl_AuthorityFrom c < end' then deferClaim W I 0 c (now + wc_PollInterval cfg) d
      else
        (let d1 = ix_before I 0 d in
         if ix_cancelled I 0 then deferAfterError W I 1 c now WCanceled d1
         else
           (let cp = GetReplayCheckpoint (we_store W) (asg_ID (cl_Assignment c))
                       (asg_Generation (cl_Assignment c)) end' d1 in
            if \<not> checkpoint_matches c cp then deferAfterError W I 1 c now WCheckpointMismatch d1
            else evaluate_claim W I now c cp d1)))"

section \<open>One poll\<close>

text \<open>
  The claims of a batch run concurrently; \<open>runs\<close> lists them in the order in which their results
  arrive, each with the interference it met.
\<close>

fun process_claims ::
  "worker_env \<Rightarrow> gotime \<Rightarrow> (claim \<times> interference) list \<Rightarrow> db \<Rightarrow> worker_error option list \<times> db" where
  "process_claims W now [] d = ([], d)"
| "process_claims W now ((c, I) # runs) d =
     (let (res, d1) = processClaim W I now c d; (rest, d2) = process_claims W now runs d1 in (res # rest, d2))"

fun poll_error :: "bool \<Rightarrow> worker_error option list \<Rightarrow> worker_error option \<Rightarrow> worker_error option" where
  "poll_error batchCancelled [] acc = acc"
| "poll_error batchCancelled (None # rest) acc = poll_error batchCancelled rest acc"
| "poll_error batchCancelled (Some e # rest) acc =
     (if is_canceled e \<and> batchCancelled then poll_error batchCancelled rest acc
      else if is_wal_unavailable e then Some e
      else poll_error batchCancelled rest
             (Some (case acc of None \<Rightarrow> e | Some p \<Rightarrow> WJoined p e)))"

definition Poll ::
  "worker_env \<Rightarrow> gotime \<Rightarrow> gotime \<Rightarrow> (assignment_row \<Rightarrow> bool) \<Rightarrow> bool \<Rightarrow>
   (claim list \<Rightarrow> (claim \<times> interference) list) \<Rightarrow> db \<Rightarrow> outcome" where
  "Poll W dbnow now locked parentCancelled schedule d =
     (let cfg = we_config W in
      case ClaimDueAssignmentsWithFinalizationGrace (we_store W) dbnow locked (wc_WorkerID cfg)
             (wc_LeaseDuration cfg) (wc_SettleDelay cfg + wc_PollInterval cfg) (wc_ClaimBatchSize cfg) d of
        (Inl e, d1) \<Rightarrow> (Some (WStore e), d1)
      | (Inr claims, d1) \<Rightarrow>
          (let (results, d2) = process_claims W now (schedule claims) d1;
               batchCancelled = (parentCancelled \<or>
                 list_ex (\<lambda>r. case r of None \<Rightarrow> False | Some e \<Rightarrow> is_wal_unavailable e) results) in
           (poll_error batchCancelled results None, d2)))"

section \<open>The loop\<close>

text \<open>
  One iteration: the poll it makes, whether the context had ended when a failed poll returned,
  and whether the wait for the next tick ended with the context. The loop has no bound of its
  own, so it is run over the iterations that take place; \<open>Running\<close> says it has not returned.
\<close>

record tick =
  tk_poll :: "db \<Rightarrow> outcome"
  tk_cancelled :: bool
  tk_stop :: bool

datatype run_result = Running db | Returned "worker_error option" db

fun worker_Run :: "tick list \<Rightarrow> db \<Rightarrow> run_result" where
  "worker_Run [] d = Running d"
| "worker_Run (t # ts) d =
     (let (res, d') = tk_poll t d; wait = (if tk_stop t then Returned None d' else worker_Run ts d') in
      case res of
        None \<Rightarrow> wait
      | Some e \<Rightarrow>
          if is_wal_unavailable e then Returned (Some e) d'
          else if tk_cancelled t then Returned None d' else wait)"

end
