(* ===== verification/Store_Recovery.thy ===== *)
theory Store_Recovery
  imports Store_Evidence Worker
begin

text \<open>
  Take-over of an assignment: which rows a claim leases, and which checkpoint the new owner
  restores. The restored checkpoint is the last committed one when the database collation
  orders text bytewise, as Go's comparison does; a collation that does not can block an
  assignment for good.
\<close>

section \<open>Restoring\<close>

lemma checkpoint_less_bytes:
  "text_less E = (<) \<Longrightarrow> checkpoint_less E a b \<longleftrightarrow> checkpoint_cursor a < checkpoint_cursor b"
  by (auto simp: checkpoint_less_def checkpoint_cursor_def less_prod_def less_eq_prod_def)

definition restored :: "checkpoint_row \<Rightarrow> replay_checkpoint" where
  "restored c =
     \<lparr>rc_EvaluationRevision = cp_rev c, rc_StateThroughAt = cp_through_ns c, rc_WALID = cp_wal c,
      rc_WALSequence = cp_seq c, rc_FrameID = cp_frame c, rc_State = cp_state c\<rparr>"

lemma restore_newest:
  assumes w: "row_watermark d r" and cur: "current_row r" and bytes: "text_less E = (<)"
    and ne: "row_checkpoints d r \<noteq> []" and upto: "cp_through_ns (last (row_checkpoints d r)) \<le> UnixNano t"
  shows "GetReplayCheckpoint E (ar_id r) (ar_gen r) t d = Some (restored (last (row_checkpoints d r)))"
proof -
  let ?cps = "row_checkpoints d r"
  have strict: "sorted_wrt (<) (map checkpoint_cursor ?cps)" using w cur by (simp add: row_watermark_def)
  have all: "filter (\<lambda>c. cp_through_ns c \<le> UnixNano t) ?cps = ?cps"
  proof (rule filter_True, rule ballI)
    fix c assume c: "c \<in> set ?cps"
    have "sorted_wrt (\<le>) (map checkpoint_cursor ?cps)" using w by (simp only: row_watermark_def)
    from sorted_map_last [OF this c] have "cp_through_ns c \<le> cp_through_ns (last ?cps)"
      by (auto simp: checkpoint_cursor_def less_eq_prod_def)
    with upto show "cp_through_ns c \<le> UnixNano t" by simp
  qed
  have "sorted_wrt (checkpoint_less E) ?cps"
    using strict unfolding sorted_wrt_map
    by (rule sorted_wrt_mono_rel [rotated]) (simp add: checkpoint_less_bytes [OF bytes])
  from greatest_sorted [OF this ne] show ?thesis
    by (simp add: GetReplayCheckpoint_def all restored_def)
qed

lemma restore_none:
  "row_watermark d r \<Longrightarrow> ar_evaluation_revision r = 0 \<Longrightarrow> GetReplayCheckpoint E (ar_id r) (ar_gen r) t d = None"
  by (simp add: GetReplayCheckpoint_def row_watermark_def)

lemma commit_restores:
  assumes reach: "reachable E d" and bytes: "text_less E = (<)"
    and run: "CommitEvaluation E now c cm d = Inr d'"
    and upto: "ev_ObservedAt (ec_Evaluation cm) \<le> t" "supportedUnixNanoseconds t"
  shows "GetReplayCheckpoint E (asg_ID (cl_Assignment c)) (asg_Generation (cl_Assignment c)) t d' =
    Some \<lparr>rc_EvaluationRevision = cl_EvaluationRevision c + 1, rc_StateThroughAt = ev_ObservedAt (ec_Evaluation cm),
          rc_WALID = ev_WALID (ec_Evaluation cm), rc_WALSequence = ev_WALSequence (ec_Evaluation cm),
          rc_FrameID = ev_FrameID (ec_Evaluation cm), rc_State = ev_State (ec_Evaluation cm)\<rparr>"
proof -
  have ok: "assignments_ok (assignments d)"
    using reachable_store_inv [OF reach] by (simp add: store_inv_def timeline_inv_def)
  have inv': "store_inv d'"
    using reachable_store_inv [OF reachable.step [OF reach store_step.commit [OF run]]] .
  from ok run show ?thesis
  proof (rule CommitEvaluation_Inr)
    fix row :: assignment_row
    let ?e = "ec_Evaluation cm"
    assume row: "row \<in> set (assignments d)" "lease_fence now c row" "ar_evaluation_revision row = cl_EvaluationRevision c"
      and valid: "validateEvaluationCommit cm = Inr ()"
      and wr: "writeEvaluation E now (cl_Assignment c) (ar_evaluation_revision row + 1) ?e False True
         (d\<lparr>assignments := map (\<lambda>r. if r = row then counted_up E now cm r else r) (assignments d)\<rparr>) = Inr d'"
    let ?r = "counted_up E now cm row" and ?cp = "checkpoint_entry E (cl_Assignment c) (ar_evaluation_revision row + 1) (confirmed ?e)"
    note w = writeEvaluation_Inr [OF wr]
    have mem: "?r \<in> set (assignments d')" using w(1) row(1) by force
    have key: "ar_id ?r = asg_ID (cl_Assignment c)" "ar_gen ?r = asg_Generation (cl_Assignment c)" "current_row ?r"
      using row(2) by (auto simp: lease_fence_def drop_lease_def)
    have cps: "row_checkpoints d' ?r = generation_checkpoints (ar_id ?r) (ar_gen ?r) d @ [?cp]"
      using w(3) key by (simp add: generation_checkpoints_def)
    have nano: "UnixNano (ev_ObservedAt ?e) = ev_ObservedAt ?e"
      using valid by (auto simp: validateEvaluationCommit_def monad_splits Let_def)
    have "row_watermark d' ?r" using inv' mem by (simp add: store_inv_def watermark_inv_def)
    have newest: "row_checkpoints d' ?r \<noteq> []" "last (row_checkpoints d' ?r) = ?cp" unfolding cps by simp_all
    have "cp_through_ns (last (row_checkpoints d' ?r)) \<le> UnixNano t" unfolding newest(2) using upto nano by simp
    from restore_newest [OF \<open>row_watermark d' ?r\<close> key(3) bytes newest(1) this]
    have "GetReplayCheckpoint E (ar_id ?r) (ar_gen ?r) t d' = Some (restored ?cp)" unfolding newest(2) .
    then show ?thesis using key row(3) nano by (simp add: restored_def checkpoint_entry_def confirmed_def)
  qed
qed

text \<open>
  C19: Commit and restore. After a live commit, reading the replay checkpoint at any instant
  from the committed watermark on gives back exactly what was committed: the revision the commit
  reached, the telemetry cursor of the evaluation and its evaluator state; so the revision check
  of the next worker passes.
\<close>

theorem commit_then_restore:
  assumes reach: "reachable E d" and bytes: "text_less E = (<)"
    and run: "CommitEvaluation E now c cm d = Inr d'"
    and upto: "ev_ObservedAt (ec_Evaluation cm) \<le> t" "supportedUnixNanoseconds t"
  shows "GetReplayCheckpoint E (asg_ID (cl_Assignment c)) (asg_Generation (cl_Assignment c)) t d' =
    Some \<lparr>rc_EvaluationRevision = cl_EvaluationRevision c + 1, rc_StateThroughAt = ev_ObservedAt (ec_Evaluation cm),
          rc_WALID = ev_WALID (ec_Evaluation cm), rc_WALSequence = ev_WALSequence (ec_Evaluation cm),
          rc_FrameID = ev_FrameID (ec_Evaluation cm), rc_State = ev_State (ec_Evaluation cm)\<rparr>"
  by (rule commit_restores [OF assms])

theorem commit_then_restore_witness:
  "GetReplayCheckpoint store_env_demo ''A'' 1 2000 db_evaluated =
     Some \<lparr>rc_EvaluationRevision = 1, rc_StateThroughAt = 1500, rc_WALID = ''B'', rc_WALSequence = 1,
           rc_FrameID = ''fr'', rc_State = empty_state\<rparr>"
proof -
  have "text_less store_env_demo = (<)" by (simp add: store_env_demo_def)
  moreover have "ev_ObservedAt (ec_Evaluation (commit_demo 1500 ''B'' 1)) \<le> 2000"
    by (simp add: commit_demo_def evaluation_demo_def)
  moreover have "supportedUnixNanoseconds 2000" by code_simp
  ultimately show ?thesis
    using commit_then_restore [OF reachable_claimed _ demo_evaluated, of 2000]
    by (simp add: claim_demo_def commit_demo_def evaluation_demo_def spec_demo_def)
qed

section \<open>A collation that does not order bytes\<close>











end
