(* ===== verification/Publisher.thy ===== *)
theory Publisher
  imports Store_Outbox
begin

text \<open>
  The Registry publisher of \<^verbatim>\<open>internal/projection/registry/publisher.go\<close>. The Registry is the
  parameter \<open>client\<close>, from the summary sent to an error message or a response. The constants
  of the generated protocol package are represented by the domain value they stand for;
  \<open>Unspecified\<close> is the zero constant that a lookup in one of the translation maps gives for a
  value that is not a key.
\<close>

record publisher_config =
  pc_WorkerID :: string
  pc_PollInterval :: duration
  pc_RequestTimeout :: duration
  pc_LeaseDuration :: duration
  pc_RetryDelay :: duration
  pc_BatchSize :: int

definition publisher_New :: "bool \<Rightarrow> bool \<Rightarrow> bool \<Rightarrow> publisher_config \<Rightarrow> unit + publisher_config" where
  "publisher_New has_store has_client has_log config =
     (if \<not> has_store \<or> \<not> has_client \<or> \<not> has_log \<or> pc_WorkerID config = [] \<or> pc_PollInterval config \<le> 0 \<or>
         pc_RequestTimeout config \<le> 0 \<or> pc_LeaseDuration config \<le> pc_RequestTimeout config \<or>
         pc_RetryDelay config \<le> 0 \<or> pc_BatchSize config < 1
      then Inl () else Inr config)"

section \<open>The summary on the wire\<close>

datatype 'a proto = Unspecified | Proto 'a

record violation_summary =
  vs_ViolationType :: "violation_type proto"
  vs_Phase :: "incident_phase proto"
  vs_OpeningFrameId :: string
  vs_OpenedAt :: "gotime option"
  vs_LastObservedAt :: "gotime option"
  vs_WorstDeviationM :: f64

record summary =
  sp_AssignmentId :: string
  sp_AssignmentGeneration :: nat
  sp_EvaluationRevision :: nat
  sp_EvaluationId :: string
  sp_OperatorId :: string
  sp_AircraftId :: string
  sp_FlightId :: string
  sp_IntentId :: string
  sp_IntentVersion :: nat
  sp_Condition :: "condition proto"
  sp_MonitoringStatus :: "monitoring_status proto"
  sp_RecordingStatus :: "recording_status proto"
  sp_ObservedAt :: gotime
  sp_FrameId :: string
  sp_Violations :: "violation_summary list"

definition phaseToProto :: "incident_phase \<Rightarrow> incident_phase proto" where
  "phaseToProto p = (if p = PhaseUnset then Unspecified else Proto p)"

definition optionalTime :: "gotime \<Rightarrow> gotime option" where
  "optionalTime t = (if IsZero t then None else Some t)"

text \<open>The keys of the violations map, sorted by their names.\<close>

definition sorted_violations :: "evaluator_state \<Rightarrow> violation_type list" where
  "sorted_violations s =
     sort_key violation_name (filter (\<lambda>v. Violations s v \<noteq> None) violation_types)"

definition violation_to_proto :: "evaluator_state \<Rightarrow> violation_type \<Rightarrow> violation_summary" where
  "violation_to_proto s v =
     (let st = state_of (Violations s) v in
      \<lparr>vs_ViolationType = Proto v, vs_Phase = phaseToProto (is_Phase st),
       vs_OpeningFrameId = is_OpeningFrameID st, vs_OpenedAt = optionalTime (is_OpenedAt st),
       vs_LastObservedAt = optionalTime (is_LastObservedAt st), vs_WorstDeviationM = is_WorstDeviationM st\<rparr>)"

definition summaryToProto :: "outbox_claim \<Rightarrow> summary" where
  "summaryToProto c =
     (let a = oc_Assignment c in
      \<lparr>sp_AssignmentId = asg_ID a, sp_AssignmentGeneration = asg_Generation a,
       sp_EvaluationRevision = oc_EvaluationRevision c, sp_EvaluationId = oc_IdempotencyKey c,
       sp_OperatorId = asg_OperatorID a, sp_AircraftId = asg_AircraftID a, sp_FlightId = asg_FlightID a,
       sp_IntentId = asg_IntentID a, sp_IntentVersion = asg_IntentVersion a,
       sp_Condition = (case oc_Evaluation c of None \<Rightarrow> Unspecified | Some e \<Rightarrow> Proto (ev_Condition e)),
       sp_MonitoringStatus = (case oc_Evaluation c of None \<Rightarrow> Unspecified | Some e \<Rightarrow> Proto (ev_Monitoring e)),
       sp_RecordingStatus = (case oc_Evaluation c of None \<Rightarrow> Unspecified | Some e \<Rightarrow> Proto (ev_Recording e)),
       sp_ObservedAt = (case oc_Evaluation c of None \<Rightarrow> zero_time | Some e \<Rightarrow> ev_ObservedAt e),
       sp_FrameId = (case oc_Evaluation c of None \<Rightarrow> [] | Some e \<Rightarrow> ev_FrameID e),
       sp_Violations = (case oc_Evaluation c of None \<Rightarrow> []
          | Some e \<Rightarrow> map (violation_to_proto (ev_State e)) (sorted_violations (ev_State e)))\<rparr>)"

section \<open>Publication\<close>

text \<open>A response holds the accepted summary, unless it, its projection or its summary is absent.\<close>

type_synonym client = "summary \<Rightarrow> string + summary option"

datatype publish_error =
  PublishFailed string string
  | RetryFailed string string store_error
  | CompleteFailed string store_error
  | ClaimFailed store_error

definition ack_omitted :: string where
  "ack_omitted = ''registry acknowledgement omitted the accepted projection''"

definition ack_mismatch :: string where
  "ack_mismatch = ''registry acknowledgement did not match the exact evaluation cursor''"

definition validateAcknowledgement :: "summary \<Rightarrow> summary option \<Rightarrow> string option" where
  "validateAcknowledgement sent response =
     (case response of
        None \<Rightarrow> Some ack_omitted
      | Some accepted \<Rightarrow>
          if sp_AssignmentId accepted \<noteq> sp_AssignmentId sent \<or>
             sp_AssignmentGeneration accepted \<noteq> sp_AssignmentGeneration sent \<or>
             sp_EvaluationRevision accepted \<noteq> sp_EvaluationRevision sent \<or>
             sp_EvaluationId accepted \<noteq> sp_EvaluationId sent
          then Some ack_mismatch else None)"

definition scheduleRetry ::
  "store_env \<Rightarrow> publisher_config \<Rightarrow> gotime \<Rightarrow> outbox_claim \<Rightarrow> string \<Rightarrow> db \<Rightarrow> publish_error option \<times> db" where
  "scheduleRetry E cfg now c deliveryErr d =
     (case RetryOutbox E now c (pc_RetryDelay cfg) (Some deliveryErr) d of
        Inl e \<Rightarrow> (Some (RetryFailed (oc_ID c) deliveryErr e), d)
      | Inr d' \<Rightarrow> (Some (PublishFailed (oc_ID c) deliveryErr), d'))"

text \<open>\<open>now\<close> is the database clock when the outcome of the request is recorded.\<close>

definition publish ::
  "store_env \<Rightarrow> publisher_config \<Rightarrow> client \<Rightarrow> gotime \<Rightarrow> outbox_claim \<Rightarrow> db \<Rightarrow> publish_error option \<times> db" where
  "publish E cfg client now c d =
     (let sent = summaryToProto c in
      case client sent of
        Inl e \<Rightarrow> scheduleRetry E cfg now c e d
      | Inr response \<Rightarrow>
          (case validateAcknowledgement sent response of
             Some e \<Rightarrow> scheduleRetry E cfg now c e d
           | None \<Rightarrow>
              (case MarkOutboxDelivered now c d of
                 Inl e \<Rightarrow> (Some (CompleteFailed (oc_ID c) e), d)
               | Inr d' \<Rightarrow> (None, d'))))"

fun publish_all ::
  "store_env \<Rightarrow> publisher_config \<Rightarrow> client \<Rightarrow> (outbox_claim \<times> gotime \<times> (db \<Rightarrow> db)) list \<Rightarrow> db \<Rightarrow> publish_error list \<times> db" where
  "publish_all E cfg client [] d = ([], d)"
| "publish_all E cfg client ((c, now, others) # runs) d =
     (let (res, d1) = publish E cfg client now c (others d); (errs, d2) = publish_all E cfg client runs d1 in
      (case res of None \<Rightarrow> errs | Some e \<Rightarrow> e # errs, d2))"

text \<open>
  The claims are published concurrently; \<open>schedule\<close> lists them in the order in which their
  outcomes are recorded, each with the database clock of that moment and the effect of the
  transactions that other processes have committed since the previous outcome.
\<close>

definition Flush ::
  "store_env \<Rightarrow> publisher_config \<Rightarrow> client \<Rightarrow> gotime \<Rightarrow> (outbox_row \<Rightarrow> bool) \<Rightarrow>
   (outbox_claim list \<Rightarrow> (outbox_claim \<times> gotime \<times> (db \<Rightarrow> db)) list) \<Rightarrow> db \<Rightarrow> nat \<times> publish_error list \<times> db" where
  "Flush E cfg client now locked schedule d =
     (case ClaimOutbox E now locked ''registry'' (pc_WorkerID cfg) (pc_LeaseDuration cfg) (pc_BatchSize cfg) d of
        Inl e \<Rightarrow> (0, [ClaimFailed e], d)
      | Inr (claims, d1) \<Rightarrow>
          (let (errs, d2) = publish_all E cfg client (schedule claims) d1 in (length claims, errs, d2)))"

text \<open>
  The loop: one flush per iteration until the context ends, whatever the flushes report. It is
  run over the iterations that take place; the flag says whether it has returned.
\<close>

fun publisher_Run :: "((db \<Rightarrow> nat \<times> publish_error list \<times> db) \<times> bool) list \<Rightarrow> db \<Rightarrow> bool \<times> db" where
  "publisher_Run [] d = (False, d)"
| "publisher_Run ((flush, stopped) # ts) d =
     (if stopped then (True, d) else publisher_Run ts (snd (snd (flush d))))"

end
