(* ===== verification/Delivery.thy ===== *)
theory Delivery
  imports Store_Evidence Publisher
begin

text \<open>
  Delivery to the Registry: messages of one assignment go out in the order of their cursors, a
  delivery lease that was overtaken can no longer record an outcome (the second use of the
  fencing contract), and the publisher records a delivery only after an acknowledgement of the
  exact cursor.
\<close>

section \<open>Order\<close>

text \<open>
  C7: In-order delivery. In every reachable store, once a Registry message of an assignment is
  delivered, or only leased for delivery, every message of that assignment with an earlier
  generation or an earlier revision has been delivered before, whatever retries, lease losses,
  cutovers and concurrent publishers there were.
\<close>

theorem registry_delivery_in_order:
  assumes "reachable E d" "r \<in> set (outbox d)" "s \<in> set (outbox d)"
    and "ob_destination r = ''registry''" "ob_destination s = ''registry''" "ob_aid s = ob_aid r"
    and "ob_gen s < ob_gen r \<or> (ob_gen s = ob_gen r \<and> ob_rev s < ob_rev r)"
    and "ob_delivered_at r \<noteq> None \<or> ob_lease_owner r \<noteq> None"
  shows "ob_delivered_at s \<noteq> None"
proof -
  have "registry_pair s r" using assms(4-7) by (simp add: registry_pair_def cursor_before_def)
  then show ?thesis using reachable_line_order [OF assms(1)] assms(2,3,8) unfolding line_order_def by blast
qed

text \<open>The demonstration continued: two revisions are queued, the first is delivered, the second leased.\<close>

definition db_second :: db where
  "db_second = projr (CommitEvaluation store_env_demo 5030 (claim_demo 1 2 1) (commit_demo 1600 ''B'' 2)
     (snd (ClaimDueAssignmentsWithFinalizationGrace store_env_demo 5020 (\<lambda>_. False) ''w'' 100 0 10 db_evaluated)))"

abbreviation claim_registry_demo :: "gotime \<Rightarrow> db \<Rightarrow> store_error + outbox_claim list \<times> db" where
  "claim_registry_demo t \<equiv> ClaimOutbox store_env_demo t (\<lambda>_. False) ''registry'' ''p'' 100 10"

definition db_leased :: db where
  "db_leased = after (claim_registry_demo 6000 db_second)"

definition first_delivery :: outbox_claim where
  "first_delivery = hd (fst (projr (claim_registry_demo 6000 db_second)))"

definition db_delivered :: db where
  "db_delivered = projr (MarkOutboxDelivered 6050 first_delivery db_leased)"

definition db_next :: db where
  "db_next = after (claim_registry_demo 6060 db_delivered)"

lemma projr_Inr_eq: "\<not> isl m \<Longrightarrow> m = Inr (projr m)"
  by (cases m) auto

lemma reachable_second: "reachable store_env_demo db_second"
proof -
  let ?d = "snd (ClaimDueAssignmentsWithFinalizationGrace store_env_demo 5020 (\<lambda>_. False) ''w'' 100 0 10 db_evaluated)"
  have r: "reachable store_env_demo ?d"
    by (rule reachable.step [OF reachable_evaluated]) (rule store_step.claim_due, rule surjective_pairing)
  have "\<not> isl (CommitEvaluation store_env_demo 5030 (claim_demo 1 2 1) (commit_demo 1600 ''B'' 2) ?d)" by code_simp
  from reachable.step [OF r store_step.commit [OF projr_Inr_eq [OF this]]] show ?thesis by (simp add: db_second_def)
qed

lemma reachable_leased: "reachable store_env_demo db_leased"
proof -
  have "\<not> isl (claim_registry_demo 6000 db_second)" by code_simp
  from reachable.step [OF reachable_second store_step.claim_outbox [OF after_Inr [OF this]]]
  show ?thesis by (simp add: db_leased_def)
qed

lemma reachable_next: "reachable store_env_demo db_next"
proof -
  have 1: "\<not> isl (MarkOutboxDelivered 6050 first_delivery db_leased)" by code_simp
  have 2: "\<not> isl (claim_registry_demo 6060 db_delivered)" by code_simp
  have "reachable store_env_demo db_delivered" unfolding db_delivered_def
    by (rule reachable.step [OF reachable_leased]) (rule store_step.delivered [OF projr_Inr_eq [OF 1]])
  from reachable.step [OF this store_step.claim_outbox [OF after_Inr [OF 2]]] show ?thesis by (simp add: db_next_def)
qed

theorem registry_delivery_in_order_witness:
  "\<exists>r\<in>set (outbox db_next). \<exists>s\<in>set (outbox db_next). ob_rev s < ob_rev r \<and> ob_lease_owner r \<noteq> None \<and>
     ob_delivered_at s \<noteq> None"
proof -
  let ?rows = "filter (\<lambda>r. ob_destination r = ''registry'') (outbox db_next)"
  have "map (\<lambda>r. (ob_aid r, ob_gen r, ob_rev r, ob_lease_owner r)) ?rows = [(''A'', 1, 1, None), (''A'', 1, 2, Some ''p'')]"
    by code_simp
  then obtain s r where rows: "?rows = [s, r]" and sr: "ob_aid s = ''A''" "ob_aid r = ''A''" "ob_gen s = 1" "ob_gen r = 1"
    "ob_rev s = 1" "ob_rev r = 2" "ob_lease_owner r = Some ''p''"
    by (auto simp: map_eq_Cons_conv)
  have "s \<in> set ?rows" "r \<in> set ?rows" unfolding rows by auto
  then have mem: "s \<in> set (outbox db_next)" "r \<in> set (outbox db_next)" "ob_destination s = ''registry''" "ob_destination r = ''registry''"
    by simp_all
  have "ob_delivered_at s \<noteq> None"
    by (rule registry_delivery_in_order [OF reachable_next mem(2,1,4,3)]) (use sr in simp_all)
  then show ?thesis using mem(1,2) sr by (intro bexI [of _ r] bexI [of _ s] conjI) simp_all
qed

section \<open>Delivery leases\<close>

definition find_outbox :: "string \<Rightarrow> db \<Rightarrow> outbox_row option" where
  "find_outbox oid d = List.find (\<lambda>r. ob_id r = oid) (outbox d)"

definition outbox_lease_of :: "db \<Rightarrow> string \<Rightarrow> nat option" where
  "outbox_lease_of d oid = map_option ob_lease_generation (find_outbox oid d)"

definition delivery_inv :: "store_env \<Rightarrow> db \<Rightarrow> bool" where
  "delivery_inv E d \<longleftrightarrow> store_inv d \<and> ledger_inv E d"

lemma find_outbox_mem:
  assumes "ledger_inv E d" "r \<in> set (outbox d)"
  shows "find_outbox (ob_id r) d = Some r"
  unfolding find_outbox_def
proof (rule find_unique)
  fix s assume s: "s \<in> set (outbox d)" "ob_id s = ob_id r"
  have "inj_on ob_id (set (outbox d))" using assms(1) by (simp add: ledger_inv_def outbox_ok_def distinct_map)
  then show "s = r" using s assms(2) by (auto dest: inj_onD)
qed (use assms in auto)

lemma delivery_lease_mono:
  assumes inv: "delivery_inv E d" and step: "store_step E d d'" and n: "outbox_lease_of d oid = Some n"
  shows "\<exists>m. outbox_lease_of d' oid = Some m \<and> n \<le> m"
proof -
  from n obtain r where r: "find_outbox oid d = Some r" "n = ob_lease_generation r" by (auto simp: outbox_lease_of_def)
  have mem: "r \<in> set (outbox d)" "ob_id r = oid" using find_Some_iff_mem [of _ "outbox d" r] r(1) by (auto simp: find_outbox_def)
  have led: "ledger_inv E d" and sinv: "store_inv d" using inv by (auto simp: delivery_inv_def)
  have "ledger_step E d d'" using store_step_ledger [OF step sinv] led by (simp add: ledger_inv_def)
  then obtain f new where f: "outbox d' = map f (outbox d) @ new" "\<forall>r\<in>set (outbox d). outbox_move (outbox d) r (f r)"
    by (auto simp: ledger_step_def outbox_evolves_def)
  have fr: "f r \<in> set (outbox d')" "ob_id (f r) = oid" "ob_lease_generation r \<le> ob_lease_generation (f r)"
    using f mem by (auto simp: outbox_move_def outbox_row_step_def)
  have "find_outbox oid d' = Some (f r)"
    using find_outbox_mem [OF ledger_inv_step [OF step sinv led] fr(1)] fr(2) by simp
  then show ?thesis using fr(3) r(2) by (simp add: outbox_lease_of_def)
qed

definition outcome_recorded :: "store_env \<Rightarrow> outbox_claim \<Rightarrow> db \<Rightarrow> bool" where
  "outcome_recorded E c d \<longleftrightarrow>
     (\<exists>now d'. MarkOutboxDelivered now c d = Inr d') \<or> (\<exists>now delay err d'. RetryOutbox E now c delay err d = Inr d')"

lemma outcome_fenced:
  assumes "delivery_inv E d" "outcome_recorded E c d"
  shows "outbox_lease_of d (oc_ID c) = Some (oc_LeaseGeneration c)"
proof -
  have "\<exists>now r. r \<in> set (outbox d) \<and> outbox_fence now c r"
    using assms(2) unfolding outcome_recorded_def MarkOutboxDelivered_def RetryOutbox_def
    by (auto simp: monad_splits stmt split: option.splits dest!: rows_affected_ex)
  then obtain now r where r: "r \<in> set (outbox d)" "outbox_fence now c r" by blast
  then have "find_outbox (oc_ID c) d = Some r"
    using find_outbox_mem [of E d r] assms(1) by (simp add: delivery_inv_def outbox_fence_def)
  then show ?thesis using r(2) by (simp add: outbox_lease_of_def outbox_fence_def)
qed

interpretation delivery_lease: fenced_operation "store_step E" "delivery_inv E" outbox_lease_of
    "outcome_recorded E" oc_ID oc_LeaseGeneration for E
proof
  show "delivery_inv E d'" if "delivery_inv E d" "store_step E d d'" for d d'
    using that ledger_inv_step store_step_inv by (auto simp: delivery_inv_def)
qed (rule delivery_lease_mono outcome_fenced, assumption+)+

text \<open>
  C24: Overtaken deliveries. Once another publisher has claimed a message under a newer lease
  generation, the publisher that held it before can neither mark it delivered nor reschedule it,
  at no later time and after no sequence of operations.
\<close>

theorem overtaken_delivery_is_fenced:
  assumes "reachable E d" "(store_step E)\<^sup>*\<^sup>* d d'" "find_outbox (oc_ID c) d = Some r"
    and "oc_LeaseGeneration c < ob_lease_generation r"
  shows "MarkOutboxDelivered now c d' \<noteq> Inr d1 \<and> RetryOutbox E now c delay err d' \<noteq> Inr d1"
proof -
  have inv: "delivery_inv E d"
    using reachable_store_inv [OF assms(1)] reachable_ledger_inv [OF assms(1)] by (simp add: delivery_inv_def)
  have gen: "outbox_lease_of d (oc_ID c) = Some (ob_lease_generation r)" using assms(3) by (simp add: outbox_lease_of_def)
  have "\<not> outcome_recorded E c d'"
    by (rule delivery_lease.overtaken_never_succeeds [OF inv gen assms(4,2)])
  then show ?thesis unfolding outcome_recorded_def by blast
qed

theorem overtaken_delivery_is_fenced_witness:
  "MarkOutboxDelivered 6080 (first_delivery\<lparr>oc_LeaseGeneration := 0\<rparr>) db_leased \<noteq> Inr db_leased"
proof -
  let ?c = "first_delivery\<lparr>oc_LeaseGeneration := 0\<rparr>"
  have "map_option ob_lease_generation (find_outbox (oc_ID ?c) db_leased) = Some 1" by code_simp
  then obtain r where r: "find_outbox (oc_ID ?c) db_leased = Some r" "ob_lease_generation r = 1" by auto
  then have "oc_LeaseGeneration ?c < ob_lease_generation r" by simp
  from overtaken_delivery_is_fenced [OF reachable_leased rtranclp.rtrancl_refl r(1) this] show ?thesis by blast
qed

section \<open>Acknowledgements\<close>

definition acknowledged :: "client \<Rightarrow> outbox_claim \<Rightarrow> bool" where
  "acknowledged client c \<longleftrightarrow>
     (\<exists>accepted. client (summaryToProto c) = Inr (Some accepted) \<and>
        sp_AssignmentId accepted = asg_ID (oc_Assignment c) \<and>
        sp_AssignmentGeneration accepted = asg_Generation (oc_Assignment c) \<and>
        sp_EvaluationRevision accepted = oc_EvaluationRevision c \<and>
        sp_EvaluationId accepted = oc_IdempotencyKey c)"

lemma validate_acknowledged:
  "(\<exists>resp. client (summaryToProto c) = Inr resp \<and> validateAcknowledgement (summaryToProto c) resp = None) \<longleftrightarrow>
   acknowledged client c"
  by (auto simp: acknowledged_def validateAcknowledgement_def summaryToProto_def Let_def split: option.splits if_splits)

lemma publish_acknowledged:
  assumes "acknowledged client c"
  shows "publish E cfg client now c d =
    (case MarkOutboxDelivered now c d of Inl e \<Rightarrow> (Some (CompleteFailed (oc_ID c) e), d) | Inr d' \<Rightarrow> (None, d'))"
proof -
  obtain resp where "client (summaryToProto c) = Inr resp" "validateAcknowledgement (summaryToProto c) resp = None"
    using assms unfolding validate_acknowledged [symmetric] by blast
  then show ?thesis by (simp add: publish_def Let_def)
qed

lemma publish_refused:
  assumes "\<not> acknowledged client c"
  shows "\<exists>e. publish E cfg client now c d = scheduleRetry E cfg now c e d"
proof (cases "client (summaryToProto c)")
  case (Inl e)
  then show ?thesis by (auto simp: publish_def Let_def)
next
  case (Inr resp)
  then have "validateAcknowledgement (summaryToProto c) resp \<noteq> None"
    using assms validate_acknowledged [of client c] by auto
  with Inr show ?thesis by (auto simp: publish_def Let_def)
qed

text \<open>
  C23: Acknowledged delivery. An attempt to publish succeeds exactly when the Registry answered
  with the exact assignment, generation, revision and evaluation identifier of the claim and the
  delivery lease still held. Otherwise no message becomes delivered, and while the lease holds
  the message is released for another attempt after the retry delay.
\<close>

theorem delivered_only_acknowledged:
  assumes "publish E cfg client now c d = (res, d')" "0 < pc_RetryDelay cfg"
  shows "(res = None \<longleftrightarrow> acknowledged client c \<and> rows_affected (outbox_fence now c) (outbox d) = 1) \<and>
    (res \<noteq> None \<longrightarrow> (\<forall>r\<in>set (outbox d'). ob_delivered_at r \<noteq> None \<longrightarrow> r \<in> set (outbox d))) \<and>
    (\<not> acknowledged client c \<and> rows_affected (outbox_fence now c) (outbox d) = 1 \<longrightarrow>
       (\<exists>r\<in>set (outbox d'). ob_id r = oc_ID c \<and> ob_delivered_at r = None \<and> ob_lease_owner r = None \<and>
          ob_next_attempt_at r = now + pg_interval E (pc_RetryDelay cfg)))"
proof (cases "acknowledged client c")
  case True
  then show ?thesis using assms(1) unfolding publish_acknowledged [OF True]
    by (auto simp: MarkOutboxDelivered_def fenced_outbox_update_def split: if_splits)
next
  case False
  from publish_refused [OF False] obtain e where e: "publish E cfg client now c d = scheduleRetry E cfg now c e d" by blast
  show ?thesis
  proof (cases "rows_affected (outbox_fence now c) (outbox d) = 1")
    case held: True
    let ?f = "\<lambda>r. r\<lparr>ob_next_attempt_at := now + pg_interval E (pc_RetryDelay cfg), ob_lease_owner := None,
        ob_lease_until := None, ob_last_error := Some (take 2048 e)\<rparr>"
    have d': "res = Some (PublishFailed (oc_ID c) e)" "outbox d' = update_where (outbox_fence now c) ?f (outbox d)"
      using assms e held by (auto simp: scheduleRetry_def RetryOutbox_def fenced_outbox_update_def)
    obtain r where r: "r \<in> set (outbox d)" "outbox_fence now c r"
      using held rows_affected_ex by (metis One_nat_def)
    have "?f r \<in> set (outbox d')" using r d'(2) by (auto simp: update_where_def)
    moreover have "ob_id (?f r) = oc_ID c \<and> ob_delivered_at (?f r) = None" using r(2) by (simp add: outbox_fence_def)
    moreover have "r' \<in> set (outbox d)" if "r' \<in> set (outbox d')" "ob_delivered_at r' \<noteq> None" for r'
      using that d'(2) by (auto simp: outbox_fence_def)
    ultimately show ?thesis using False d'(1) by (auto intro!: bexI [of _ "?f r"])
  next
    case False
    then show ?thesis using assms e \<open>\<not> acknowledged client c\<close>
      by (auto simp: scheduleRetry_def RetryOutbox_def fenced_outbox_update_def)
  qed
qed

definition publisher_demo :: publisher_config where
  "publisher_demo = \<lparr>pc_WorkerID = ''p'', pc_PollInterval = 10, pc_RequestTimeout = 30, pc_LeaseDuration = 100,
     pc_RetryDelay = 50, pc_BatchSize = 10\<rparr>"

theorem delivered_only_acknowledged_witness:
  "\<exists>d'. publish store_env_demo publisher_demo (\<lambda>s. Inr (Some s)) 6050 first_delivery db_leased = (None, d') \<and>
     fst (publish store_env_demo publisher_demo (\<lambda>s. Inr None) 6050 first_delivery db_leased) \<noteq> None"
proof -
  have held: "rows_affected (outbox_fence 6050 first_delivery) (outbox db_leased) = 1" by code_simp
  have ack: "acknowledged (\<lambda>s. Inr (Some s)) first_delivery" "\<not> acknowledged (\<lambda>s. Inr None) first_delivery"
    by (simp_all add: acknowledged_def summaryToProto_def Let_def)
  have delay: "0 < pc_RetryDelay publisher_demo" by (simp add: publisher_demo_def)
  obtain res1 d1 where p1: "publish store_env_demo publisher_demo (\<lambda>s. Inr (Some s)) 6050 first_delivery db_leased = (res1, d1)"
    by (rule prod.exhaust)
  obtain res2 d2 where p2: "publish store_env_demo publisher_demo (\<lambda>s. Inr None) 6050 first_delivery db_leased = (res2, d2)"
    by (rule prod.exhaust)
  have "res1 = None" "res2 \<noteq> None"
    using delivered_only_acknowledged [OF p1 delay] delivered_only_acknowledged [OF p2 delay] ack held by blast+
  then show ?thesis using p1 p2 by simp
qed

end
