(* ===== verification/History.thy ===== *)
theory History
  imports Store_Schema
begin

text \<open>
  The history reads of \<^verbatim>\<open>internal/store/postgres/history.go\<close>: validation of a query and of
  its continuation token, the keyset query over the event table, and the planned bounds of an
  assignment. The token is unpadded URL-safe base64, modelled byte by byte, around the JSON of
  a cursor; the JSON encoder and decoder of that struct are the parameter \<open>cursor_codec\<close>.
\<close>

section \<open>Unpadded URL-safe base64\<close>

definition b64_alphabet :: string where
  "b64_alphabet = ''ABCDEFGHIJKLMNOPQRSTUVWXYZabcdefghijklmnopqrstuvwxyz0123456789-_''"

definition b64_char :: "nat \<Rightarrow> char" where
  "b64_char n = b64_alphabet ! n"

definition b64_digit :: "char \<Rightarrow> nat option" where
  "b64_digit c = List.find (\<lambda>n. b64_char n = c) [0..<64]"

fun b64_split :: "nat list \<Rightarrow> nat list" where
  "b64_split [] = []"
| "b64_split [a] = [a div 4, a mod 4 * 16]"
| "b64_split [a, b] = [a div 4, a mod 4 * 16 + b div 16, b mod 16 * 4]"
| "b64_split (a # b # c # rest) =
     a div 4 # (a mod 4 * 16 + b div 16) # (b mod 16 * 4 + c div 64) # c mod 64 # b64_split rest"

text \<open>The decoder is not strict: the spare bits of a last partial group are dropped.\<close>

fun b64_join :: "nat list \<Rightarrow> nat list option" where
  "b64_join [] = Some []"
| "b64_join [w] = None"
| "b64_join [w, x] = Some [w * 4 + x div 16]"
| "b64_join [w, x, y] = Some [w * 4 + x div 16, x mod 16 * 16 + y div 4]"
| "b64_join (w # x # y # z # rest) =
     map_option (\<lambda>bs. (w * 4 + x div 16) # (x mod 16 * 16 + y div 4) # (y mod 4 * 64 + z) # bs) (b64_join rest)"

definition EncodeToString :: "string \<Rightarrow> string" where
  "EncodeToString s = map b64_char (b64_split (map of_char s))"

text \<open>Line breaks between the digits are skipped; any other foreign byte is an error.\<close>

definition DecodeString :: "string \<Rightarrow> string option" where
  "DecodeString s =
     (let digits = map b64_digit (filter (\<lambda>c. c \<noteq> CHR 0x0A \<and> c \<noteq> CHR 0x0D) s) in
      if list_all (\<lambda>n. n \<noteq> None) digits
      then map_option (map char_of) (b64_join (map the digits)) else None)"

section \<open>Queries and cursors\<close>

record history_query =
  hq_AssignmentID :: string
  hq_Generation :: nat
  hq_From :: "gotime option"
  hq_Until :: "gotime option"
  hq_PageSize :: int
  hq_PageToken :: string

record history_event =
  he_ID :: string
  he_AssignmentID :: string
  he_IntentID :: string
  he_AircraftID :: string
  he_FlightID :: string
  he_IncidentID :: string
  he_Generation :: nat
  he_IntentVersion :: nat
  he_Transition :: string
  he_ViolationType :: string
  he_FrameID :: string
  he_ObservedAt :: gotime
  he_DeviationM :: "f64 option"
  he_EvaluationRevision :: nat
  he_PlannedStartAt :: "gotime option"
  he_PlannedEndAt :: "gotime option"

record history_page =
  hp_Events :: "history_event list"
  hp_NextPageToken :: string

record history_cursor =
  hc_Version :: int
  hc_AssignmentID :: string
  hc_Generation :: nat
  hc_From :: "gotime option"
  hc_Until :: "gotime option"
  hc_At :: gotime
  hc_ID :: string

record cursor_codec =
  cursor_marshal :: "history_cursor \<Rightarrow> string"
  cursor_unmarshal :: "string \<Rightarrow> history_cursor option"

datatype history_error = ErrInvalidHistoryQuery | CursorEncodeFailed

definition sameHistoryTime :: "gotime option \<Rightarrow> gotime option \<Rightarrow> bool" where
  "sameHistoryTime a b =
     (case (a, b) of (Some s, Some t) \<Rightarrow> s = t | (None, None) \<Rightarrow> True | _ \<Rightarrow> False)"

definition cursor_continues :: "history_query \<Rightarrow> history_cursor \<Rightarrow> bool" where
  "cursor_continues q c \<longleftrightarrow>
     \<not> (hc_Version c \<noteq> 1 \<or> hc_AssignmentID c \<noteq> hq_AssignmentID q \<or> hc_Generation c \<noteq> hq_Generation q \<or>
        \<not> sameHistoryTime (hc_From c) (hq_From q) \<or> \<not> sameHistoryTime (hc_Until c) (hq_Until q) \<or>
        IsZero (hc_At c) \<or> hc_ID c = [] \<or> 1024 < length (hc_ID c))"

definition query_valid :: "history_query \<Rightarrow> bool" where
  "query_valid q \<longleftrightarrow>
     \<not> (blank (hq_AssignmentID q) \<or> 512 < length (hq_AssignmentID q) \<or> MaxInt64 < hq_Generation q \<or>
        hq_PageSize q < 0 \<or> 200 < hq_PageSize q \<or> 4096 < length (hq_PageToken q)) \<and>
     (case (hq_From q, hq_Until q) of (Some f, Some u) \<Rightarrow> f < u | _ \<Rightarrow> True)"

definition page_size :: "history_query \<Rightarrow> nat" where
  "page_size q = (if hq_PageSize q = 0 then 50 else nat (hq_PageSize q))"

definition historyBounds :: "cursor_codec \<Rightarrow> history_query \<Rightarrow> history_error + nat \<times> history_cursor option" where
  "historyBounds K q =
     ebind (ensure (query_valid q) ErrInvalidHistoryQuery) (\<lambda>_.
     if hq_PageToken q = [] then Inr (page_size q, None)
     else
       case Option.bind (DecodeString (hq_PageToken q)) (cursor_unmarshal K) of
         None \<Rightarrow> Inl ErrInvalidHistoryQuery
       | Some c \<Rightarrow>
           if cursor_continues q c then Inr (page_size q, Some c) else Inl ErrInvalidHistoryQuery)"

section \<open>The keyset query\<close>

definition event_key :: "event_row \<Rightarrow> gotime \<times> string" where
  "event_key e = (evt_observed_at e, evt_id e)"

text \<open>The row comparison \<^verbatim>\<open>(observed_at, event_id) < (..., ...)\<close> under the text collation.\<close>

definition key_less :: "store_env \<Rightarrow> gotime \<times> string \<Rightarrow> gotime \<times> string \<Rightarrow> bool" where
  "key_less E k l \<longleftrightarrow> fst k < fst l \<or> (fst k = fst l \<and> text_less E (snd k) (snd l))"

definition selected :: "store_env \<Rightarrow> history_query \<Rightarrow> event_row \<Rightarrow> bool" where
  "selected E q e \<longleftrightarrow>
     evt_aid e = hq_AssignmentID q \<and> (hq_Generation q = 0 \<or> evt_gen e = hq_Generation q) \<and>
     (case hq_From q of None \<Rightarrow> True | Some f \<Rightarrow> timestamptz E f \<le> evt_observed_at e) \<and>
     (case hq_Until q of None \<Rightarrow> True | Some u \<Rightarrow> evt_observed_at e < timestamptz E u)"

definition after_cursor :: "store_env \<Rightarrow> history_cursor option \<Rightarrow> event_row \<Rightarrow> bool" where
  "after_cursor E cursor e \<longleftrightarrow>
     (case cursor of None \<Rightarrow> True
      | Some c \<Rightarrow> key_less E (event_key e) (timestamptz E (hc_At c), hc_ID c))"

definition joined :: "db \<Rightarrow> event_row \<Rightarrow> (event_row \<times> assignment_row) list" where
  "joined d e = map (Pair e) (filter (\<lambda>a. row_key a = (evt_aid e, evt_gen e)) (assignments d))"

definition newer_event :: "store_env \<Rightarrow> event_row \<times> assignment_row \<Rightarrow> event_row \<times> assignment_row \<Rightarrow> bool" where
  "newer_event E r s \<longleftrightarrow> key_less E (event_key (fst s)) (event_key (fst r))"

definition history_rows ::
  "store_env \<Rightarrow> history_query \<Rightarrow> history_cursor option \<Rightarrow> db \<Rightarrow> (event_row \<times> assignment_row) list" where
  "history_rows E q cursor d =
     sort_by (newer_event E) (concat (map (joined d) (filter (\<lambda>e. selected E q e \<and> after_cursor E cursor e) (events d))))"

fun plan_bounds :: "volume list \<Rightarrow> gotime \<Rightarrow> gotime \<Rightarrow> (gotime \<times> gotime) option" where
  "plan_bounds [] start end' = Some (start, end')"
| "plan_bounds (v # vs) start end' =
     (if IsZero (vol_StartsAt v) \<or> IsZero (vol_EndsAt v) \<or> \<not> vol_StartsAt v < vol_EndsAt v then None
      else plan_bounds vs
        (if vol_StartsAt v < start then vol_StartsAt v else start)
        (if end' < vol_EndsAt v then vol_EndsAt v else end'))"

definition historyPlanBounds :: "volume list \<Rightarrow> (gotime \<times> gotime) option" where
  "historyPlanBounds vs =
     (case vs of [] \<Rightarrow> None | v # _ \<Rightarrow> plan_bounds vs (vol_StartsAt v) (vol_EndsAt v))"

definition history_event_of :: "event_row \<times> assignment_row \<Rightarrow> history_event" where
  "history_event_of r =
     (let e = fst r; a = snd r; bounds = historyPlanBounds (asg_Volumes (ar_spec a));
          kind = violation_name (evt_violation e) in
      \<lparr>he_ID = evt_id e, he_AssignmentID = evt_aid e, he_IntentID = ar_intent a, he_AircraftID = ar_aircraft a,
       he_FlightID = ar_flight a, he_IncidentID = evt_incident e, he_Generation = evt_gen e,
       he_IntentVersion = ar_intent_version a, he_Transition = transition_name (evt_transition e),
       he_ViolationType = kind, he_FrameID = evt_frame e, he_ObservedAt = evt_observed_at e,
       he_DeviationM = (if kind = ''lateral_deviation'' \<or> kind = ''altitude_deviation''
                        then Some (evt_deviation e) else None),
       he_EvaluationRevision = evt_rev e, he_PlannedStartAt = map_option fst bounds,
       he_PlannedEndAt = map_option snd bounds\<rparr>)"

definition next_cursor :: "history_query \<Rightarrow> history_event \<Rightarrow> history_cursor" where
  "next_cursor q e =
     \<lparr>hc_Version = 1, hc_AssignmentID = hq_AssignmentID q, hc_Generation = hq_Generation q,
      hc_From = hq_From q, hc_Until = hq_Until q, hc_At = he_ObservedAt e, hc_ID = he_ID e\<rparr>"

text \<open>The encoder refuses instants outside the years 0 to 9999.\<close>

definition cursor_encodable :: "history_cursor \<Rightarrow> bool" where
  "cursor_encodable c \<longleftrightarrow>
     json_time (hc_At c) \<and> (case hc_From c of None \<Rightarrow> True | Some t \<Rightarrow> json_time t) \<and>
     (case hc_Until c of None \<Rightarrow> True | Some t \<Rightarrow> json_time t)"

definition ListConformanceEvents ::
  "cursor_codec \<Rightarrow> store_env \<Rightarrow> history_query \<Rightarrow> db \<Rightarrow> history_error + history_page" where
  "ListConformanceEvents K E q d =
     ebind (historyBounds K q) (\<lambda>(size, cursor).
     let found = map history_event_of (take (size + 1) (history_rows E q cursor d)) in
     if size < length found
     then
       (let page = take size found; c = next_cursor q (page ! (size - 1)) in
        ebind (ensure (cursor_encodable c) CursorEncodeFailed) (\<lambda>_.
        Inr \<lparr>hp_Events = page, hp_NextPageToken = EncodeToString (cursor_marshal K c)\<rparr>))
     else Inr \<lparr>hp_Events = found, hp_NextPageToken = []\<rparr>)"

end
