(* ===== verification/Ordering.thy ===== *)
theory Ordering
  imports Worker "HOL-Library.Product_Lexorder"
begin

text \<open>
  What sorting by a comparison gives. A comparison that decides a strict linear order on keys
  is an \<open>ordered_by\<close>; on elements with distinct keys sorting is then determined by the set of
  elements, commutes with filtering, and what follows an element is what the comparison puts
  after it. The comparisons of the reader, of the evaluator and of the worker, written out
  separately in three packages, are three instances over one telemetry cursor.
\<close>

locale ordered_by =
  fixes lt :: "'a \<Rightarrow> 'a \<Rightarrow> bool" and key :: "'a \<Rightarrow> 'k" and key_lt :: "'k \<Rightarrow> 'k \<Rightarrow> bool"
  assumes lt_key: "lt a b \<longleftrightarrow> key_lt (key a) (key b)"
    and key_irrefl: "\<not> key_lt k k"
    and key_trans: "key_lt k l \<Longrightarrow> key_lt l m \<Longrightarrow> key_lt k m"
    and key_total: "k \<noteq> l \<Longrightarrow> key_lt k l \<or> key_lt l k"
begin

lemma lt_irrefl [simp]: "\<not> lt a a"
  by (simp add: lt_key key_irrefl)

lemma lt_trans: "lt a b \<Longrightarrow> lt b c \<Longrightarrow> lt a c"
  unfolding lt_key by (rule key_trans)

lemma lt_asym: "lt a b \<Longrightarrow> \<not> lt b a"
  using lt_trans lt_irrefl by blast

lemma not_lt_trans: "\<not> lt b a \<Longrightarrow> \<not> lt c b \<Longrightarrow> \<not> lt c a"
  unfolding lt_key using key_trans key_total by metis

lemma lt_total: "key a \<noteq> key b \<Longrightarrow> lt a b \<or> lt b a"
  unfolding lt_key by (rule key_total)

text \<open>Whatever the elements, the result never descends.\<close>

lemma insert_by_ascending:
  "sorted_wrt (\<lambda>a b. \<not> lt b a) xs \<Longrightarrow> sorted_wrt (\<lambda>a b. \<not> lt b a) (insert_by lt x xs)"
proof (induction xs)
  case (Cons y ys)
  show ?case
  proof (cases "lt y x")
    case True
    with Cons lt_asym show ?thesis by auto
  next
    case False
    with Cons.prems show ?thesis using not_lt_trans by simp
  qed
qed simp

lemma sort_by_ascending: "sorted_wrt (\<lambda>a b. \<not> lt b a) (sort_by lt xs)"
  by (induction xs) (auto intro: insert_by_ascending)

text \<open>With distinct keys it ascends strictly.\<close>

lemma ascending_strict:
  "sorted_wrt (\<lambda>a b. \<not> lt b a) xs \<Longrightarrow> distinct (map key xs) \<Longrightarrow> sorted_wrt lt xs"
proof (induction xs)
  case (Cons x xs)
  have "lt x y" if "y \<in> set xs" for y
    using Cons.prems that lt_total [of x y] by auto
  with Cons show ?case by simp
qed simp

lemma mset_insert_by: "distinct (map f (insert_by lt x xs)) \<longleftrightarrow> distinct (map f (x # xs))"
  by (induction xs) auto

lemma distinct_map_sort_by [simp]: "distinct (map f (sort_by lt xs)) \<longleftrightarrow> distinct (map f xs)"
  by (induction xs) (simp_all add: mset_insert_by)

lemma sort_by_strict: "distinct (map key xs) \<Longrightarrow> sorted_wrt lt (sort_by lt xs)"
  by (rule ascending_strict [OF sort_by_ascending]) simp

lemma sorted_determined:
  "sorted_wrt lt xs \<Longrightarrow> sorted_wrt lt ys \<Longrightarrow> set xs = set ys \<Longrightarrow> xs = ys"
proof (induction xs arbitrary: ys)
  case (Cons x xs)
  then obtain y ys' where ys: "ys = y # ys'" by (cases ys) auto
  have xy: "x = y"
  proof (rule ccontr)
    assume ne: "x \<noteq> y"
    then have "x \<in> set ys'" "y \<in> set xs" using Cons.prems(3) ys by auto
    then have "lt y x" "lt x y" using Cons.prems(1,2) ys by auto
    then show False using lt_asym by blast
  qed
  have "x \<notin> set xs" "y \<notin> set ys'" using Cons.prems(1,2) ys lt_irrefl by auto
  then have "set xs = set ys'" using Cons.prems(3) ys xy by auto
  with Cons xy ys show ?case by auto
qed simp

lemma sort_by_determined:
  "distinct (map key xs) \<Longrightarrow> sorted_wrt lt ys \<Longrightarrow> set xs = set ys \<Longrightarrow> sort_by lt xs = ys"
  by (rule sorted_determined) (simp_all add: sort_by_strict)

lemma filter_sort_by:
  assumes "distinct (map key xs)"
  shows "filter P (sort_by lt xs) = sort_by lt (filter P xs)"
proof -
  have "sort_by lt (filter P xs) = filter P (sort_by lt xs)"
    by (rule sort_by_determined)
      (use assms sort_by_strict [OF assms] in \<open>auto simp: distinct_map_filter sorted_wrt_filter\<close>)
  then show ?thesis by simp
qed

lemma filter_after:
  assumes "sorted_wrt lt (xs @ x # ys)"
  shows "filter (lt x) (xs @ x # ys) = ys"
proof -
  have "\<not> lt x z" if "z \<in> set xs" for z using assms that lt_asym by (auto simp: sorted_wrt_append)
  moreover have "lt x z" if "z \<in> set ys" for z using assms that by (auto simp: sorted_wrt_append)
  ultimately show ?thesis by (auto simp: filter_empty_conv filter_id_conv)
qed

lemma filter_after_nth:
  assumes "sorted_wrt lt xs" "i < length xs"
  shows "filter (lt (xs ! i)) xs = drop (Suc i) xs"
  using filter_after [of "take i xs" "xs ! i" "drop (Suc i) xs"] assms
  by (simp flip: id_take_nth_drop)

text \<open>Two ascending halves, every key of the first before every key of the second.\<close>

lemma sort_by_append:
  assumes "distinct (map key (xs @ ys))" "\<And>x y. x \<in> set xs \<Longrightarrow> y \<in> set ys \<Longrightarrow> lt x y"
  shows "sort_by lt (xs @ ys) = sort_by lt xs @ sort_by lt ys"
  by (rule sort_by_determined) (use assms in \<open>auto simp: sorted_wrt_append sort_by_strict\<close>)

end

section \<open>The telemetry cursor\<close>

type_synonym position = "gotime \<times> string \<times> string \<times> nat \<times> string"

definition position :: "observation \<Rightarrow> position" where
  "position o' = (obs_ObservedAt o', obs_AgentID o', obs_WALID o', obs_WALSequence o', obs_FrameID o')"

lemma position_less:
  "position a < position b \<longleftrightarrow>
     (if obs_ObservedAt a \<noteq> obs_ObservedAt b then obs_ObservedAt a < obs_ObservedAt b
      else if obs_AgentID a \<noteq> obs_AgentID b then obs_AgentID a < obs_AgentID b
      else if obs_WALID a \<noteq> obs_WALID b then obs_WALID a < obs_WALID b
      else if obs_WALSequence a \<noteq> obs_WALSequence b then obs_WALSequence a < obs_WALSequence b
      else obs_FrameID a < obs_FrameID b)"
  by (auto simp: position_def less_prod_def less_eq_prod_def)

lemma before_is_position_less:
  "positionBefore a b \<longleftrightarrow> position a < position b"
  "workerBefore a b \<longleftrightarrow> position a < position b"
  "observationBefore a b \<longleftrightarrow> position a < position b"
  by (simp_all add: position_less positionBefore_def workerBefore_def observationBefore_def)

interpretation reader_order: ordered_by positionBefore position "(<)"
  by unfold_locales (auto simp: before_is_position_less)

interpretation worker_order: ordered_by workerBefore position "(<)"
  by unfold_locales (auto simp: before_is_position_less)

interpretation evaluator_order: ordered_by observationBefore position "(<)"
  by unfold_locales (auto simp: before_is_position_less)

lemma distinct_frames_positions: "distinct (map obs_FrameID os) \<Longrightarrow> distinct (map position os)"
  by (induction os) (auto simp: position_def)

end
