(* ===== verification/History_Pages.thy ===== *)
theory History_Pages
  imports Store_Evidence History Ordering
begin

text \<open>
  Continuation tokens decode to what was encoded, and following them from page to page reads
  the selected history once, completely and in order.
\<close>

section \<open>Base64\<close>

lemma b64_join_split: "\<forall>b\<in>set bs. b < 256 \<Longrightarrow> b64_join (b64_split bs) = Some bs"
proof (induction bs rule: b64_split.induct)
  case (4 a b c rest)
  have "b div 16 < 16" "c div 64 < 4" using 4 by (simp_all add: less_mult_imp_div_less)
  then show ?case using 4 by simp
qed (simp_all add: less_mult_imp_div_less)

lemma b64_split_digits: "\<forall>b\<in>set bs. b < 256 \<Longrightarrow> \<forall>n\<in>set (b64_split bs). n < 64"
proof (induction bs rule: b64_split.induct)
  case (3 a b)
  then show ?case by (simp add: less_mult_imp_div_less) linarith
next
  case (4 a b c rest)
  then show ?case by (simp add: less_mult_imp_div_less) linarith
qed (simp_all add: less_mult_imp_div_less)

lemma length_b64_split: "length (b64_split bs) = (4 * length bs + 2) div 3"
  by (induction bs rule: b64_split.induct) simp_all

lemma b64_alphabet: "length b64_alphabet = 64" "distinct b64_alphabet" "CHR 0x0A \<notin> set b64_alphabet" "CHR 0x0D \<notin> set b64_alphabet"
  by code_simp+

lemma b64_digit_char:
  assumes "n < 64"
  shows "b64_digit (b64_char n) = Some n" "b64_char n \<noteq> CHR 0x0A" "b64_char n \<noteq> CHR 0x0D"
proof -
  show "b64_digit (b64_char n) = Some n"
    unfolding b64_digit_def
    by (rule find_unique)
      (use assms b64_alphabet nth_eq_iff_index_eq [OF b64_alphabet(2)] in \<open>auto simp: b64_char_def\<close>)
  have "b64_char n \<in> set b64_alphabet" using assms b64_alphabet(1) by (simp add: b64_char_def)
  then show "b64_char n \<noteq> CHR 0x0A" "b64_char n \<noteq> CHR 0x0D" using b64_alphabet(3,4) by auto
qed

lemma decode_encode: "DecodeString (EncodeToString s) = Some s"
proof -
  let ?ns = "b64_split (map of_char s :: nat list)"
  have bytes: "\<forall>b\<in>set (map of_char s :: nat list). b < 256" by auto
  note small = b64_split_digits [OF bytes]
  have keep: "filter (\<lambda>c. c \<noteq> CHR 0x0A \<and> c \<noteq> CHR 0x0D) (map b64_char ?ns) = map b64_char ?ns"
    using small b64_digit_char by (auto simp: filter_id_conv)
  have digits: "map b64_digit (map b64_char ?ns) = map Some ?ns" using small b64_digit_char by simp
  show ?thesis
    unfolding DecodeString_def EncodeToString_def keep digits
    using b64_join_split [OF bytes] by (simp add: list_all_iff comp_def)
qed


section \<open>The selected rows\<close>

definition collation_ok :: "store_env \<Rightarrow> bool" where
  "collation_ok E \<longleftrightarrow>
     (\<forall>a. \<not> text_less E a a) \<and> (\<forall>a b c. text_less E a b \<longrightarrow> text_less E b c \<longrightarrow> text_less E a c) \<and>
     (\<forall>a b. a \<noteq> b \<longrightarrow> text_less E a b \<or> text_less E b a)"

abbreviation row_event_key :: "event_row \<times> assignment_row \<Rightarrow> gotime \<times> string" where
  "row_event_key r \<equiv> event_key (fst r)"

lemma history_order:
  assumes "collation_ok E"
  shows "ordered_by (newer_event E) row_event_key (\<lambda>k l. key_less E l k)"
proof -
  have irrefl: "\<not> text_less E a a" and trans: "text_less E a b \<Longrightarrow> text_less E b c \<Longrightarrow> text_less E a c"
    and total: "a \<noteq> b \<Longrightarrow> text_less E a b \<or> text_less E b a" for a b c
    using assms unfolding collation_ok_def by blast+
  show ?thesis
  proof
    show "newer_event E a b \<longleftrightarrow> key_less E (row_event_key b) (row_event_key a)" for a b
      by (simp add: newer_event_def)
    show "\<not> key_less E k k" for k by (simp add: key_less_def irrefl)
    show "key_less E m k" if "key_less E l k" "key_less E m l" for k l m
      using that trans [of "snd m" "snd l" "snd k"] unfolding key_less_def by linarith
    show "key_less E l k \<or> key_less E k l" if "k \<noteq> l" for k l
      using that total [of "snd k" "snd l"] prod_eqI [of k l] unfolding key_less_def by linarith
  qed
qed

lemma fst_joined: "r \<in> set (joined d e) \<Longrightarrow> fst r = e"
  by (auto simp: joined_def)

lemma joined_filter:
  "concat (map (joined d) (filter Q es)) = filter (\<lambda>r. Q (fst r)) (concat (map (joined d) es))"
proof (induction es)
  case (Cons e es)
  have "filter (\<lambda>r. Q (fst r)) (joined d e) = (if Q e then joined d e else [])"
    using fst_joined [of _ d e] by (auto simp: filter_id_conv filter_empty_conv)
  with Cons show ?case by simp
qed simp

lemma set_singleton_distinct:
  assumes "set xs = {a}" "distinct xs"
  shows "xs = [a]"
proof (cases xs)
  case (Cons x ys)
  then have "x = a" using assms by auto
  moreover have "ys = []"
  proof (cases ys)
    case more': (Cons y zs)
    then show ?thesis using assms Cons by auto
  qed simp
  ultimately show ?thesis using Cons by simp
qed (use assms in simp)

text \<open>Every event joins exactly one generation.\<close>

lemma joined_single:
  assumes ok: "assignments_ok (assignments d)" and has: "has_assignment d (evt_aid e) (evt_gen e)"
  shows "map fst (joined d e) = [e]"
proof -
  obtain a where a: "a \<in> set (assignments d)" "row_key a = (evt_aid e, evt_gen e)"
    using has by (auto simp: has_assignment_def)
  have "distinct (map row_key (assignments d))" using ok by (simp add: assignments_ok_def)
  then have "distinct (assignments d)" by (simp add: distinct_map)
  have "set (filter (\<lambda>b. row_key b = (evt_aid e, evt_gen e)) (assignments d)) = {a}"
  proof (intro equalityI subsetI)
    fix b assume "b \<in> set (filter (\<lambda>b. row_key b = (evt_aid e, evt_gen e)) (assignments d))"
    then have "b \<in> set (assignments d)" "ar_id b = ar_id a" "ar_gen b = ar_gen a" using a(2) by simp_all
    then show "b \<in> {a}" using row_key_inj [OF ok _ a(1)] by blast
  qed (use a in simp)
  then have "filter (\<lambda>b. row_key b = (evt_aid e, evt_gen e)) (assignments d) = [a]"
    by (rule set_singleton_distinct) (use \<open>distinct (assignments d)\<close> in simp)
  then show ?thesis by (simp add: joined_def)
qed

definition selection :: "store_env \<Rightarrow> history_query \<Rightarrow> db \<Rightarrow> event_row list" where
  "selection E q d = filter (selected E q) (events d)"

lemma joined_all:
  "\<forall>e\<in>set es. map fst (joined d e) = [e] \<Longrightarrow> map fst (concat (map (joined d) es)) = es"
  by (induction es) (simp_all add: map_concat)

lemma history_rows_cursor:
  assumes coll: "collation_ok E" and dist: "distinct (map row_event_key (concat (map (joined d) (selection E q d))))"
  shows "history_rows E q cursor d = filter (\<lambda>r. after_cursor E cursor (fst r)) (history_rows E q None d)"
proof -
  have rows: "history_rows E q cursor d = sort_by (newer_event E)
      (filter (\<lambda>r. after_cursor E cursor (fst r)) (concat (map (joined d) (selection E q d))))" for cursor
    unfolding history_rows_def selection_def
    by (simp add: joined_filter [symmetric] filter_filter conj_commute)
  have "history_rows E q None d = sort_by (newer_event E) (concat (map (joined d) (selection E q d)))"
    by (simp add: rows after_cursor_def)
  then show ?thesis
    using ordered_by.filter_sort_by [OF history_order [OF coll] dist] rows by simp
qed

section \<open>Following the tokens\<close>

text \<open>What the JSON encoder and the identifiers of events provide, for the cursors of one query.\<close>

definition tokens_ok :: "cursor_codec \<Rightarrow> store_env \<Rightarrow> history_query \<Rightarrow> db \<Rightarrow> bool" where
  "tokens_ok K E q d \<longleftrightarrow>
     (\<forall>r\<in>set (history_rows E q None d).
        let c = next_cursor q (history_event_of r) in
        cursor_encodable c \<and> cursor_unmarshal K (cursor_marshal K c) = Some c \<and> cursor_marshal K c \<noteq> [] \<and>
        length (cursor_marshal K c) \<le> 3072 \<and> \<not> IsZero (hc_At c) \<and> hc_ID c \<noteq> [] \<and> length (hc_ID c) \<le> 1024)"

text \<open>A client that follows the tokens; \<open>None\<close> when a call fails or the fuel runs out.\<close>

fun read_pages :: "nat \<Rightarrow> cursor_codec \<Rightarrow> store_env \<Rightarrow> history_query \<Rightarrow> db \<Rightarrow> history_event list option" where
  "read_pages 0 K E q d = None"
| "read_pages (Suc n) K E q d =
     (case ListConformanceEvents K E q d of
        Inl _ \<Rightarrow> None
      | Inr page \<Rightarrow>
          if hp_NextPageToken page = [] then Some (hp_Events page)
          else map_option (\<lambda>rest. hp_Events page @ rest)
                 (read_pages n K E (q\<lparr>hq_PageToken := hp_NextPageToken page\<rparr>) d))"

definition token_after :: "cursor_codec \<Rightarrow> history_query \<Rightarrow> event_row \<times> assignment_row \<Rightarrow> string" where
  "token_after K q r = EncodeToString (cursor_marshal K (next_cursor q (history_event_of r)))"

definition query_at :: "cursor_codec \<Rightarrow> history_query \<Rightarrow> (event_row \<times> assignment_row) list \<Rightarrow> nat \<Rightarrow> history_query" where
  "query_at K q rows k = (if k = 0 then q else q\<lparr>hq_PageToken := token_after K q (rows ! (k - 1))\<rparr>)"

lemma page_size_token [simp]:
  "page_size (q\<lparr>hq_PageToken := t\<rparr>) = page_size q" "next_cursor (q\<lparr>hq_PageToken := t\<rparr>) e = next_cursor q e"
  "history_rows E (q\<lparr>hq_PageToken := t\<rparr>) cursor d = history_rows E q cursor d"
  by (simp_all add: page_size_def next_cursor_def history_rows_def selected_def)

lemma token_valid:
  assumes "tokens_ok K E q d" "r \<in> set (history_rows E q None d)"
  shows "token_after K q r \<noteq> []" "length (token_after K q r) \<le> 4096"
    "Option.bind (DecodeString (token_after K q r)) (cursor_unmarshal K) = Some (next_cursor q (history_event_of r))"
proof -
  let ?c = "next_cursor q (history_event_of r)"
  have c: "cursor_unmarshal K (cursor_marshal K ?c) = Some ?c" "cursor_marshal K ?c \<noteq> []" "length (cursor_marshal K ?c) \<le> 3072"
    using assms by (auto simp: tokens_ok_def Let_def)
  have len: "length (token_after K q r) = (4 * length (cursor_marshal K ?c) + 2) div 3"
    by (simp add: token_after_def EncodeToString_def length_b64_split)
  show "length (token_after K q r) \<le> 4096" using c(3) len by simp
  have "1 \<le> length (cursor_marshal K ?c)" using c(2) by (cases "cursor_marshal K ?c") auto
  then have "1 \<le> length (token_after K q r)" using len by simp
  then show "token_after K q r \<noteq> []" by auto
  show "Option.bind (DecodeString (token_after K q r)) (cursor_unmarshal K) = Some ?c"
    unfolding token_after_def decode_encode by (simp add: c(1))
qed

lemma sameHistoryTime_refl [simp]: "sameHistoryTime t t"
  by (cases t) (simp_all add: sameHistoryTime_def)

lemma bounds_at:
  assumes "tokens_ok K E q d" "query_valid q" "hq_PageToken q = []" "k \<le> length (history_rows E q None d)"
  shows "historyBounds K (query_at K q (history_rows E q None d) k) =
    Inr (page_size q, if k = 0 then None else Some (next_cursor q (history_event_of (history_rows E q None d ! (k - 1)))))"
proof (cases "k = 0")
  case True
  then show ?thesis using assms by (simp add: query_at_def historyBounds_def)
next
  case False
  let ?r = "history_rows E q None d ! (k - 1)"
  have mem: "?r \<in> set (history_rows E q None d)" using assms(4) False by (intro nth_mem) simp
  note t = token_valid [OF assms(1) mem]
  have "query_valid (q\<lparr>hq_PageToken := token_after K q ?r\<rparr>)"
    using assms(2) t(2) by (simp add: query_valid_def)
  moreover have "cursor_continues (q\<lparr>hq_PageToken := token_after K q ?r\<rparr>) (next_cursor q (history_event_of ?r))"
    using assms(1) mem by (auto simp: tokens_ok_def Let_def cursor_continues_def next_cursor_def)
  ultimately show ?thesis using False t(1,3) by (simp add: query_at_def historyBounds_def)
qed

lemma rows_at:
  assumes coll: "collation_ok E" and dist: "distinct (map row_event_key (concat (map (joined d) (selection E q d))))"
    and stored: "\<And>r. r \<in> set (history_rows E q None d) \<Longrightarrow> timestamptz E (evt_observed_at (fst r)) = evt_observed_at (fst r)"
    and k: "0 < k" "k \<le> length (history_rows E q None d)"
  shows "history_rows E q (Some (next_cursor q (history_event_of (history_rows E q None d ! (k - 1))))) d =
    drop k (history_rows E q None d)"
proof -
  let ?xs = "history_rows E q None d" and ?r = "history_rows E q None d ! (k - 1)"
  have mem: "?r \<in> set ?xs" using k by (intro nth_mem) simp
  have sorted: "sorted_wrt (newer_event E) ?xs"
    using ordered_by.sort_by_strict [OF history_order [OF coll] dist]
    by (simp add: history_rows_def selection_def after_cursor_def)
  have eq: "after_cursor E (Some (next_cursor q (history_event_of ?r))) (fst s) \<longleftrightarrow> newer_event E ?r s" for s
    using stored [OF mem]
    by (simp add: after_cursor_def next_cursor_def history_event_of_def Let_def newer_event_def event_key_def)
  have "history_rows E q (Some (next_cursor q (history_event_of ?r))) d =
      filter (\<lambda>s. after_cursor E (Some (next_cursor q (history_event_of ?r))) (fst s)) ?xs"
    by (rule history_rows_cursor [OF coll dist])
  also have "\<dots> = filter (newer_event E ?r) ?xs" by (rule filter_cong [OF refl]) (rule eq)
  also have "\<dots> = drop (Suc (k - 1)) ?xs"
    by (rule ordered_by.filter_after_nth [OF history_order [OF coll] sorted]) (use k in simp)
  finally show ?thesis using k(1) by simp
qed

lemma page_size_pos: "query_valid q \<Longrightarrow> 0 < page_size q"
  by (auto simp: query_valid_def page_size_def)

lemma read_pages_from:
  assumes coll: "collation_ok E" and dist: "distinct (map row_event_key (concat (map (joined d) (selection E q d))))"
    and stored: "\<And>r. r \<in> set (history_rows E q None d) \<Longrightarrow> timestamptz E (evt_observed_at (fst r)) = evt_observed_at (fst r)"
    and tok: "tokens_ok K E q d" and q: "query_valid q" "hq_PageToken q = []"
  shows "k \<le> length (history_rows E q None d) \<Longrightarrow> length (history_rows E q None d) - k < n \<Longrightarrow>
    read_pages n K E (query_at K q (history_rows E q None d) k) d =
      Some (map history_event_of (drop k (history_rows E q None d)))"
proof (induction n arbitrary: k)
  case (Suc n)
  let ?xs = "history_rows E q None d" and ?n = "page_size q"
  let ?qk = "query_at K q ?xs k" and ?found = "map history_event_of (take (Suc ?n) (drop k ?xs))"
  define cursor where "cursor = (if k = 0 then None else Some (next_cursor q (history_event_of (?xs ! (k - 1)))))"
  have b: "historyBounds K ?qk = Inr (?n, cursor)" unfolding cursor_def by (rule bounds_at [OF tok q Suc.prems(1)])
  have "history_rows E q cursor d = drop k ?xs"
    using rows_at [OF coll dist stored _ Suc.prems(1)] by (simp add: cursor_def)
  then have rows: "history_rows E ?qk cursor d = drop k ?xs" by (simp add: query_at_def)
  have same: "next_cursor ?qk e = next_cursor q e" for e by (simp add: query_at_def)
  show ?case
  proof (cases "?n < length ?xs - k")
    case False
    then have "ListConformanceEvents K E ?qk d = Inr \<lparr>hp_Events = map history_event_of (drop k ?xs), hp_NextPageToken = []\<rparr>"
      by (simp add: ListConformanceEvents_def b rows Let_def)
    then show ?thesis by simp
  next
    case True
    let ?r = "?xs ! (k + ?n - 1)"
    have pos: "0 < ?n" by (rule page_size_pos [OF q(1)])
    have last: "take ?n ?found ! (?n - Suc 0) = history_event_of ?r"
      using True pos by (simp add: nth_drop add.commute)
    have mem: "?r \<in> set ?xs" using True pos by (intro nth_mem) simp
    have "cursor_encodable (next_cursor q (history_event_of ?r))" using tok mem by (auto simp: tokens_ok_def Let_def)
    then have page: "ListConformanceEvents K E ?qk d = Inr \<lparr>hp_Events = take ?n ?found, hp_NextPageToken = token_after K q ?r\<rparr>"
      using True by (simp add: ListConformanceEvents_def b rows Let_def same last token_after_def)
    have next': "?qk\<lparr>hq_PageToken := token_after K q ?r\<rparr> = query_at K q ?xs (k + ?n)"
      using pos by (simp add: query_at_def)
    have "read_pages n K E (query_at K q ?xs (k + ?n)) d = Some (map history_event_of (drop (k + ?n) ?xs))"
      by (rule Suc.IH) (use True Suc.prems(2) pos in auto)
    moreover have "take ?n ?found @ map history_event_of (drop (k + ?n) ?xs) = map history_event_of (drop k ?xs)"
    proof -
      have "drop (k + ?n) ?xs = drop ?n (drop k ?xs)" by (simp add: add.commute)
      moreover have "take ?n ?found = map history_event_of (take ?n (drop k ?xs))" by (simp add: take_map min_def)
      ultimately show ?thesis by (simp only: map_append [symmetric] append_take_drop_id)
    qed
    ultimately show ?thesis using page token_valid(1) [OF tok mem] next' by simp
  qed
qed simp

text \<open>In a reachable store the selected events join one generation each and have distinct keys.\<close>

lemma reachable_selection:
  assumes "reachable E d"
  shows "map fst (concat (map (joined d) (selection E q d))) = selection E q d"
    "distinct (map row_event_key (concat (map (joined d) (selection E q d))))"
    "fst ` set (history_rows E q None d) = {e \<in> set (events d). selected E q e}"
proof -
  note led = reachable_ledger_inv [OF assms]
  have ok: "assignments_ok (assignments d)"
    using reachable_store_inv [OF assms] by (simp add: store_inv_def timeline_inv_def)
  show fsts: "map fst (concat (map (joined d) (selection E q d))) = selection E q d"
    by (rule joined_all) (use led joined_single [OF ok] in \<open>auto simp: ledger_inv_def list_all_iff event_wf_def selection_def\<close>)
  have "map row_event_key (concat (map (joined d) (selection E q d))) = map event_key (selection E q d)"
    using arg_cong [OF fsts, of "map event_key"] by (simp add: comp_def)
  moreover have "distinct (map evt_id (selection E q d))"
    using led by (simp add: ledger_inv_def events_ok_def selection_def distinct_map_filter)
  ultimately show "distinct (map row_event_key (concat (map (joined d) (selection E q d))))"
    by (auto simp: distinct_map event_key_def inj_on_def)
  have "fst ` set (history_rows E q None d) = set (map fst (concat (map (joined d) (selection E q d))))"
    by (simp add: history_rows_def selection_def after_cursor_def)
  then show "fst ` set (history_rows E q None d) = {e \<in> set (events d). selected E q e}"
    unfolding fsts by (auto simp: selection_def)
qed

lemma reachable_stored:
  assumes "reachable E d" "\<And>t. timestamptz E (timestamptz E t) = timestamptz E t" "r \<in> set (history_rows E q None d)"
  shows "timestamptz E (evt_observed_at (fst r)) = evt_observed_at (fst r)"
proof -
  have "fst r \<in> set (events d)" using reachable_selection(3) [OF assms(1), of q] assms(3) by blast
  then obtain t where "evt_observed_at (fst r) = timestamptz E t"
    using reachable_ledger_inv [OF assms(1)] by (auto simp: ledger_inv_def list_all_iff event_wf_def)
  then show ?thesis using assms(2) by simp
qed

text \<open>
  C26: Complete pages. A client that starts without a token and follows the continuation tokens
  reads every event the query selects exactly once, newest first, and nothing else, whatever
  the page size; the tokens the store issues are always accepted. The database orders text
  linearly, rounds stored instants once, and the JSON of the cursors decodes to what was
  encoded and is at most 3072 bytes long.
\<close>

theorem history_pages_complete:
  assumes "reachable E d" "collation_ok E" "\<And>t. timestamptz E (timestamptz E t) = timestamptz E t"
    and "query_valid q" "hq_PageToken q = []" "tokens_ok K E q d" "length (events d) < n"
  shows "\<exists>es. read_pages n K E q d = Some es \<and>
    distinct (map he_ID es) \<and> he_ID ` set es = evt_id ` {e \<in> set (events d). selected E q e} \<and>
    sorted_wrt (\<lambda>a b. he_ObservedAt b \<le> he_ObservedAt a) es"
proof -
  let ?xs = "history_rows E q None d"
  note sel = reachable_selection [OF assms(1), of q]
  have len: "length ?xs \<le> length (events d)"
  proof -
    have "length ?xs = length (map fst (concat (map (joined d) (selection E q d))))"
      by (simp add: history_rows_def selection_def after_cursor_def)
    also have "\<dots> = length (selection E q d)" unfolding sel(1) ..
    finally show ?thesis by (simp add: selection_def)
  qed
  have "read_pages n K E (query_at K q ?xs 0) d = Some (map history_event_of (drop 0 ?xs))"
    by (rule read_pages_from [OF assms(2) sel(2) reachable_stored [OF assms(1,3)] assms(6,4,5)]) (use len assms(7) in auto)
  then have pages: "read_pages n K E q d = Some (map history_event_of ?xs)" by (simp add: query_at_def)
  have ids: "he_ID (history_event_of r) = evt_id (fst r)" "he_ObservedAt (history_event_of r) = evt_observed_at (fst r)" for r
    by (simp_all add: history_event_of_def Let_def)
  have sorted: "sorted_wrt (newer_event E) ?xs"
    using ordered_by.sort_by_strict [OF history_order [OF assms(2)] sel(2)]
    by (simp add: history_rows_def selection_def after_cursor_def)
  have "sorted_wrt (\<lambda>a b. he_ObservedAt b \<le> he_ObservedAt a) (map history_event_of ?xs)"
    unfolding sorted_wrt_map using sorted
    by (rule sorted_wrt_mono_rel [rotated]) (auto simp: ids newer_event_def key_less_def event_key_def)
  moreover have "distinct (map he_ID (map history_event_of ?xs))"
  proof -
    have "distinct (map evt_id (selection E q d))"
      using reachable_ledger_inv [OF assms(1)] by (simp add: ledger_inv_def events_ok_def selection_def distinct_map_filter)
    then have "distinct (map (\<lambda>r. evt_id (fst r)) (concat (map (joined d) (selection E q d))))"
      using arg_cong [OF sel(1), of "map evt_id"] by (simp add: comp_def)
    then show ?thesis
      by (simp add: ordered_by.distinct_map_sort_by [OF history_order [OF assms(2)]] history_rows_def selection_def
          after_cursor_def ids comp_def)
  qed
  moreover have "he_ID ` set (map history_event_of ?xs) = evt_id ` {e \<in> set (events d). selected E q e}"
    unfolding sel(3) [symmetric] by (auto simp: ids image_image)
  ultimately show ?thesis using pages by blast
qed

section \<open>A history of two events\<close>

definition opened_demo :: "violation_type \<Rightarrow> incident_transition" where
  "opened_demo v =
     \<lparr>tr_Violation = v, tr_Transition = TransitionOpened, tr_ObservedAt = 1500, tr_FrameID = ''fr'',
      tr_OpeningFrameID = ''fr'', tr_WALID = ''B'', tr_WALSequence = 1, tr_DeviationM = Fin 7\<rparr>"

definition incident_commit :: evaluation_commit where
  "incident_commit =
     \<lparr>ec_Evaluation = (evaluation_demo 1500 ''B'' 1)\<lparr>ev_Transitions := [opened_demo ViolationLateral, opened_demo ViolationVertical]\<rparr>,
      ec_NextEvaluationAt = 5000\<rparr>"

definition db_incidents :: db where
  "db_incidents = projr (CommitEvaluation store_env_demo 5010 (claim_demo 1 1 0) incident_commit db_claimed)"

definition query_demo :: history_query where
  "query_demo = \<lparr>hq_AssignmentID = ''A'', hq_Generation = 0, hq_From = None, hq_Until = None, hq_PageSize = 1, hq_PageToken = []\<rparr>"

definition codec_demo :: cursor_codec where
  "codec_demo = \<lparr>cursor_marshal = hc_ID, cursor_unmarshal = (\<lambda>s. Some
     \<lparr>hc_Version = 1, hc_AssignmentID = ''A'', hc_Generation = 0, hc_From = None, hc_Until = None, hc_At = 1500, hc_ID = s\<rparr>)\<rparr>"

lemma reachable_incidents: "reachable store_env_demo db_incidents"
proof -
  have "\<not> isl (CommitEvaluation store_env_demo 5010 (claim_demo 1 1 0) incident_commit db_claimed)" by code_simp
  then have "CommitEvaluation store_env_demo 5010 (claim_demo 1 1 0) incident_commit db_claimed = Inr db_incidents"
    unfolding db_incidents_def by (metis sum.collapse(2))
  from reachable.step [OF reachable_claimed store_step.commit [OF this]] show ?thesis .
qed

theorem history_pages_complete_witness:
  "length (events db_incidents) = 2 \<and>
   (\<exists>es. read_pages 3 codec_demo store_env_demo query_demo db_incidents = Some es \<and> distinct (map he_ID es) \<and>
      he_ID ` set es = evt_id ` {e \<in> set (events db_incidents). selected store_env_demo query_demo e})"
proof -
  have coll: "collation_ok store_env_demo" by (auto simp: collation_ok_def store_env_demo_def)
  have idem: "timestamptz store_env_demo (timestamptz store_env_demo t) = timestamptz store_env_demo t" for t
    by (simp add: store_env_demo_def)
  have q: "query_valid query_demo" "hq_PageToken query_demo = []" by code_simp+
  have len: "length (events db_incidents) = 2" by code_simp
  have rows: "list_all (\<lambda>r. evt_observed_at (fst r) = 1500 \<and> evt_id (fst r) \<noteq> [] \<and> length (evt_id (fst r)) \<le> 1024)
      (history_rows store_env_demo query_demo None db_incidents)" by code_simp
  have zero: "json_time 1500" "\<not> IsZero 1500" by code_simp+
  have "tokens_ok codec_demo store_env_demo query_demo db_incidents"
    unfolding tokens_ok_def
    using rows zero by (auto simp: list_all_iff Let_def next_cursor_def history_event_of_def codec_demo_def query_demo_def cursor_encodable_def)
  moreover have "length (events db_incidents) < 3" using len by simp
  ultimately show ?thesis
    using history_pages_complete [OF reachable_incidents coll idem q] len by blast
qed

end
