(* ===== verification/Handlers.thy ===== *)
theory Handlers
  imports Store_Assignments History
begin

text \<open>
  The gRPC adapter of \<^verbatim>\<open>internal/transport/grpc\<close>: translation between protocol messages and
  domain values, validation, the mapping of store errors to status codes, and one definition
  per RPC.

  Generated messages are records of what their getters return; a pointer that may be nil is an
  option. The package \<^verbatim>\<open>timestamppb\<close> is the parameter \<open>timestamppb\<close>. A call of the store may be
  cut off by the cancellation of its context or the loss of the connection, before or after
  its transaction has committed: that is the argument \<open>fault\<close>.
\<close>

section \<open>Protocol messages\<close>

record timestamp =
  ts_Seconds :: int
  ts_Nanos :: int

record timestamppb =
  ts_New :: "gotime \<Rightarrow> timestamp"
  ts_AsTime :: "timestamp \<Rightarrow> gotime"
  ts_CheckValid :: "timestamp \<Rightarrow> bool"

record geographic_point =
  gp_Latitude :: f64
  gp_Longitude :: f64

datatype proto_altitude_reference =
  ALTITUDE_REFERENCE_UNSPECIFIED | ALTITUDE_REFERENCE_MSL | ALTITUDE_REFERENCE_AGL
  | ALTITUDE_REFERENCE_UNKNOWN int

record conformance_volume =
  cv_VolumeId :: string
  cv_Polygon :: "geographic_point option list"
  cv_AltitudeLowerM :: f64
  cv_AltitudeUpperM :: f64
  cv_AltitudeReference :: proto_altitude_reference
  cv_StartsAt :: "timestamp option"
  cv_EndsAt :: "timestamp option"

record proto_assignment =
  pa_AssignmentId :: string
  pa_AssignmentGeneration :: nat
  pa_OperatorId :: string
  pa_AircraftId :: string
  pa_AgentId :: string
  pa_FlightId :: string
  pa_IntentId :: string
  pa_IntentVersion :: nat
  pa_PolicyVersion :: string
  pa_EffectiveFrom :: "timestamp option"
  pa_EffectiveUntil :: "timestamp option"
  pa_Volumes :: "conformance_volume option list"

record proto_record =
  pr_Assignment :: proto_assignment
  pr_Lifecycle :: assignment_lifecycle
  pr_PreparedAt :: "timestamp option"
  pr_ArmedAt :: "timestamp option"
  pr_CutoverAt :: "timestamp option"
  pr_AuthorityFrom :: "timestamp option"
  pr_AuthorityUntil :: "timestamp option"

record prepare_request =
  pq_Source :: string
  pq_MessageId :: string
  pq_Assignment :: "proto_assignment option"

record lifecycle_request =
  lq_Source :: string
  lq_MessageId :: string
  lq_AssignmentId :: string
  lq_AssignmentGeneration :: nat
  lq_EffectiveAt :: "timestamp option"

record assignment_response =
  as_Disposition :: apply_disposition
  as_Assignment :: "proto_record option"

section \<open>Statuses\<close>

datatype code =
  InvalidArgument | NotFound | AlreadyExists | FailedPrecondition | Internal | Unimplemented | Unavailable
  | Canceled | DeadlineExceeded

datatype proto_error =
  WindowRequired | EffectiveFromInvalid | EffectiveUntilInvalid | VolumeTimestampsInvalid
  | VolumeAltitudeNotFinite | VolumeInvalid | AltitudeReferenceInvalid | PolygonPointInvalid
  | AssignmentInvalid

text \<open>A status with its code, or the context error returned as it is.\<close>

datatype rpc_error = Status code | ContextError code

datatype call_error = CallCanceled | CallDeadlineExceeded | CallStore store_error | CallFailed

datatype fault = Reliable | LostBeforeCommit call_error | LostAfterCommit call_error

definition store_call :: "fault \<Rightarrow> (db \<Rightarrow> store_error + 'a \<times> db) \<Rightarrow> db \<Rightarrow> (call_error + 'a) \<times> db" where
  "store_call f operation d =
     (case f of
        LostBeforeCommit e \<Rightarrow> (Inl e, d)
      | LostAfterCommit e \<Rightarrow> (Inl e, case operation d of Inl _ \<Rightarrow> d | Inr (_, d') \<Rightarrow> d')
      | Reliable \<Rightarrow>
          (case operation d of Inl e \<Rightarrow> (Inl (CallStore e), d) | Inr (r, d') \<Rightarrow> (Inr r, d')))"

definition assignmentStatusError :: "call_error \<Rightarrow> rpc_error" where
  "assignmentStatusError err =
     (case err of
        CallCanceled \<Rightarrow> ContextError Canceled
      | CallDeadlineExceeded \<Rightarrow> ContextError DeadlineExceeded
      | CallStore e \<Rightarrow>
          if e = ErrAssignmentNotFound then Status NotFound
          else if e = ErrMessageConflict then Status AlreadyExists
          else if e = ErrStaleAssignment \<or> e = ErrInvalidTransition then Status FailedPrecondition
          else Status Internal
      | CallFailed \<Rightarrow> Status Internal)"

section \<open>From messages to the domain\<close>

definition f_ge :: "f64 \<Rightarrow> f64 \<Rightarrow> bool" where
  "f_ge x y = f_le y x"

definition validGeographicCoordinate :: "f64 \<Rightarrow> f64 \<Rightarrow> bool" where
  "validGeographicCoordinate latitude longitude \<longleftrightarrow>
     finite64 latitude \<and> f_ge latitude (Fin (- 90)) \<and> f_le latitude (Fin 90) \<and>
     finite64 longitude \<and> f_ge longitude (Fin (- 180)) \<and> f_le longitude (Fin 180)"

definition validAssignmentGeneration :: "nat \<Rightarrow> bool" where
  "validAssignmentGeneration g \<longleftrightarrow> 0 < g \<and> g \<le> MaxInt64"

definition altitudeReferenceFromProto :: "proto_altitude_reference \<Rightarrow> altitude_reference option" where
  "altitudeReferenceFromProto r =
     (if r = ALTITUDE_REFERENCE_MSL then Some AltitudeMSL
      else if r = ALTITUDE_REFERENCE_AGL then Some AltitudeAGL else None)"

fun pointsFromProto :: "geographic_point option list \<Rightarrow> proto_error + point list" where
  "pointsFromProto [] = Inr []"
| "pointsFromProto (p # ps) =
     (case p of None \<Rightarrow> Inl PolygonPointInvalid
      | Some g \<Rightarrow>
          ebind (ensure (validGeographicCoordinate (gp_Latitude g) (gp_Longitude g)) PolygonPointInvalid) (\<lambda>_.
          ebind (pointsFromProto ps) (\<lambda>rest.
          Inr (\<lparr>pt_Latitude = gp_Latitude g, pt_Longitude = gp_Longitude g\<rparr> # rest))))"

definition volumeFromProto :: "timestamppb \<Rightarrow> conformance_volume \<Rightarrow> proto_error + volume" where
  "volumeFromProto T input =
     (case (cv_StartsAt input, cv_EndsAt input) of
        (Some starts, Some ends) \<Rightarrow>
          ebind (ensure (ts_CheckValid T starts \<and> ts_CheckValid T ends) VolumeTimestampsInvalid) (\<lambda>_.
          ebind (ensure (finite64 (cv_AltitudeLowerM input) \<and> finite64 (cv_AltitudeUpperM input))
                   VolumeAltitudeNotFinite) (\<lambda>_.
          ebind (ensure (\<not> (blank (cv_VolumeId input) \<or> length (cv_Polygon input) < 3 \<or>
                            \<not> ts_AsTime T starts < ts_AsTime T ends \<or>
                            f_lt (cv_AltitudeUpperM input) (cv_AltitudeLowerM input))) VolumeInvalid) (\<lambda>_.
          case altitudeReferenceFromProto (cv_AltitudeReference input) of
            None \<Rightarrow> Inl AltitudeReferenceInvalid
          | Some reference \<Rightarrow>
              ebind (pointsFromProto (cv_Polygon input)) (\<lambda>polygon.
              Inr \<lparr>vol_ID = cv_VolumeId input, vol_Polygon = polygon,
                   vol_AltitudeLowerM = cv_AltitudeLowerM input, vol_AltitudeUpperM = cv_AltitudeUpperM input,
                   vol_AltitudeReference = reference, vol_StartsAt = ts_AsTime T starts,
                   vol_EndsAt = ts_AsTime T ends\<rparr>))))
      | _ \<Rightarrow> Inl VolumeTimestampsInvalid)"

fun volumesFromProto :: "timestamppb \<Rightarrow> conformance_volume option list \<Rightarrow> proto_error + volume list" where
  "volumesFromProto T [] = Inr []"
| "volumesFromProto T (v # vs) =
     (case v of None \<Rightarrow> Inl VolumeTimestampsInvalid
      | Some input \<Rightarrow>
          ebind (volumeFromProto T input) (\<lambda>volume.
          ebind (volumesFromProto T vs) (\<lambda>rest. Inr (volume # rest))))"

definition assignmentFromProto ::
  "timestamppb \<Rightarrow> proto_assignment option \<Rightarrow> string \<Rightarrow> proto_error + assignment" where
  "assignmentFromProto T value' policyVersion =
     (case value' of None \<Rightarrow> Inl WindowRequired
      | Some v \<Rightarrow>
         (case (pa_EffectiveFrom v, pa_EffectiveUntil v) of
            (Some from, Some until) \<Rightarrow>
              ebind (ensure (ts_CheckValid T from) EffectiveFromInvalid) (\<lambda>_.
              ebind (ensure (ts_CheckValid T until) EffectiveUntilInvalid) (\<lambda>_.
              ebind (volumesFromProto T (pa_Volumes v)) (\<lambda>volumes.
              let a = \<lparr>asg_ID = pa_AssignmentId v, asg_Generation = pa_AssignmentGeneration v,
                       asg_OperatorID = pa_OperatorId v, asg_AircraftID = pa_AircraftId v,
                       asg_AgentID = pa_AgentId v, asg_FlightID = pa_FlightId v, asg_IntentID = pa_IntentId v,
                       asg_IntentVersion = pa_IntentVersion v, asg_PolicyVersion = pa_PolicyVersion v,
                       asg_EffectiveFrom = ts_AsTime T from, asg_EffectiveUntil = ts_AsTime T until,
                       asg_Volumes = volumes\<rparr> in
              ebind (ensure (\<not> (blank (asg_ID a) \<or> \<not> validAssignmentGeneration (asg_Generation a) \<or>
                        blank (asg_AircraftID a) \<or> blank (asg_AgentID a) \<or> blank (asg_FlightID a) \<or>
                        blank (asg_IntentID a) \<or> asg_IntentVersion a = 0 \<or> MaxInt32 < asg_IntentVersion a \<or>
                        asg_PolicyVersion a \<noteq> policyVersion \<or> \<not> asg_EffectiveFrom a < asg_EffectiveUntil a \<or>
                        \<not> supportedUnixNanoseconds (asg_EffectiveFrom a) \<or>
                        \<not> supportedUnixNanoseconds (asg_EffectiveUntil a) \<or> asg_Volumes a = []))
                       AssignmentInvalid) (\<lambda>_. Inr a))))
          | _ \<Rightarrow> Inl WindowRequired))"

section \<open>From the domain to messages\<close>

definition optionalTime_ts :: "timestamppb \<Rightarrow> gotime \<Rightarrow> timestamp option" where
  "optionalTime_ts T t = (if IsZero t then None else Some (ts_New T t))"

definition optionalPointerTime :: "timestamppb \<Rightarrow> gotime option \<Rightarrow> timestamp option" where
  "optionalPointerTime T v =
     (case v of None \<Rightarrow> None | Some t \<Rightarrow> if IsZero t then None else Some (ts_New T t))"

definition altitudeReferenceToProto :: "altitude_reference \<Rightarrow> proto_altitude_reference" where
  "altitudeReferenceToProto r =
     (case r of AltitudeMSL \<Rightarrow> ALTITUDE_REFERENCE_MSL | AltitudeAGL \<Rightarrow> ALTITUDE_REFERENCE_AGL
      | AltitudeUnset \<Rightarrow> ALTITUDE_REFERENCE_UNSPECIFIED)"

definition volumeToProto :: "timestamppb \<Rightarrow> volume \<Rightarrow> conformance_volume" where
  "volumeToProto T v =
     \<lparr>cv_VolumeId = vol_ID v,
      cv_Polygon = map (\<lambda>p. Some \<lparr>gp_Latitude = pt_Latitude p, gp_Longitude = pt_Longitude p\<rparr>) (vol_Polygon v),
      cv_AltitudeLowerM = vol_AltitudeLowerM v, cv_AltitudeUpperM = vol_AltitudeUpperM v,
      cv_AltitudeReference = altitudeReferenceToProto (vol_AltitudeReference v),
      cv_StartsAt = Some (ts_New T (vol_StartsAt v)), cv_EndsAt = Some (ts_New T (vol_EndsAt v))\<rparr>"

definition assignmentToProto :: "timestamppb \<Rightarrow> assignment \<Rightarrow> proto_assignment" where
  "assignmentToProto T a =
     \<lparr>pa_AssignmentId = asg_ID a, pa_AssignmentGeneration = asg_Generation a, pa_OperatorId = asg_OperatorID a,
      pa_AircraftId = asg_AircraftID a, pa_AgentId = asg_AgentID a, pa_FlightId = asg_FlightID a,
      pa_IntentId = asg_IntentID a, pa_IntentVersion = asg_IntentVersion a,
      pa_PolicyVersion = asg_PolicyVersion a, pa_EffectiveFrom = Some (ts_New T (asg_EffectiveFrom a)),
      pa_EffectiveUntil = Some (ts_New T (asg_EffectiveUntil a)),
      pa_Volumes = map (\<lambda>v. Some (volumeToProto T v)) (asg_Volumes a)\<rparr>"

text \<open>Every lifecycle and every disposition has its own constant of the protocol; it stands for it here.\<close>

definition assignmentRecordToProto :: "timestamppb \<Rightarrow> assignment_record \<Rightarrow> proto_record" where
  "assignmentRecordToProto T r =
     \<lparr>pr_Assignment = assignmentToProto T (rec_Assignment r), pr_Lifecycle = rec_Lifecycle r,
      pr_PreparedAt = optionalTime_ts T (rec_PreparedAt r), pr_ArmedAt = optionalPointerTime T (rec_ArmedAt r),
      pr_CutoverAt = optionalPointerTime T (rec_CutoverAt r),
      pr_AuthorityFrom = optionalPointerTime T (rec_AuthorityFrom r),
      pr_AuthorityUntil = optionalPointerTime T (rec_AuthorityUntil r)\<rparr>"

section \<open>The RPCs\<close>

record handler =
  hd_policyVersion :: string
  hd_history :: bool

definition NewAssignmentHandler :: "bool \<Rightarrow> bool \<Rightarrow> string \<Rightarrow> unit + handler" where
  "NewAssignmentHandler has_store history policyVersion =
     (if \<not> has_store \<or> blank policyVersion then Inl ()
      else Inr \<lparr>hd_policyVersion = policyVersion, hd_history = history\<rparr>)"

text \<open>Reads leave the database as it is.\<close>

definition read_call :: "fault \<Rightarrow> (db \<Rightarrow> store_error + 'a) \<Rightarrow> db \<Rightarrow> call_error + 'a" where
  "read_call f operation d = fst (store_call f (\<lambda>d. ebind (operation d) (\<lambda>r. Inr (r, d))) d)"

definition PrepareAssignment_rpc ::
  "timestamppb \<Rightarrow> store_env \<Rightarrow> handler \<Rightarrow> gotime \<Rightarrow> fault \<Rightarrow> fault \<Rightarrow> prepare_request \<Rightarrow> db \<Rightarrow>
   (rpc_error + assignment_response) \<times> db" where
  "PrepareAssignment_rpc T E h now f1 f2 request d =
     (if blank (pq_Source request) \<or> blank (pq_MessageId request) then (Inl (Status InvalidArgument), d)
      else
        case assignmentFromProto T (pq_Assignment request) (hd_policyVersion h) of
          Inl _ \<Rightarrow> (Inl (Status InvalidArgument), d)
        | Inr a \<Rightarrow>
           (case store_call f1 (PrepareAssignment E now (pq_Source request) (pq_MessageId request)
                                  ''assignment_prepared'' a) d of
              (Inl e, d1) \<Rightarrow> (Inl (assignmentStatusError e), d1)
            | (Inr result, d1) \<Rightarrow>
               (if apl_Disposition result = ApplyStale
                then (Inr \<lparr>as_Disposition = apl_Disposition result, as_Assignment = None\<rparr>, d1)
                else
                  case read_call f2 (GetAssignment (asg_ID (apl_Assignment result))
                                       (asg_Generation (apl_Assignment result))) d1 of
                    Inl e \<Rightarrow> (Inl (assignmentStatusError e), d1)
                  | Inr record \<Rightarrow>
                      (Inr \<lparr>as_Disposition = apl_Disposition result,
                            as_Assignment = Some (assignmentRecordToProto T record)\<rparr>, d1))))"

definition request_invalid :: "lifecycle_request \<Rightarrow> bool" where
  "request_invalid request \<longleftrightarrow>
     blank (lq_Source request) \<or> blank (lq_MessageId request) \<or> blank (lq_AssignmentId request) \<or>
     \<not> validAssignmentGeneration (lq_AssignmentGeneration request)"

definition lifecycle_reply ::
  "timestamppb \<Rightarrow> (call_error + lifecycle_result) \<times> db \<Rightarrow> (rpc_error + assignment_response) \<times> db" where
  "lifecycle_reply T outcome =
     (case outcome of
        (Inl e, d) \<Rightarrow> (Inl (assignmentStatusError e), d)
      | (Inr result, d) \<Rightarrow>
          (Inr \<lparr>as_Disposition = lcr_Disposition result,
                as_Assignment = Some (assignmentRecordToProto T (lcr_Record result))\<rparr>, d))"

definition ArmAssignment_rpc ::
  "timestamppb \<Rightarrow> store_env \<Rightarrow> gotime \<Rightarrow> fault \<Rightarrow> lifecycle_request \<Rightarrow> db \<Rightarrow>
   (rpc_error + assignment_response) \<times> db" where
  "ArmAssignment_rpc T E now f request d =
     (if request_invalid request then (Inl (Status InvalidArgument), d)
      else lifecycle_reply T (store_call f (ArmAssignment E now (lq_Source request) (lq_MessageId request)
             (lq_AssignmentId request) (lq_AssignmentGeneration request)) d))"

definition CancelAssignmentCandidate_rpc ::
  "timestamppb \<Rightarrow> store_env \<Rightarrow> gotime \<Rightarrow> fault \<Rightarrow> lifecycle_request \<Rightarrow> db \<Rightarrow>
   (rpc_error + assignment_response) \<times> db" where
  "CancelAssignmentCandidate_rpc T E now f request d =
     (if request_invalid request then (Inl (Status InvalidArgument), d)
      else lifecycle_reply T (store_call f (CancelCandidate E now (lq_Source request) (lq_MessageId request)
             (lq_AssignmentId request) (lq_AssignmentGeneration request)) d))"

definition CutoverAssignment_rpc ::
  "timestamppb \<Rightarrow> store_env \<Rightarrow> gotime \<Rightarrow> fault \<Rightarrow> lifecycle_request \<Rightarrow> db \<Rightarrow>
   (rpc_error + assignment_response) \<times> db" where
  "CutoverAssignment_rpc T E now f request d =
     (if request_invalid request then (Inl (Status InvalidArgument), d)
      else
        case lq_EffectiveAt request of None \<Rightarrow> (Inl (Status InvalidArgument), d)
        | Some effective \<Rightarrow>
            if \<not> ts_CheckValid T effective \<or> \<not> supportedUnixNanoseconds (ts_AsTime T effective)
            then (Inl (Status InvalidArgument), d)
            else lifecycle_reply T (store_call f (CutoverAssignment E now (lq_Source request) (lq_MessageId request)
                   (lq_AssignmentId request) (lq_AssignmentGeneration request) (ts_AsTime T effective)) d))"

definition GetAssignment_rpc ::
  "timestamppb \<Rightarrow> fault \<Rightarrow> string \<Rightarrow> nat \<Rightarrow> db \<Rightarrow> rpc_error + proto_record" where
  "GetAssignment_rpc T f aid gen d =
     (if blank aid \<or> \<not> validAssignmentGeneration gen then Inl (Status InvalidArgument)
      else
        case read_call f (GetAssignment aid gen) d of
          Inl e \<Rightarrow> Inl (assignmentStatusError e)
        | Inr record \<Rightarrow> Inr (assignmentRecordToProto T record))"

section \<open>The history RPC\<close>

record list_request =
  lr_AssignmentId :: string
  lr_AssignmentGeneration :: nat
  lr_From :: "timestamp option"
  lr_Until :: "timestamp option"
  lr_PageSize :: int
  lr_PageToken :: string

record proto_event =
  pe_Event :: history_event
  pe_ViolationType :: "violation_type option"
  pe_ObservedAt :: timestamp
  pe_PlannedStartAt :: "timestamp option"
  pe_PlannedEndAt :: "timestamp option"

record list_response =
  lp_Events :: "proto_event list"
  lp_NextPageToken :: string

definition boundFromProto :: "timestamppb \<Rightarrow> timestamp option \<Rightarrow> rpc_error + gotime option" where
  "boundFromProto T src =
     (case src of None \<Rightarrow> Inr None
      | Some t \<Rightarrow> if ts_CheckValid T t then Inr (Some (ts_AsTime T t)) else Inl (Status InvalidArgument))"

definition violation_kind :: "string \<Rightarrow> violation_type option" where
  "violation_kind s =
     (if s = ''lateral_deviation'' then Some ViolationLateral
      else if s = ''altitude_deviation'' then Some ViolationVertical
      else if s = ''temporal_deviation'' then Some ViolationTemporal
      else if s = ''telemetry_loss'' then Some ViolationTelemetryLoss else None)"

text \<open>\<open>pe_Event\<close> stands for the fields that are copied unchanged.\<close>

definition eventToProto :: "timestamppb \<Rightarrow> history_event \<Rightarrow> proto_event" where
  "eventToProto T e =
     \<lparr>pe_Event = e, pe_ViolationType = violation_kind (he_ViolationType e),
      pe_ObservedAt = ts_New T (he_ObservedAt e), pe_PlannedStartAt = map_option (ts_New T) (he_PlannedStartAt e),
      pe_PlannedEndAt = map_option (ts_New T) (he_PlannedEndAt e)\<rparr>"

text \<open>\<open>lost\<close> is a failed read: the code of the context error, if the context has ended.\<close>

definition ListConformanceEvents_rpc ::
  "timestamppb \<Rightarrow> cursor_codec \<Rightarrow> store_env \<Rightarrow> handler \<Rightarrow> code option option \<Rightarrow> list_request \<Rightarrow> db \<Rightarrow>
   rpc_error + list_response" where
  "ListConformanceEvents_rpc T K E h lost request d =
     ebind (boundFromProto T (lr_From request)) (\<lambda>from.
     ebind (boundFromProto T (lr_Until request)) (\<lambda>until.
     if \<not> hd_history h then Inl (Status Unimplemented)
     else
       let q = \<lparr>hq_AssignmentID = lr_AssignmentId request, hq_Generation = lr_AssignmentGeneration request,
                hq_From = from, hq_Until = until, hq_PageSize = lr_PageSize request,
                hq_PageToken = lr_PageToken request\<rparr> in
       case ListConformanceEvents K E q d of
         Inl ErrInvalidHistoryQuery \<Rightarrow> Inl (Status InvalidArgument)
       | Inl CursorEncodeFailed \<Rightarrow>
           (case lost of Some (Some c) \<Rightarrow> Inl (Status c) | _ \<Rightarrow> Inl (Status Unavailable))
       | Inr page \<Rightarrow>
           (case lost of
              Some (Some c) \<Rightarrow> Inl (Status c)
            | Some None \<Rightarrow> Inl (Status Unavailable)
            | None \<Rightarrow> Inr \<lparr>lp_Events = map (eventToProto T) (hp_Events page),
                            lp_NextPageToken = hp_NextPageToken page\<rparr>)))"

end
