(* ===== verification/Store_Redelivery.thy ===== *)
theory Store_Redelivery
  imports Store_Evidence
begin

text \<open>
  Redelivery of commands: a lifecycle command that was applied once is answered from the inbox
  ever after, whatever has happened in between, and an envelope that reuses its identity with
  other contents is refused.
\<close>

section \<open>The inbox\<close>

lemma find_appended: "List.find P xs = Some x \<Longrightarrow> List.find P (xs @ ys) = Some x"
  by (induction xs) (auto split: if_splits)

lemma find_new: "List.find P xs = None \<Longrightarrow> P y \<Longrightarrow> List.find P (xs @ [y]) = Some y"
  by (induction xs) (auto split: if_splits)

lemma inbox_kept:
  "inbox d' = inbox d @ new \<Longrightarrow> lookup_inbox source msg d = Some row \<Longrightarrow> lookup_inbox source msg d' = Some row"
  by (simp add: lookup_inbox_def find_appended)

lemma inbox_new:
  "inbox d' = inbox d @ [row] \<Longrightarrow> lookup_inbox source msg d = None \<Longrightarrow> in_source row = source \<Longrightarrow> in_message row = msg \<Longrightarrow>
   lookup_inbox source msg d' = Some row"
  by (simp add: lookup_inbox_def find_new)

lemma inbox_entry_simps [simp]:
  "in_source (inbox_entry now source msg h ty aid gen out) = source"
  "in_message (inbox_entry now source msg h ty aid gen out) = msg"
  "in_hash (inbox_entry now source msg h ty aid gen out) = h"
  "in_outcome (inbox_entry now source msg h ty aid gen out) = Some out"
  by (simp_all add: inbox_entry_def)

text \<open>A command that succeeded has left its digest in the inbox and its generation exists.\<close>

definition recorded :: "string \<Rightarrow> string \<Rightarrow> string \<Rightarrow> string \<Rightarrow> nat \<Rightarrow> db \<Rightarrow> bool" where
  "recorded source msg h aid gen d \<longleftrightarrow>
     map_option in_hash (lookup_inbox source msg d) = Some h \<and> has_assignment d aid gen"

lemma lookup_row_has: "has_assignment d aid gen \<longleftrightarrow> lookup_row aid gen d \<noteq> None"
  by (auto simp: has_assignment_def lookup_row_def find_None_iff_mem image_iff)

lemma readAssignmentRecord_has: "has_assignment d aid gen \<Longrightarrow> \<exists>rec. readAssignmentRecord aid gen d = Inr rec"
  by (auto simp: lookup_row_has readAssignmentRecord_def)

lemma recorded_kept:
  assumes "(store_step E)\<^sup>*\<^sup>* d d'" "store_inv d" "ledger_inv E d" "recorded source msg h aid gen d"
  shows "recorded source msg h aid gen d'"
  using assms(1) assms(2-)
proof (induction rule: rtranclp_induct)
  case (step d1 d2)
  have inv: "store_inv d1" using steps_store_inv [OF step.hyps(1)] step.prems by auto
  have rec: "recorded source msg h aid gen d1" using step.IH step.prems by blast
  have ev: "evolves d1 d2" by (rule store_step_evolves [OF step.hyps(2) inv])
  obtain new where "inbox d2 = inbox d1 @ new" using ev by (auto simp: evolves_def)
  with rec have "map_option in_hash (lookup_inbox source msg d2) = Some h"
    by (auto simp: recorded_def dest: inbox_kept)
  moreover have "has_assignment d2 aid gen"
    using rec ev unfolding recorded_def has_assignment_def evolves_def row_step_def by (auto simp: image_iff) metis
  ultimately show ?case by (simp add: recorded_def)
qed

section \<open>Commands\<close>

lemma transitionCandidate_recorded:
  assumes "transitionCandidate E now source msg ty aid gen target d = Inr (res, d')"
  shows "recorded source msg (command_hash E ty \<lparr>cmd_AssignmentID = aid, cmd_Generation = gen, cmd_EffectiveAt = None\<rparr>) aid gen d'"
    (is "recorded _ _ ?h _ _ _")
proof (cases "lookup_inbox source msg d")
  case (Some row)
  then have "in_hash row = ?h \<and> d' = d \<and> (\<exists>rec. readAssignmentRecord aid gen d = Inr rec)"
    using assms by (auto simp: transitionCandidate_def monad_splits stmt encodeCommand_def readInboxHash_def)
  then show ?thesis using Some by (auto simp: recorded_def lookup_row_has readAssignmentRecord_def split: option.splits)
next
  case None
  from assms show ?thesis
  proof (cases rule: transitionCandidate_cases)
    case replay
    then show ?thesis using None by (simp add: readInboxHash_def)
  next
    case (applied row d1)
    note rec = recordLifecycleCommand_Inr [OF applied(7)]
    have "inbox d1 = inbox d" "map row_key (assignments d1) = map row_key (assignments d)"
      using applied(5) by (auto simp: candidate_update_def update_where_def release_def)
    moreover have "has_assignment d aid gen" using applied(2) by (simp add: lookup_row_has)
    ultimately show ?thesis
      using rec(1,3) inbox_new [of d' d _ source msg] None by (simp add: recorded_def has_assignment_def)
  qed
qed

lemma transitionCandidate_replay:
  assumes "recorded source msg (command_hash E ty \<lparr>cmd_AssignmentID = aid, cmd_Generation = gen, cmd_EffectiveAt = None\<rparr>) aid gen d"
    and "lifecycle_command_valid source msg aid gen"
  shows "\<exists>res. transitionCandidate E now source msg ty aid gen target d = Inr (res, d) \<and> lcr_Disposition res = ApplyIdempotent"
proof -
  have "has_assignment d aid gen" using assms(1) by (simp add: recorded_def)
  from readAssignmentRecord_has [OF this] assms show ?thesis
    by (auto simp: transitionCandidate_def encodeCommand_def readInboxHash_def recorded_def replay_command_def)
qed

lemma Cutover_recorded:
  assumes ok: "timeline_inv (assignments d)" and run: "CutoverAssignment E now source msg aid gen eff d = Inr (res, d')"
  shows "recorded source msg (command_hash E ''assignment_cutover''
    \<lparr>cmd_AssignmentID = aid, cmd_Generation = gen, cmd_EffectiveAt = Some eff\<rparr>) aid gen d'" (is "recorded _ _ ?h _ _ _")
proof (cases "lookup_inbox source msg d")
  case (Some row)
  then have "in_hash row = ?h \<and> d' = d \<and> (\<exists>rec. readAssignmentRecord aid gen d = Inr rec)"
    using run by (auto simp: CutoverAssignment_def monad_splits stmt encodeCommand_def readInboxHash_def split: if_splits)
  then show ?thesis using Some by (auto simp: recorded_def lookup_row_has readAssignmentRecord_def split: option.splits)
next
  case None
  then have "inbox d' = inbox d @ [inbox_entry now source msg ?h ''assignment_cutover'' aid gen (ApplyApplied, Some AssignmentActive)]"
    using run by (auto simp: CutoverAssignment_def cutover_candidate_def monad_splits stmt Let_def readInboxHash_def
        dest!: recordLifecycleCommand_Inr(3) encodeCommand_Inr split: option.splits if_splits)
  then have "map_option in_hash (lookup_inbox source msg d') = Some ?h" using inbox_new [of d' d _ source msg] None by auto
  moreover have "\<exists>rec. readAssignmentRecord aid gen d' = Inr rec"
    using run None by (cases rule: CutoverAssignment_cases) (auto simp: readInboxHash_def)
  ultimately show ?thesis by (auto simp: recorded_def lookup_row_has readAssignmentRecord_def split: option.splits)
qed

lemma Cutover_replay:
  assumes "recorded source msg (command_hash E ''assignment_cutover''
      \<lparr>cmd_AssignmentID = aid, cmd_Generation = gen, cmd_EffectiveAt = Some eff\<rparr>) aid gen d"
    and "lifecycle_command_valid source msg aid gen" "\<not> IsZero eff" "supportedUnixNanoseconds eff" "json_time eff"
  shows "\<exists>res. CutoverAssignment E now source msg aid gen eff d = Inr (res, d) \<and> lcr_Disposition res = ApplyIdempotent"
proof -
  have "has_assignment d aid gen" using assms(1) by (simp add: recorded_def)
  from readAssignmentRecord_has [OF this] assms show ?thesis
    by (auto simp: CutoverAssignment_def encodeCommand_def readInboxHash_def recorded_def replay_command_def)
qed

text \<open>
  C20: Redelivery. Arming, cancellation and cutover commands that succeeded once can be delivered
  again at any later time, after any operations of any parties: the answer is idempotent
  success with the stored record of that generation, and nothing is written.
\<close>

theorem redelivery_is_idempotent:
  assumes reach: "reachable E d"
  shows "(ArmAssignment E now source msg aid gen d = Inr (res, d1) \<and> (store_step E)\<^sup>*\<^sup>* d1 d2 \<longrightarrow>
      (\<exists>res'. ArmAssignment E later source msg aid gen d2 = Inr (res', d2) \<and> lcr_Disposition res' = ApplyIdempotent)) \<and>
    (CancelCandidate E now source msg aid gen d = Inr (res, d1) \<and> (store_step E)\<^sup>*\<^sup>* d1 d2 \<longrightarrow>
      (\<exists>res'. CancelCandidate E later source msg aid gen d2 = Inr (res', d2) \<and> lcr_Disposition res' = ApplyIdempotent)) \<and>
    (CutoverAssignment E now source msg aid gen eff d = Inr (res, d1) \<and> (store_step E)\<^sup>*\<^sup>* d1 d2 \<longrightarrow>
      (\<exists>res'. CutoverAssignment E later source msg aid gen eff d2 = Inr (res', d2) \<and> lcr_Disposition res' = ApplyIdempotent))"
proof (intro conjI impI; elim conjE)
  have keep: "recorded source msg h aid gen d2"
    if "store_step E d d1" "(store_step E)\<^sup>*\<^sup>* d1 d2" "recorded source msg h aid gen d1" for h
  proof -
    note r = reachable.step [OF reach that(1)]
    show ?thesis by (rule recorded_kept [OF that(2) reachable_store_inv [OF r] reachable_ledger_inv [OF r] that(3)])
  qed
  show "\<exists>res'. ArmAssignment E later source msg aid gen d2 = Inr (res', d2) \<and> lcr_Disposition res' = ApplyIdempotent"
    if run: "ArmAssignment E now source msg aid gen d = Inr (res, d1)" and steps: "(store_step E)\<^sup>*\<^sup>* d1 d2"
  proof -
    have "lifecycle_command_valid source msg aid gen"
      using run by (auto simp: ArmAssignment_def transitionCandidate_def monad_splits)
    then show ?thesis unfolding ArmAssignment_def
      by (intro transitionCandidate_replay keep [OF store_step.arm [OF run] steps])
        (use run in \<open>auto simp: ArmAssignment_def intro: transitionCandidate_recorded\<close>)
  qed
  show "\<exists>res'. CancelCandidate E later source msg aid gen d2 = Inr (res', d2) \<and> lcr_Disposition res' = ApplyIdempotent"
    if run: "CancelCandidate E now source msg aid gen d = Inr (res, d1)" and steps: "(store_step E)\<^sup>*\<^sup>* d1 d2"
  proof -
    have "lifecycle_command_valid source msg aid gen"
      using run by (auto simp: CancelCandidate_def transitionCandidate_def monad_splits)
    then show ?thesis unfolding CancelCandidate_def
      by (intro transitionCandidate_replay keep [OF store_step.cancel [OF run] steps])
        (use run in \<open>auto simp: CancelCandidate_def intro: transitionCandidate_recorded\<close>)
  qed
  show "\<exists>res'. CutoverAssignment E later source msg aid gen eff d2 = Inr (res', d2) \<and> lcr_Disposition res' = ApplyIdempotent"
    if run: "CutoverAssignment E now source msg aid gen eff d = Inr (res, d1)" and steps: "(store_step E)\<^sup>*\<^sup>* d1 d2"
  proof -
    have tl: "timeline_inv (assignments d)" using reachable_store_inv [OF reach] by (simp add: store_inv_def)
    have "lifecycle_command_valid source msg aid gen" "\<not> IsZero eff" "supportedUnixNanoseconds eff" "json_time eff"
      using run by (auto simp: CutoverAssignment_def encodeCommand_def monad_splits split: if_splits)
    then show ?thesis
      by (intro Cutover_replay keep [OF store_step.cutover [OF run] steps] Cutover_recorded [OF tl run])
  qed
qed

theorem redelivery_is_idempotent_witness:
  "\<exists>res'. ArmAssignment store_env_demo 7000 ''s'' ''2'' ''A'' 1 db_replaced = Inr (res', db_replaced) \<and>
     lcr_Disposition res' = ApplyIdempotent"
proof -
  have "(store_step store_env_demo)\<^sup>*\<^sup>* db_armed db_evaluated"
  proof -
    have "store_step store_env_demo db_armed db_active" by (rule store_step.cutover [OF demo_active])
    moreover have "store_step store_env_demo db_active db_claimed"
      by (rule store_step.claim_due, unfold db_claimed_def, rule surjective_pairing)
    moreover have "store_step store_env_demo db_claimed db_evaluated" by (rule store_step.commit [OF demo_evaluated])
    ultimately show ?thesis by (meson rtranclp.rtrancl_into_rtrancl rtranclp.rtrancl_refl)
  qed
  then have "(store_step store_env_demo)\<^sup>*\<^sup>* db_armed db_replaced" using steps_demo by (rule rtranclp_trans)
  then show ?thesis using redelivery_is_idempotent [OF reachable_prepared] demo_armed by blast
qed

end
