(* ===== verification/Handler_Properties.thy ===== *)
theory Handler_Properties
  imports Handlers Store_Redelivery Evaluator
begin

text \<open>
  The gRPC adapter: what it accepts the store and the evaluator accept too, what it translates
  it translates back, and a caller that lost the answer to a preparation can send it again.
\<close>

section \<open>Timestamps\<close>

text \<open>
  The documented behaviour of \<^verbatim>\<open>timestamppb\<close>: a valid timestamp denotes an instant of the years
  1 to 9999, and the timestamp of such an instant is valid and denotes it.
\<close>

definition timestamppb_ok :: "timestamppb \<Rightarrow> bool" where
  "timestamppb_ok T \<longleftrightarrow>
     (\<forall>t. year_at_least t 1 \<and> \<not> year_at_least t 10000 \<longrightarrow> ts_CheckValid T (ts_New T t) \<and> ts_AsTime T (ts_New T t) = t) \<and>
     (\<forall>s. ts_CheckValid T s \<longrightarrow> year_at_least (ts_AsTime T s) 1 \<and> \<not> year_at_least (ts_AsTime T s) 10000)"

lemma timestamp_again:
  "timestamppb_ok T \<Longrightarrow> ts_CheckValid T s \<Longrightarrow>
     ts_CheckValid T (ts_New T (ts_AsTime T s)) \<and> ts_AsTime T (ts_New T (ts_AsTime T s)) = ts_AsTime T s"
  by (simp add: timestamppb_ok_def)

lemma timestamp_json: "timestamppb_ok T \<Longrightarrow> ts_CheckValid T s \<Longrightarrow> json_time (ts_AsTime T s)"
proof -
  assume "timestamppb_ok T" "ts_CheckValid T s"
  then have t: "year_start 1 \<le> ts_AsTime T s" "\<not> year_start 10000 \<le> ts_AsTime T s"
    by (auto simp: timestamppb_ok_def year_at_least_def)
  have "year_start 0 \<le> year_start 1" by (simp add: year_start_def days_before_year_def)
  with t show ?thesis by (simp add: json_time_def year_at_least_def)
qed

section \<open>Translation\<close>

lemma points_again:
  "pointsFromProto ps = Inr pts \<Longrightarrow>
     length pts = length ps \<and>
     pointsFromProto (map (\<lambda>p. Some \<lparr>gp_Latitude = pt_Latitude p, gp_Longitude = pt_Longitude p\<rparr>) pts) = Inr pts \<and>
     (\<forall>p\<in>set pts. validGeographicCoordinate (pt_Latitude p) (pt_Longitude p))"
  by (induction ps arbitrary: pts) (auto simp: monad_splits split: option.splits)

definition volume_accepted :: "volume \<Rightarrow> bool" where
  "volume_accepted v \<longleftrightarrow>
     \<not> blank (vol_ID v) \<and> 3 \<le> length (vol_Polygon v) \<and> vol_StartsAt v < vol_EndsAt v \<and>
     \<not> f_lt (vol_AltitudeUpperM v) (vol_AltitudeLowerM v) \<and> finite64 (vol_AltitudeLowerM v) \<and>
     finite64 (vol_AltitudeUpperM v) \<and> json_time (vol_StartsAt v) \<and> json_time (vol_EndsAt v) \<and>
     vol_AltitudeReference v \<noteq> AltitudeUnset \<and>
     (\<forall>p\<in>set (vol_Polygon v). validGeographicCoordinate (pt_Latitude p) (pt_Longitude p))"

lemma reference_again:
  "altitudeReferenceFromProto r = Some x \<Longrightarrow> altitudeReferenceFromProto (altitudeReferenceToProto x) = Some x \<and> x \<noteq> AltitudeUnset"
  by (auto simp: altitudeReferenceFromProto_def altitudeReferenceToProto_def split: if_splits)

lemma volume_again:
  assumes T: "timestamppb_ok T" and run: "volumeFromProto T i = Inr v"
  shows "volumeFromProto T (volumeToProto T v) = Inr v" "volume_accepted v"
proof -
  obtain starts ends ref pts where
    i: "cv_StartsAt i = Some starts" "cv_EndsAt i = Some ends" "ts_CheckValid T starts" "ts_CheckValid T ends"
      "finite64 (cv_AltitudeLowerM i)" "finite64 (cv_AltitudeUpperM i)" "\<not> blank (cv_VolumeId i)" "\<not> length (cv_Polygon i) < 3"
      "ts_AsTime T starts < ts_AsTime T ends" "\<not> f_lt (cv_AltitudeUpperM i) (cv_AltitudeLowerM i)"
      "altitudeReferenceFromProto (cv_AltitudeReference i) = Some ref" "pointsFromProto (cv_Polygon i) = Inr pts"
    and v: "v = \<lparr>vol_ID = cv_VolumeId i, vol_Polygon = pts, vol_AltitudeLowerM = cv_AltitudeLowerM i,
        vol_AltitudeUpperM = cv_AltitudeUpperM i, vol_AltitudeReference = ref, vol_StartsAt = ts_AsTime T starts,
        vol_EndsAt = ts_AsTime T ends\<rparr>"
    using run by (auto simp: volumeFromProto_def monad_splits split: option.splits)
  note pts = points_again [OF i(12)] and ref = reference_again [OF i(11)]
    and ts = timestamp_again [OF T i(3)] timestamp_again [OF T i(4)] and js = timestamp_json [OF T i(3)] timestamp_json [OF T i(4)]
  show "volumeFromProto T (volumeToProto T v) = Inr v"
    using i pts ref ts by (simp add: volumeFromProto_def volumeToProto_def v)
  show "volume_accepted v" using i pts ref js by (simp add: volume_accepted_def v)
qed

lemma volumes_again:
  assumes T: "timestamppb_ok T"
  shows "volumesFromProto T is = Inr vs \<Longrightarrow>
    volumesFromProto T (map (\<lambda>v. Some (volumeToProto T v)) vs) = Inr vs \<and> list_all volume_accepted vs"
proof (induction "is" arbitrary: vs)
  case (Cons i "is")
  then obtain j v rest where "i = Some j" "volumeFromProto T j = Inr v" "volumesFromProto T is = Inr rest" "vs = v # rest"
    by (auto simp: monad_splits split: option.splits)
  with Cons.IH [of rest] volume_again [OF T, of j v] show ?case by simp
qed simp

lemma assignmentFromProto_Inr:
  assumes "assignmentFromProto T m pol = Inr a"
  obtains v fr un where "m = Some v" "pa_EffectiveFrom v = Some fr" "pa_EffectiveUntil v = Some un"
    "ts_CheckValid T fr" "ts_CheckValid T un" "volumesFromProto T (pa_Volumes v) = Inr (asg_Volumes a)"
    "asg_EffectiveFrom a = ts_AsTime T fr" "asg_EffectiveUntil a = ts_AsTime T un"
    "\<not> blank (asg_ID a)" "validAssignmentGeneration (asg_Generation a)" "\<not> blank (asg_AircraftID a)" "\<not> blank (asg_AgentID a)"
    "\<not> blank (asg_FlightID a)" "\<not> blank (asg_IntentID a)" "asg_IntentVersion a \<noteq> 0" "asg_IntentVersion a \<le> MaxInt32"
    "asg_PolicyVersion a = pol" "asg_EffectiveFrom a < asg_EffectiveUntil a"
    "supportedUnixNanoseconds (asg_EffectiveFrom a)" "supportedUnixNanoseconds (asg_EffectiveUntil a)" "asg_Volumes a \<noteq> []"
  using assms by (auto simp: assignmentFromProto_def monad_splits Let_def split: option.splits)

text \<open>
  C28: Translation round trip. An assignment the adapter has accepted is rendered as a message
  that the adapter accepts again and reads as the same assignment, in every field.
\<close>

theorem accepted_assignment_roundtrip:
  assumes "timestamppb_ok T" "assignmentFromProto T m pol = Inr a"
  shows "assignmentFromProto T (Some (assignmentToProto T a)) pol = Inr a"
  using assms(2)
proof (rule assignmentFromProto_Inr)
  fix v fr un
  assume a: "ts_CheckValid T fr" "ts_CheckValid T un" "volumesFromProto T (pa_Volumes v) = Inr (asg_Volumes a)"
    "asg_EffectiveFrom a = ts_AsTime T fr" "asg_EffectiveUntil a = ts_AsTime T un"
    "\<not> blank (asg_ID a)" "validAssignmentGeneration (asg_Generation a)" "\<not> blank (asg_AircraftID a)" "\<not> blank (asg_AgentID a)"
    "\<not> blank (asg_FlightID a)" "\<not> blank (asg_IntentID a)" "asg_IntentVersion a \<noteq> 0" "asg_IntentVersion a \<le> MaxInt32"
    "asg_PolicyVersion a = pol" "asg_EffectiveFrom a < asg_EffectiveUntil a"
    "supportedUnixNanoseconds (asg_EffectiveFrom a)" "supportedUnixNanoseconds (asg_EffectiveUntil a)" "asg_Volumes a \<noteq> []"
  note ts = timestamp_again [OF assms(1) a(1)] timestamp_again [OF assms(1) a(2)]
  show ?thesis
    using a ts volumes_again [OF assms(1) a(3)]
    by (simp add: assignmentFromProto_def assignmentToProto_def)
qed

text \<open>
  C27: Accepted means storable and evaluable. An assignment the adapter accepts passes the
  envelope check of the store with its own source and message identity, can be encoded as JSON
  and is valid for an evaluator that runs the policy of the handler; so the RPC never answers an
  internal error for the contents of a message it has accepted.
\<close>

theorem accepted_assignment_valid:
  assumes "timestamppb_ok T" "assignmentFromProto T m pol = Inr a"
    and "\<not> blank source" "\<not> blank msg" "\<not> blank pol" "pol_Version p = pol"
  shows "envelope_valid source msg ''assignment_prepared'' a \<and> json_assignment a \<and> validateAssignment a p = Inr ()"
  using assms(2)
proof (rule assignmentFromProto_Inr)
  fix v fr un
  assume a: "ts_CheckValid T fr" "ts_CheckValid T un" "volumesFromProto T (pa_Volumes v) = Inr (asg_Volumes a)"
    "asg_EffectiveFrom a = ts_AsTime T fr" "asg_EffectiveUntil a = ts_AsTime T un"
    "\<not> blank (asg_ID a)" "validAssignmentGeneration (asg_Generation a)" "\<not> blank (asg_AircraftID a)" "\<not> blank (asg_AgentID a)"
    "\<not> blank (asg_FlightID a)" "\<not> blank (asg_IntentID a)" "asg_IntentVersion a \<noteq> 0" "asg_IntentVersion a \<le> MaxInt32"
    "asg_PolicyVersion a = pol" "asg_EffectiveFrom a < asg_EffectiveUntil a"
    "supportedUnixNanoseconds (asg_EffectiveFrom a)" "supportedUnixNanoseconds (asg_EffectiveUntil a)" "asg_Volumes a \<noteq> []"
  have vols: "list_all volume_accepted (asg_Volumes a)" using volumes_again [OF assms(1) a(3)] by simp
  have word: "\<not> blank ''assignment_prepared''" by code_simp
  have "envelope_valid source msg ''assignment_prepared'' a"
    using a assms(3-5) word by (simp add: envelope_valid_def validAssignmentGeneration_def)
  moreover have "json_assignment a"
    using a(4,5) vols timestamp_json [OF assms(1) a(1)] timestamp_json [OF assms(1) a(2)]
    by (auto simp: json_assignment_def json_volume_def list_all_iff volume_accepted_def validGeographicCoordinate_def)
  moreover have "validateAssignment a p = Inr ()"
  proof -
    have pts: "validatePoints pts = Inr ()" if "\<forall>p\<in>set pts. validGeographicCoordinate (pt_Latitude p) (pt_Longitude p)" for pts
      using that by (induction pts) (auto simp: validGeographicCoordinate_def validCoordinate_def finite64_iff f_ge_def finite_def)
    have "validateVolumes vs = Inr ()" if "list_all volume_accepted vs" for vs
      using that by (induction vs) (auto simp: volume_accepted_def pts finite64_iff finite_def not_blank_not_empty)
    then show ?thesis
      using a(6-18) vols assms(6) supported_not_zero [OF a(16)]
      by (auto simp: validateAssignment_def validAssignmentGeneration_def)
  qed
  ultimately show ?thesis by blast
qed

section \<open>A concrete message\<close>

text \<open>Seconds and nanoseconds as the protocol documents them.\<close>

definition timestamppb_demo :: timestamppb where
  "timestamppb_demo =
     \<lparr>ts_New = (\<lambda>t. \<lparr>ts_Seconds = t div 1000000000, ts_Nanos = t mod 1000000000\<rparr>),
      ts_AsTime = (\<lambda>s. ts_Seconds s * 1000000000 + ts_Nanos s),
      ts_CheckValid = (\<lambda>s. - 62135596800 \<le> ts_Seconds s \<and> ts_Seconds s \<le> 253402300799 \<and> 0 \<le> ts_Nanos s \<and> ts_Nanos s < 1000000000)\<rparr>"

lemma timestamppb_demo_ok: "timestamppb_ok timestamppb_demo"
proof -
  have y: "year_start 1 = - 62135596800 * 1000000000" "year_start 10000 = 253402300800 * 1000000000"
    by (simp_all add: year_start_def days_before_year_def zero_time_def)
  show ?thesis
    unfolding timestamppb_ok_def year_at_least_def y timestamppb_demo_def by (auto simp: not_le)
qed

definition corner :: "real \<Rightarrow> real \<Rightarrow> geographic_point option" where
  "corner lat lon = Some \<lparr>gp_Latitude = Fin lat, gp_Longitude = Fin lon\<rparr>"

definition message_demo :: proto_assignment where
  "message_demo =
     \<lparr>pa_AssignmentId = ''A'', pa_AssignmentGeneration = 1, pa_OperatorId = ''o'', pa_AircraftId = ''c'', pa_AgentId = ''g'',
      pa_FlightId = ''f'', pa_IntentId = ''i'', pa_IntentVersion = 1, pa_PolicyVersion = ''p'',
      pa_EffectiveFrom = Some \<lparr>ts_Seconds = 0, ts_Nanos = 1000\<rparr>, pa_EffectiveUntil = Some \<lparr>ts_Seconds = 0, ts_Nanos = 9000\<rparr>,
      pa_Volumes = [Some \<lparr>cv_VolumeId = ''v'', cv_Polygon = [corner 0 0, corner 0 1, corner 1 0],
        cv_AltitudeLowerM = Fin 0, cv_AltitudeUpperM = Fin 100, cv_AltitudeReference = ALTITUDE_REFERENCE_MSL,
        cv_StartsAt = Some \<lparr>ts_Seconds = 0, ts_Nanos = 1000\<rparr>, cv_EndsAt = Some \<lparr>ts_Seconds = 0, ts_Nanos = 9000\<rparr>\<rparr>]\<rparr>"

definition assignment_demo :: assignment where
  "assignment_demo = (spec_demo 1)\<lparr>asg_Volumes :=
     [\<lparr>vol_ID = ''v'', vol_Polygon = map (\<lambda>(lat, lon). \<lparr>pt_Latitude = Fin lat, pt_Longitude = Fin lon\<rparr>) [(0, 0), (0, 1), (1, 0)],
       vol_AltitudeLowerM = Fin 0, vol_AltitudeUpperM = Fin 100, vol_AltitudeReference = AltitudeMSL, vol_StartsAt = 1000,
       vol_EndsAt = 9000\<rparr>]\<rparr>"

lemma words_not_blank:
  "\<not> blank ''A''" "\<not> blank ''c''" "\<not> blank ''g''" "\<not> blank ''f''" "\<not> blank ''i''" "\<not> blank ''p''" "\<not> blank ''v''" "\<not> blank ''s''"
  "\<not> blank ''1''" "supportedUnixNanoseconds 1000" "supportedUnixNanoseconds 9000"
  by code_simp+

lemma message_demo_accepted: "assignmentFromProto timestamppb_demo (Some message_demo) ''p'' = Inr assignment_demo"
proof -
  have pt: "validGeographicCoordinate (Fin x) (Fin y)" if "- 90 \<le> x" "x \<le> 90" "- 180 \<le> y" "y \<le> 180" for x y
    using that by (simp add: validGeographicCoordinate_def f_ge_def)
  show ?thesis
    by (simp add: assignmentFromProto_def message_demo_def timestamppb_demo_def volumeFromProto_def corner_def pt words_not_blank
        altitudeReferenceFromProto_def validAssignmentGeneration_def MaxInt64_def MaxInt32_def assignment_demo_def spec_demo_def)
qed

theorem accepted_assignment_roundtrip_witness:
  "assignmentFromProto timestamppb_demo (Some (assignmentToProto timestamppb_demo assignment_demo)) ''p'' = Inr assignment_demo"
  by (rule accepted_assignment_roundtrip [OF timestamppb_demo_ok message_demo_accepted])

theorem accepted_assignment_valid_witness:
  "envelope_valid ''s'' ''1'' ''assignment_prepared'' assignment_demo \<and> json_assignment assignment_demo \<and>
   validateAssignment assignment_demo
     \<lparr>pol_Version = ''p'', pol_HorizontalToleranceM = Fin 5, pol_VerticalToleranceM = Fin 3, pol_OpenAfterSamples = 3,
      pol_RecoverAfterSamples = 3, pol_TelemetryFreshness = 15\<rparr> = Inr ()"
  by (rule accepted_assignment_valid [OF timestamppb_demo_ok message_demo_accepted]) (simp_all add: words_not_blank)

section \<open>Lost answers\<close>

lemma find_inbox_recorded:
  assumes "PrepareAssignment E now source msg ty a d = Inr (res, d')"
  shows "\<exists>row out. lookup_inbox source msg d' = Some row \<and> in_hash row = assignment_hash E ty a \<and>
    in_outcome row = Some out \<and> (fst out = ApplyStale \<longleftrightarrow> apl_Disposition res = ApplyStale)"
  using assms
proof (cases rule: PrepareAssignment_cases)
  case (replay row)
  with assms show ?thesis
    by (auto simp: PrepareAssignment_def monad_splits Let_def split: option.splits prod.splits apply_disposition.splits if_splits)
next
  case (known current)
  let ?row = "inbox_entry now source msg (assignment_hash E ty a) ty (asg_ID a) (asg_Generation a) (apl_Disposition res, None)"
  have "lookup_inbox source msg d' = Some ?row"
    by (rule inbox_new [OF _ known(1)]) (use known(6) in \<open>auto simp: stmt\<close>)
  then show ?thesis by (intro exI [of _ ?row]) simp
next
  case stored
  let ?row = "inbox_entry now source msg (assignment_hash E ty a) ty (asg_ID a) (asg_Generation a) (ApplyApplied, None)"
  have "lookup_inbox source msg d' = Some ?row"
    by (rule inbox_new [OF store_candidate_Inr(4) [OF stored(6)] stored(2)]) simp_all
  then show ?thesis using stored(5) by (intro exI [of _ ?row]) simp
qed

lemma prepare_replay:
  assumes "lookup_inbox source msg d = Some row" "in_hash row = assignment_hash E ty a" "in_outcome row = Some out"
    and "envelope_valid source msg ty a" "json_assignment a"
  shows "PrepareAssignment E now source msg ty a d =
    Inr (\<lparr>apl_Disposition = (if fst out = ApplyStale then ApplyStale else ApplyIdempotent), apl_Assignment = a\<rparr>, d)"
  using assms by (cases out) (auto simp: PrepareAssignment_def Let_def split: apply_disposition.splits)

lemma prepare_valid:
  "PrepareAssignment E now source msg ty a d = Inr (res, d') \<Longrightarrow>
     envelope_valid source msg ty a \<and> json_assignment a \<and> apl_Assignment res = a"
  by (auto simp: PrepareAssignment_def monad_splits Let_def split: option.splits if_splits prod.splits apply_disposition.splits)

lemma steps_spec:
  assumes "(store_step E)\<^sup>*\<^sup>* d d'" "store_inv d" "lookup_row aid gen d = Some r"
  shows "\<exists>r'. lookup_row aid gen d' = Some r' \<and> ar_spec r' = ar_spec r"
  using assms
proof (induction rule: rtranclp_induct)
  case (step d1 d2)
  then obtain r1 where r1: "lookup_row aid gen d1 = Some r1" "ar_spec r1 = ar_spec r" by blast
  have inv: "store_inv d1" by (rule steps_store_inv [OF step.hyps(1) step.prems(1)])
  note mem = lookup_row_Some [OF r1(1)]
  from store_step_evolves [OF step.hyps(2) inv] mem obtain r2 where r2: "r2 \<in> set (assignments d2)" "row_step r1 r2"
    by (auto simp: evolves_def)
  have ok: "assignments_ok (assignments d2)"
    using store_step_inv [OF step.hyps(2) inv] by (simp add: store_inv_def timeline_inv_def)
  have "lookup_row aid gen d2 = Some r2" using lookup_row_mem [OF ok r2(1)] r2(2) mem by (simp add: row_step_def)
  then show ?case using r1(2) r2(2) by (simp add: row_step_def)
qed simp

lemma prepare_rpc_Inr:
  assumes "PrepareAssignment_rpc T E h now Reliable Reliable req d = (Inr resp, d')"
  obtains a res where "\<not> (blank (pq_Source req) \<or> blank (pq_MessageId req))"
    "assignmentFromProto T (pq_Assignment req) (hd_policyVersion h) = Inr a"
    "PrepareAssignment E now (pq_Source req) (pq_MessageId req) ''assignment_prepared'' a d = Inr (res, d')"
    "as_Disposition resp = apl_Disposition res"
    "apl_Disposition res = ApplyStale \<Longrightarrow> as_Assignment resp = None"
    "apl_Disposition res \<noteq> ApplyStale \<Longrightarrow> \<exists>r. lookup_row (asg_ID a) (asg_Generation a) d' = Some r \<and>
       as_Assignment resp = Some (assignmentRecordToProto T (scanAssignmentRecord r))"
proof -
  have named: "\<not> (blank (pq_Source req) \<or> blank (pq_MessageId req))"
    using assms by (auto simp: PrepareAssignment_rpc_def split: if_splits)
  obtain a where a: "assignmentFromProto T (pq_Assignment req) (hd_policyVersion h) = Inr a"
    using assms named by (cases "assignmentFromProto T (pq_Assignment req) (hd_policyVersion h)")
      (simp_all add: PrepareAssignment_rpc_def)
  let ?m = "PrepareAssignment E now (pq_Source req) (pq_MessageId req) ''assignment_prepared'' a d"
  obtain res d1 where run: "?m = Inr (res, d1)"
    using assms named a by (cases ?m) (auto simp: PrepareAssignment_rpc_def store_call_def)
  note valid = prepare_valid [OF run]
  let ?reply = "if apl_Disposition res = ApplyStale then (Inr \<lparr>as_Disposition = apl_Disposition res, as_Assignment = None\<rparr>, d1)
    else case GetAssignment (asg_ID a) (asg_Generation a) d1 of
        Inl e \<Rightarrow> (Inl (assignmentStatusError (CallStore e)), d1)
      | Inr record \<Rightarrow> (Inr \<lparr>as_Disposition = apl_Disposition res, as_Assignment = Some (assignmentRecordToProto T record)\<rparr>, d1)"
  have "PrepareAssignment_rpc T E h now Reliable Reliable req d = ?reply"
    using named a run valid
    by (cases "GetAssignment (asg_ID a) (asg_Generation a) d1")
      (simp_all add: PrepareAssignment_rpc_def store_call_def read_call_def)
  with assms have reply: "?reply = (Inr resp, d')" by simp
  then have "d1 = d'" by (auto split: if_splits sum.splits)
  moreover from reply have "as_Disposition resp = apl_Disposition res"
    "apl_Disposition res = ApplyStale \<Longrightarrow> as_Assignment resp = None"
    "apl_Disposition res \<noteq> ApplyStale \<Longrightarrow> \<exists>r. lookup_row (asg_ID a) (asg_Generation a) d1 = Some r \<and>
       as_Assignment resp = Some (assignmentRecordToProto T (scanAssignmentRecord r))"
    by (auto simp: GetAssignment_def monad_splits split: if_splits sum.splits option.splits)
  ultimately show thesis using that [OF named a] run by blast
qed

text \<open>
  C21: A lost answer. Suppose a preparation would be answered with a response. If the connection
  is lost after the commit the same database results, and sending the same request again at
  any later time, after any operations of others, is answered: stale again if it was stale,
  idempotent otherwise, with the same assignment, and nothing is written.
\<close>

theorem lost_answer_can_be_resent:
  assumes reach: "reachable E d" and first: "PrepareAssignment_rpc T E h now Reliable Reliable req d = (Inr resp, d1)"
    and steps: "(store_step E)\<^sup>*\<^sup>* d1 d2"
  shows "snd (PrepareAssignment_rpc T E h now (LostAfterCommit e) f req d) = d1 \<and>
    (\<exists>resp'. PrepareAssignment_rpc T E h later Reliable Reliable req d2 = (Inr resp', d2) \<and>
       as_Disposition resp' = (if as_Disposition resp = ApplyStale then ApplyStale else ApplyIdempotent) \<and>
       map_option pr_Assignment (as_Assignment resp') = map_option pr_Assignment (as_Assignment resp))"
  using first
proof (rule prepare_rpc_Inr)
  fix a res
  assume req: "\<not> (blank (pq_Source req) \<or> blank (pq_MessageId req))"
    "assignmentFromProto T (pq_Assignment req) (hd_policyVersion h) = Inr a"
    and run: "PrepareAssignment E now (pq_Source req) (pq_MessageId req) ''assignment_prepared'' a d = Inr (res, d1)"
    and disp: "as_Disposition resp = apl_Disposition res"
    and stale: "apl_Disposition res = ApplyStale \<Longrightarrow> as_Assignment resp = None"
    and live: "apl_Disposition res \<noteq> ApplyStale \<Longrightarrow> \<exists>r. lookup_row (asg_ID a) (asg_Generation a) d1 = Some r \<and>
       as_Assignment resp = Some (assignmentRecordToProto T (scanAssignmentRecord r))"
  have reach1: "reachable E d1" by (rule reachable.step [OF reach store_step.prepare [OF run]])
  note inv1 = reachable_store_inv [OF reach1] and valid = prepare_valid [OF run]
  obtain row out where row: "lookup_inbox (pq_Source req) (pq_MessageId req) d1 = Some row"
    "in_hash row = assignment_hash E ''assignment_prepared'' a" "in_outcome row = Some out"
    "fst out = ApplyStale \<longleftrightarrow> apl_Disposition res = ApplyStale" using find_inbox_recorded [OF run] by blast
  obtain new where "inbox d2 = inbox d1 @ new" using steps_append [OF steps inv1 reachable_ledger_inv [OF reach1]] by blast
  then have row2: "lookup_inbox (pq_Source req) (pq_MessageId req) d2 = Some row" using row(1) by (rule inbox_kept)
  have again: "PrepareAssignment E later (pq_Source req) (pq_MessageId req) ''assignment_prepared'' a d2 =
      Inr (\<lparr>apl_Disposition = (if apl_Disposition res = ApplyStale then ApplyStale else ApplyIdempotent), apl_Assignment = a\<rparr>, d2)"
    using prepare_replay [OF row2 row(2,3)] valid row(4) by simp
  have lost: "snd (PrepareAssignment_rpc T E h now (LostAfterCommit e) f req d) = d1"
    using req run by (simp add: PrepareAssignment_rpc_def store_call_def)
  show ?thesis
  proof (cases "apl_Disposition res = ApplyStale")
    case True
    then show ?thesis using lost req again disp stale by (simp add: PrepareAssignment_rpc_def store_call_def)
  next
    case False
    then obtain r where r: "lookup_row (asg_ID a) (asg_Generation a) d1 = Some r"
      "as_Assignment resp = Some (assignmentRecordToProto T (scanAssignmentRecord r))" using live by blast
    from steps_spec [OF steps inv1 r(1)] obtain r2 where r2: "lookup_row (asg_ID a) (asg_Generation a) d2 = Some r2" "ar_spec r2 = ar_spec r"
      by blast
    have "GetAssignment (asg_ID a) (asg_Generation a) d2 = Inr (scanAssignmentRecord r2)"
      using valid r2(1) by (auto simp: GetAssignment_def envelope_valid_def)
    then show ?thesis using lost req again disp False r(2) r2(2)
      by (simp add: PrepareAssignment_rpc_def store_call_def read_call_def assignmentRecordToProto_def)
  qed
qed

definition request_demo :: prepare_request where
  "request_demo = \<lparr>pq_Source = ''s'', pq_MessageId = ''1'', pq_Assignment = Some message_demo\<rparr>"

definition handler_demo :: handler where
  "handler_demo = \<lparr>hd_policyVersion = ''p'', hd_history = True\<rparr>"

lemma request_demo_answered:
  "\<exists>resp d1. PrepareAssignment_rpc timestamppb_demo store_env_demo handler_demo 5000 Reliable Reliable request_demo empty_db =
     (Inr resp, d1) \<and> as_Disposition resp = ApplyApplied"
proof -
  have ok: "\<not> isl (PrepareAssignment store_env_demo 5000 ''s'' ''1'' ''assignment_prepared'' assignment_demo empty_db)"
    "map_option row_key (lookup_row ''A'' 1 (after (PrepareAssignment store_env_demo 5000 ''s'' ''1'' ''assignment_prepared'' assignment_demo empty_db))) = Some (''A'', 1)"
    "apl_Disposition (fst (projr (PrepareAssignment store_env_demo 5000 ''s'' ''1'' ''assignment_prepared'' assignment_demo empty_db))) = ApplyApplied"
    by code_simp+
  let ?m = "PrepareAssignment store_env_demo 5000 ''s'' ''1'' ''assignment_prepared'' assignment_demo empty_db"
  obtain res d1 where run: "?m = Inr (res, d1)" using after_Inr [OF ok(1)] by blast
  then have facts: "apl_Assignment res = assignment_demo" "apl_Disposition res = ApplyApplied"
    "\<exists>r. lookup_row ''A'' 1 d1 = Some r" using prepare_valid [OF run] ok(2,3) by (auto simp: after_def)
  have "asg_ID assignment_demo = ''A''" "asg_Generation assignment_demo = 1" by (simp_all add: assignment_demo_def spec_demo_def)
  then show ?thesis using run facts message_demo_accepted words_not_blank
    by (auto simp: PrepareAssignment_rpc_def request_demo_def handler_demo_def store_call_def read_call_def GetAssignment_def MaxInt64_def)
qed

theorem lost_answer_can_be_resent_witness:
  "\<exists>d1 resp'. snd (PrepareAssignment_rpc timestamppb_demo store_env_demo handler_demo 5000 (LostAfterCommit CallCanceled) Reliable
      request_demo empty_db) = d1 \<and>
    PrepareAssignment_rpc timestamppb_demo store_env_demo handler_demo 6000 Reliable Reliable request_demo d1 = (Inr resp', d1) \<and>
    as_Disposition resp' = ApplyIdempotent"
proof -
  obtain resp d1 where r: "PrepareAssignment_rpc timestamppb_demo store_env_demo handler_demo 5000 Reliable Reliable request_demo empty_db =
      (Inr resp, d1)" "as_Disposition resp = ApplyApplied" using request_demo_answered by blast
  from lost_answer_can_be_resent [OF reachable.init r(1) rtranclp.rtrancl_refl, where e = CallCanceled and f = Reliable and later = 6000] r(2)
  show ?thesis by auto
qed

end
