(* ===== verification/Reading.thy ===== *)
theory Reading
  imports Ordering "HOL-Library.Multiset"
begin

text \<open>
  The bisection of a saturated window. Against a telemetry store that answers the query as it
  is written, with at most \<open>q_limit\<close> of the rows it selects, the complete read of the worker
  is the read of the whole window without a limit.
\<close>

section \<open>The telemetry store\<close>

text \<open>
  \<open>tel\<close> lists the rows of the measurement with the message and the schema of the query. A
  query selects the rows of its aircraft in its half-open window; \<open>serves\<close> is what SQL
  documents of \<^verbatim>\<open>SELECT ... WHERE ... LIMIT\<close>, whatever the order of the rows.
\<close>

definition in_query :: "influx_query \<Rightarrow> row \<Rightarrow> bool" where
  "in_query q row =
     (case (row ''time'', row ''aircraft_id'') of
        (VTime t, VString a) \<Rightarrow> q_start q \<le> t \<and> t < q_end q \<and> a \<in> set (q_aircraft q)
      | _ \<Rightarrow> False)"

definition serves :: "row list \<Rightarrow> runner \<Rightarrow> bool" where
  "serves tel runner \<longleftrightarrow>
     (\<forall>q. \<exists>rows. mset rows = mset (filter (in_query q) tel) \<and> runner q = Inr (take (q_limit q) rows))"

text \<open>The rows of one aircraft in a window.\<close>

definition rows_of :: "row list \<Rightarrow> string \<Rightarrow> gotime \<Rightarrow> gotime \<Rightarrow> row list" where
  "rows_of tel aircraft start end' =
     filter (in_query \<lparr>q_aircraft = [TrimSpace aircraft], q_start = start, q_end = end', q_limit = 0\<rparr>) tel"

definition decoded :: "fpu \<Rightarrow> (real \<Rightarrow> nat) \<Rightarrow> row list \<Rightarrow> observation list" where
  "decoded F oor rows = [o'. Inr o' \<leftarrow> map (decodeObservation F oor) rows]"

definition rejections :: "fpu \<Rightarrow> (real \<Rightarrow> nat) \<Rightarrow> row list \<Rightarrow> row_rejection list" where
  "rejections F oor rows =
     concat (map (\<lambda>row. case decodeObservation F oor row of
        Inl reason \<Rightarrow> [\<lparr>rj_FrameID = stringValue (row ''frame_id''), rj_Reason = reason\<rparr>] | Inr _ \<Rightarrow> []) rows)"

text \<open>The reference: everything in the window, in canonical order, one observation per frame.\<close>

definition whole_window ::
  "fpu \<Rightarrow> (real \<Rightarrow> nat) \<Rightarrow> row list \<Rightarrow> string \<Rightarrow> gotime \<Rightarrow> gotime \<Rightarrow> observation list" where
  "whole_window F oor tel aircraft start end' =
     unique_by obs_FrameID {} (sort_by positionBefore (decoded F oor (rows_of tel aircraft start end')))"

lemma in_query_iff:
  "in_query q row \<longleftrightarrow>
     (\<exists>t a. row ''time'' = VTime t \<and> row ''aircraft_id'' = VString a \<and> q_start q \<le> t \<and> t < q_end q \<and> a \<in> set (q_aircraft q))"
  by (simp add: in_query_def split: cell.splits)

section \<open>One observation per frame\<close>

lemma unique_by_append: "unique_by k S (xs @ ys) = unique_by k S xs @ unique_by k (S \<union> k ` set xs) ys"
  by (induction xs arbitrary: S) (auto simp: insert_absorb)

lemma unique_by_keys: "k ` set (unique_by k S xs) = k ` set xs - S"
  by (induction xs arbitrary: S) auto

lemma unique_by_unique_by: "unique_by k T (unique_by k S xs) = unique_by k (S \<union> T) xs"
  by (induction xs arbitrary: S T) (auto simp: insert_absorb)

lemma unique_by_merge:
  "unique_by k {} (unique_by k {} xs @ unique_by k {} ys) = unique_by k {} (xs @ ys)"
  by (simp add: unique_by_append unique_by_keys unique_by_unique_by)

lemma unique_by_props:
  "set (unique_by k S xs) \<subseteq> set xs" "distinct (map k (unique_by k S xs))"
  "x \<in> set (unique_by k S xs) \<Longrightarrow> k x \<notin> S"
proof -
  show "set (unique_by k S xs) \<subseteq> set xs" for S by (induction xs arbitrary: S) auto
  show keys: "x \<in> set (unique_by k S xs) \<Longrightarrow> k x \<notin> S" for S x using unique_by_keys [of k S xs] by auto
  show "distinct (map k (unique_by k S xs))"
  proof (induction xs arbitrary: S)
    case (Cons x xs)
    have "k x \<notin> k ` set (unique_by k (insert (k x) S) xs)" by (simp add: unique_by_keys)
    with Cons show ?case by simp
  qed simp
qed

section \<open>Canonical order\<close>

text \<open>On the cursor the sort of the reader is the stable sort of the library.\<close>

lemma sort_by_position: "sort_by positionBefore xs = sort_key position xs"
proof -
  have "insert_by positionBefore x ys = insort_key position x ys" for x ys
    by (induction ys) (auto simp: before_is_position_less)
  then show ?thesis by (induction xs) simp_all
qed

lemma mset_decoded: "mset xs = mset ys \<Longrightarrow> mset (decoded F oor xs) = mset (decoded F oor ys)"
proof -
  have "mset (decoded F oor zs) = (\<Sum>row \<in># mset zs. mset (decoded F oor [row]))" for zs
    by (induction zs) (auto simp: decoded_def)
  then show "mset xs = mset ys \<Longrightarrow> ?thesis" by metis
qed

lemma mset_rejections: "mset xs = mset ys \<Longrightarrow> mset (rejections F oor xs) = mset (rejections F oor ys)"
proof -
  have "mset (rejections F oor zs) = (\<Sum>row \<in># mset zs. mset (rejections F oor [row]))" for zs
    by (induction zs) (auto simp: rejections_def)
  then show "mset xs = mset ys \<Longrightarrow> ?thesis" by metis
qed

text \<open>
  Rows at one position carry one observation: a repeated write of a frame repeats it exactly.
\<close>

definition consistent :: "fpu \<Rightarrow> (real \<Rightarrow> nat) \<Rightarrow> row list \<Rightarrow> bool" where
  "consistent F oor tel \<longleftrightarrow> inj_on position (set (decoded F oor tel))"

lemma set_decoded: "o' \<in> set (decoded F oor rows) \<longleftrightarrow> (\<exists>row\<in>set rows. decodeObservation F oor row = Inr o')"
  by (auto simp: decoded_def split: sum.splits) force

lemma consistent_part: "consistent F oor tel \<Longrightarrow> set rows \<subseteq> set tel \<Longrightarrow> inj_on position (set (decoded F oor rows))"
  unfolding consistent_def by (erule inj_on_subset) (use set_decoded in blast)

lemma decode_time: "decodeObservation F oor row = Inr o' \<Longrightarrow> row ''time'' = VTime (obs_ObservedAt o')"
  by (auto simp: decodeObservation_def monad_splits Let_def split: cell.splits option.splits if_splits)

lemma sort_same_rows:
  assumes "consistent F oor tel" "mset rows = mset rows'" "set rows' \<subseteq> set tel"
  shows "sort_by positionBefore (decoded F oor rows) = sort_by positionBefore (decoded F oor rows')"
proof -
  have "set rows = set rows'" using assms(2) by (rule mset_eq_setD)
  then have "inj_on position (set (decoded F oor rows))" using assms(1,3) by (auto intro: consistent_part)
  then show ?thesis
    unfolding sort_by_position by (rule sort_key_inj_key_eq [OF _ _ sorted_sort_key, rotated])
      (simp add: mset_decoded [OF assms(2)])
qed

section \<open>One read\<close>

lemma decode_rows_total:
  "\<forall>row\<in>set rows. decodeObservation F oor row \<noteq> Inl WALIdentityMissing \<Longrightarrow>
     decode_rows F oor rows = Inr (decoded F oor rows, rejections F oor rows)"
  by (induction rows) (auto simp: decoded_def rejections_def split: sum.splits row_error.splits)

lemma uniqueIDs_single: "\<not> blank a \<Longrightarrow> uniqueIDs [a] = [TrimSpace a]"
  by (simp add: uniqueIDs_def blank_def)

lemma chunks_single: "0 < n \<Longrightarrow> chunks n [x] = [[x]]"
  by (simp add: chunks.simps)

lemma ReadPositions_window:
  assumes "serves tel runner" "0 < rd_chunkSize r" "\<not> blank aircraft" "zero_time < start" "start < end'"
    and wal: "\<forall>row\<in>set tel. decodeObservation F oor row \<noteq> Inl WALIdentityMissing" and con: "consistent F oor tel"
  shows "if length (rows_of tel aircraft start end') < rd_maxRows r
    then \<exists>rejected. ReadPositions F oor runner r [aircraft] start end' =
        Inr \<lparr>rr_Observations = whole_window F oor tel aircraft start end', rr_Rejections = rejected\<rparr> \<and>
        mset rejected = mset (rejections F oor (rows_of tel aircraft start end'))
    else ReadPositions F oor runner r [aircraft] start end' = Inl ErrWindowSaturated"
proof -
  let ?q = "\<lparr>q_aircraft = [TrimSpace aircraft], q_start = start, q_end = end', q_limit = rd_maxRows r\<rparr>"
  have same: "filter (in_query ?q) tel = rows_of tel aircraft start end'"
    unfolding rows_of_def by (rule arg_cong [of _ _ "\<lambda>P. filter P tel"]) (simp add: in_query_iff fun_eq_iff)
  obtain rows where rows: "mset rows = mset (rows_of tel aircraft start end')" "runner ?q = Inr (take (rd_maxRows r) rows)"
    using assms(1) same unfolding serves_def by (metis influx_query.select_convs(4))
  have len: "length rows = length (rows_of tel aircraft start end')" using rows(1) by (rule mset_eq_length)
  have part: "set (rows_of tel aircraft start end') \<subseteq> set tel" by (auto simp: rows_of_def)
  have read: "ReadPositions F oor runner r [aircraft] start end' =
      ebind (read_chunks F oor runner r start end' [[TrimSpace aircraft]]) (\<lambda>(all, rejected).
        Inr \<lparr>rr_Observations = unique_by obs_FrameID {} (sort_by positionBefore all), rr_Rejections = rejected\<rparr>)"
    using assms by (simp add: ReadPositions_def uniqueIDs_single chunks_single IsZero_def)
  show ?thesis
  proof (cases "length (rows_of tel aircraft start end') < rd_maxRows r")
    case True
    have "\<forall>row\<in>set rows. decodeObservation F oor row \<noteq> Inl WALIdentityMissing"
      using wal part mset_eq_setD [OF rows(1)] by blast
    then have "read_chunks F oor runner r start end' [[TrimSpace aircraft]] = Inr (decoded F oor rows, rejections F oor rows)"
      using True len rows(2) by (simp add: queryChunk_def decode_rows_total)
    then show ?thesis
      using True sort_same_rows [OF con rows(1) part] mset_rejections [OF rows(1)] by (simp add: read whole_window_def)
  next
    case False
    then show ?thesis using rows(2) len by (simp add: read queryChunk_def)
  qed
qed

section \<open>Bisection\<close>

lemma window_middle_between:
  "start + 1 < end' \<Longrightarrow> start < window_middle start end' \<and> window_middle start end' < end'"
proof -
  assume w: "start + 1 < end'"
  define d where "d = Sub end' start"
  have d: "2 \<le> d" "d \<le> end' - start" using w by (auto simp: d_def Sub_def)
  have "quot d 2 = d div 2" using d by (simp add: quot_def)
  then show ?thesis using d unfolding window_middle_def d_def [symmetric] by linarith
qed

lemma rows_of_split:
  assumes "start < middle" "middle < end'"
  shows "mset (rows_of tel a start middle @ rows_of tel a middle end') = mset (rows_of tel a start end')"
  using assms by (induction tel) (auto simp: rows_of_def in_query_iff not_less)

lemma decoded_append: "decoded F oor (xs @ ys) = decoded F oor xs @ decoded F oor ys"
  by (simp add: decoded_def)

lemma decoded_window:
  "o' \<in> set (decoded F oor (rows_of tel a start end')) \<Longrightarrow> start \<le> obs_ObservedAt o' \<and> obs_ObservedAt o' < end'"
  by (auto simp: set_decoded rows_of_def in_query_iff dest!: decode_time)

lemma whole_window_split:
  assumes con: "consistent F oor tel" and m: "start < middle" "middle < end'"
  shows "unique_by obs_FrameID {} (whole_window F oor tel a start middle @ whole_window F oor tel a middle end') =
    whole_window F oor tel a start end'"
proof -
  let ?l = "decoded F oor (rows_of tel a start middle)" and ?r = "decoded F oor (rows_of tel a middle end')"
  have "mset (sort_key position ?l @ sort_key position ?r) = mset (?l @ ?r)" by simp
  moreover have "inj_on position (set (?l @ ?r))"
    using consistent_part [OF con, of "rows_of tel a start middle @ rows_of tel a middle end'"]
    by (auto simp: decoded_append rows_of_def)
  moreover have "sorted (map position (sort_key position ?l @ sort_key position ?r))"
  proof -
    have "position x \<le> position y" if "x \<in> set ?l" "y \<in> set ?r" for x y
      using decoded_window [OF that(1)] decoded_window [OF that(2)] by (simp add: position_def less_eq_prod_def)
    then show ?thesis by (auto simp: sorted_append)
  qed
  ultimately have "sort_key position (?l @ ?r) = sort_key position ?l @ sort_key position ?r"
    by (intro sort_key_inj_key_eq) simp_all
  moreover have "sort_by positionBefore (?l @ ?r) = sort_by positionBefore (decoded F oor (rows_of tel a start end'))"
    using sort_same_rows [OF con rows_of_split [OF m]] by (auto simp: decoded_append rows_of_def)
  ultimately show ?thesis by (simp add: whole_window_def unique_by_merge sort_by_position)
qed

lemma complete_read:
  assumes "serves tel runner" "0 < rd_chunkSize r" "\<not> blank aircraft" "zero_time < start" "start < end'"
    and "\<forall>row\<in>set tel. decodeObservation F oor row \<noteq> Inl WALIdentityMissing" and "consistent F oor tel"
    and "\<And>t. start \<le> t \<Longrightarrow> t < end' \<Longrightarrow> length (rows_of tel aircraft t (t + 1)) < rd_maxRows r"
  shows "\<exists>rejected. readComplete F oor runner r aircraft start end' =
      Inr \<lparr>rr_Observations = whole_window F oor tel aircraft start end', rr_Rejections = rejected\<rparr> \<and>
      mset rejected = mset (rejections F oor (rows_of tel aircraft start end'))"
  using assms(4,5,8)
proof (induction "nat (end' - start)" arbitrary: start end' rule: less_induct)
  case less
  note one = ReadPositions_window [OF assms(1-3) less.prems(1,2) assms(6,7)]
  show ?case
  proof (cases "length (rows_of tel aircraft start end') < rd_maxRows r")
    case True
    with one show ?thesis by (auto simp: readComplete.simps [of F oor runner r aircraft start end'])
  next
    case False
    with less.prems(2,3) have "end' \<noteq> start + 1" by auto
    with less.prems(2) have m: "start < window_middle start end'" "window_middle start end' < end'"
      using window_middle_between [of start end'] by auto
    let ?m = "window_middle start end'"
    obtain lrej where l: "readComplete F oor runner r aircraft start ?m =
        Inr \<lparr>rr_Observations = whole_window F oor tel aircraft start ?m, rr_Rejections = lrej\<rparr>"
      "mset lrej = mset (rejections F oor (rows_of tel aircraft start ?m))"
      using less.hyps [of ?m start] less.prems m by auto
    obtain rrej where r: "readComplete F oor runner r aircraft ?m end' =
        Inr \<lparr>rr_Observations = whole_window F oor tel aircraft ?m end', rr_Rejections = rrej\<rparr>"
      "mset rrej = mset (rejections F oor (rows_of tel aircraft ?m end'))"
      using less.hyps [of end' ?m] less.prems m by auto
    have "mset (lrej @ rrej) = mset (rejections F oor (rows_of tel aircraft start end'))"
      using l(2) r(2) mset_rejections [OF rows_of_split [OF m], of F oor tel aircraft] by (simp add: rejections_def)
    moreover have "readComplete F oor runner r aircraft start end' =
        Inr \<lparr>rr_Observations = whole_window F oor tel aircraft start end', rr_Rejections = lrej @ rrej\<rparr>"
      using False one m l(1) r(1) whole_window_split [OF assms(7) m]
      by (simp add: readComplete.simps [of F oor runner r aircraft start end'] merge_reads_def)
    ultimately show ?thesis by blast
  qed
qed

text \<open>
  C11: Complete reads. Let the telemetry store serve its rows as the query asks, at most
  \<^verbatim>\<open>maxRows\<close> of them, and let no single nanosecond hold \<^verbatim>\<open>maxRows\<close> rows of the aircraft. Then the
  bisection of the worker returns for every window, however many rows it holds, and gives the
  observations of all its rows in canonical order with one observation per frame, exactly as a
  read without a limit would, and the rejections of all rows that cannot be decoded.
\<close>

theorem readComplete_is_whole_window:
  assumes "serves tel runner" "0 < rd_chunkSize r" "\<not> blank aircraft" "zero_time < start" "start < end'"
    and "\<forall>row\<in>set tel. decodeObservation F oor row \<noteq> Inl WALIdentityMissing" and "consistent F oor tel"
    and "\<And>t. start \<le> t \<Longrightarrow> t < end' \<Longrightarrow> length (rows_of tel aircraft t (t + 1)) < rd_maxRows r"
  shows "\<exists>rejected. readComplete F oor runner r aircraft start end' =
      Inr \<lparr>rr_Observations = whole_window F oor tel aircraft start end', rr_Rejections = rejected\<rparr> \<and>
      mset rejected = mset (rejections F oor (rows_of tel aircraft start end'))"
  by (rule complete_read [OF assms])

section \<open>Three rows and a limit of two\<close>

definition row_demo :: "string \<Rightarrow> nat \<Rightarrow> gotime \<Rightarrow> row" where
  "row_demo frame seq t =
     (\<lambda>c. VNil)(''time'' := VTime t, ''frame_id'' := VString frame, ''agent_id'' := VString ''g'',
       ''aircraft_id'' := VString ''c'', ''wal_id'' := VString ''w'', ''wal_sequence'' := VUint64 seq,
       ''latitude_deg'' := VFloat64 (Fin 0), ''longitude_deg'' := VFloat64 (Fin 0), ''flight_id'' := VString ''f'',
       ''intent_id'' := VString ''i'', ''intent_version'' := VUint64 1)"

definition observation_demo :: "string \<Rightarrow> nat \<Rightarrow> gotime \<Rightarrow> observation" where
  "observation_demo frame seq t =
     \<lparr>obs_FrameID = frame, obs_AgentID = ''g'', obs_WALID = ''w'', obs_WALSequence = seq, obs_AircraftID = ''c'',
      obs_FlightID = ''f'', obs_IntentID = ''i'', obs_IntentVersion = 1, obs_Latitude = Fin 0, obs_Longitude = Fin 0,
      obs_AltitudeM = Fin 0, obs_AltitudeKnown = False, obs_AltitudeReference = AltitudeUnset, obs_ObservedAt = t\<rparr>"

lemma demo_words: "\<not> blank ''g''" "\<not> blank ''c''" "\<not> blank ''w''" "\<not> blank ''x''" "\<not> blank ''y''" "TrimSpace ''c'' = ''c''"
  by code_simp+

lemma row_demo_decodes:
  "\<not> blank frame \<Longrightarrow> decodeObservation F oor (row_demo frame seq t) = Inr (observation_demo frame seq t)"
  by (simp add: decodeObservation_def row_demo_def observation_demo_def requiredString_def demo_words uintValue_def floatValue_def
      uint32Value_def stringValue_def MaxUint32_def)

lemma row_demo_in_query:
  "in_query q (row_demo frame seq t) \<longleftrightarrow> q_start q \<le> t \<and> t < q_end q \<and> ''c'' \<in> set (q_aircraft q)"
  by (simp add: in_query_iff row_demo_def)

definition telemetry_demo :: "row list" where
  "telemetry_demo = [row_demo ''y'' 2 1003, row_demo ''x'' 1 1000, row_demo ''y'' 2 1004]"

definition runner_of :: "row list \<Rightarrow> runner" where
  "runner_of tel q = Inr (take (q_limit q) (filter (in_query q) tel))"

lemma serves_runner_of: "serves tel (runner_of tel)"
  unfolding serves_def runner_of_def by (metis (no_types))

lemma decoded_demo:
  "decoded F oor telemetry_demo = [observation_demo ''y'' 2 1003, observation_demo ''x'' 1 1000, observation_demo ''y'' 2 1004]"
  by (simp add: decoded_def telemetry_demo_def row_demo_decodes demo_words)

lemma consistent_demo: "consistent F oor telemetry_demo"
  by (simp add: consistent_def decoded_demo position_def observation_demo_def)

lemma whole_window_demo:
  "whole_window F oor telemetry_demo ''c'' 1000 1010 = [observation_demo ''x'' 1 1000, observation_demo ''y'' 2 1003]"
proof -
  have "rows_of telemetry_demo ''c'' 1000 1010 = telemetry_demo"
    by (simp add: rows_of_def telemetry_demo_def row_demo_in_query demo_words)
  then show ?thesis by (simp add: whole_window_def decoded_demo positionBefore_def observation_demo_def)
qed

theorem readComplete_is_whole_window_witness:
  "\<exists>rejected. readComplete exact_fpu (\<lambda>_. 0) (runner_of telemetry_demo) \<lparr>rd_chunkSize = 1, rd_maxRows = 2\<rparr> ''c'' 1000 1010 =
     Inr \<lparr>rr_Observations = [observation_demo ''x'' 1 1000, observation_demo ''y'' 2 1003], rr_Rejections = rejected\<rparr>"
proof -
  have sparse: "length (rows_of telemetry_demo ''c'' t (t + 1)) < 2" for t
    by (auto simp: rows_of_def telemetry_demo_def row_demo_in_query demo_words)
  have "\<forall>row\<in>set telemetry_demo. decodeObservation exact_fpu (\<lambda>_. 0) row \<noteq> Inl WALIdentityMissing"
    by (simp add: telemetry_demo_def row_demo_decodes demo_words)
  from readComplete_is_whole_window [OF serves_runner_of _ demo_words(2) _ _ this consistent_demo,
      of "\<lparr>rd_chunkSize = 1, rd_maxRows = 2\<rparr>" 1000 1010] sparse
  show ?thesis by (auto simp: zero_time_def whole_window_demo)
qed

end
