(* ===== verification/Decoding.thy ===== *)
theory Decoding
  imports Reading
begin

text \<open>
  What a decoded row is worth: identifiers are present, numbers are in the range of their Go
  type, coordinates are on the globe, and an altitude is only known with its reference.
\<close>

text \<open>The range of the integer types a column can have.\<close>

definition cell_typed :: "cell \<Rightarrow> bool" where
  "cell_typed v =
     (case v of VUint64 n \<Rightarrow> n \<le> MaxUint64 | VInt64 n \<Rightarrow> - (2 ^ 63) \<le> n \<and> n < 2 ^ 63 | _ \<Rightarrow> True)"

definition position_known :: "observation \<Rightarrow> bool" where
  "position_known o' \<longleftrightarrow>
     \<not> blank (obs_FrameID o') \<and> \<not> blank (obs_AgentID o') \<and> \<not> blank (obs_WALID o') \<and> \<not> blank (obs_AircraftID o') \<and>
     validCoordinate (obs_Latitude o') (obs_Longitude o')"

definition altitude_sound :: "observation \<Rightarrow> bool" where
  "altitude_sound o' \<longleftrightarrow>
     (if obs_AltitudeKnown o' then finite64 (obs_AltitudeM o') \<and> obs_AltitudeReference o' = AltitudeMSL
      else obs_AltitudeM o' = Fin 0 \<and> obs_AltitudeReference o' = AltitudeUnset)"

lemma uintValue_bound:
  assumes "uintValue oor v = Some n" "cell_typed v" "\<And>x. oor x \<le> MaxUint64"
  shows "n \<le> MaxUint64"
proof (cases v)
  case (VFloat64 f)
  show ?thesis
  proof (cases f)
    case (Fin x)
    have "nat \<lfloor>x\<rfloor> \<le> MaxUint64" if "x < 2 ^ 64"
    proof -
      have "\<lfloor>x\<rfloor> < 2 ^ 64" using that by (simp add: floor_less_iff)
      then have "nat \<lfloor>x\<rfloor> \<le> nat (2 ^ 64 - 1)" by (intro nat_mono) linarith
      then show ?thesis by (simp add: MaxUint64_def)
    qed
    then show ?thesis using assms Fin VFloat64 by (auto simp: uintValue_def uint64_of_float_def split: if_splits)
  qed (use assms VFloat64 in \<open>simp_all add: uintValue_def\<close>)
next
  case (VString s)
  then show ?thesis using assms(1) by (auto simp: uintValue_def ParseUint_def split: if_splits)
next
  case (VInt64 k)
  then show ?thesis using assms(1,2) by (auto simp: uintValue_def cell_typed_def MaxUint64_def split: if_splits)
qed (use assms in \<open>simp_all add: uintValue_def cell_typed_def\<close>)

lemma uint32Value_bound: "uint32Value oor v \<le> MaxUint32"
  by (simp add: uint32Value_def split: option.splits)

lemma requiredString_Inr: "requiredString row name = Inr s \<longleftrightarrow> row name = VString s \<and> \<not> blank s"
  by (auto simp: requiredString_def split: cell.splits if_splits)

lemma floatValue_finite: "floatValue F v = Some x \<Longrightarrow> finite64 x"
  by (auto simp: floatValue_def Let_def split: cell.splits if_splits)

lemma decode_Inr:
  assumes "decodeObservation F oor row = Inr o'"
  shows "position_known o'" "altitude_sound o'" "uintValue oor (row ''wal_sequence'') = Some (obs_WALSequence o')"
    "obs_IntentVersion o' = uint32Value oor (row ''intent_version'')" "row ''aircraft_id'' = VString (obs_AircraftID o')"
proof -
  obtain t fr ag ai wa sq lat lon where
    ids: "row ''time'' = VTime t" "requiredString row ''frame_id'' = Inr fr" "requiredString row ''agent_id'' = Inr ag"
      "requiredString row ''aircraft_id'' = Inr ai" "requiredString row ''wal_id'' = Inr wa"
    and sq: "uintValue oor (row ''wal_sequence'') = Some sq"
    and lat: "floatValue F (row ''latitude_deg'') = Some lat" "\<not> f_lt lat (Fin (- 90))" "\<not> f_lt (Fin 90) lat"
    and lon: "floatValue F (row ''longitude_deg'') = Some lon" "\<not> f_lt lon (Fin (- 180))" "\<not> f_lt (Fin 180) lon"
    using assms by (auto simp: decodeObservation_def monad_splits split: cell.splits option.splits if_splits sum.splits)
  have coord: "validCoordinate lat lon"
    using floatValue_finite [OF lat(1)] floatValue_finite [OF lon(1)] lat(2,3) lon(2,3)
    by (cases lat; cases lon) (auto simp: validCoordinate_def finite_def)
  show "position_known o'" "altitude_sound o'" "uintValue oor (row ''wal_sequence'') = Some (obs_WALSequence o')"
    "obs_IntentVersion o' = uint32Value oor (row ''intent_version'')" "row ''aircraft_id'' = VString (obs_AircraftID o')"
    using assms ids lat lon sq coord
    by (auto simp: decodeObservation_def position_known_def altitude_sound_def requiredString_Inr floatValue_finite Let_def
        split: option.splits)
qed

text \<open>
  C33: Decoded rows. Whatever a row holds, if it is decoded then the frame, agent, WAL and aircraft
  identifiers are not blank, the coordinates are finite and on the globe, the WAL sequence and
  the intent version fit their 64 and 32 bits, and an altitude is known only as a finite height
  above mean sea level.
\<close>

theorem decoded_rows_are_sound:
  assumes "decodeObservation F oor row = Inr o'" "cell_typed (row ''wal_sequence'')" "\<And>x. oor x \<le> MaxUint64"
  shows "position_known o' \<and> altitude_sound o' \<and> obs_WALSequence o' \<le> MaxUint64 \<and> obs_IntentVersion o' \<le> MaxUint32"
  using decode_Inr [OF assms(1)] uintValue_bound [OF _ assms(2,3)] uint32Value_bound by simp

theorem decoded_rows_are_sound_witness:
  "position_known (observation_demo ''x'' 1 1000) \<and> altitude_sound (observation_demo ''x'' 1 1000) \<and>
   obs_WALSequence (observation_demo ''x'' 1 1000) \<le> MaxUint64 \<and> obs_IntentVersion (observation_demo ''x'' 1 1000) \<le> MaxUint32"
  by (rule decoded_rows_are_sound [OF row_demo_decodes [OF demo_words(4), where F = exact_fpu and oor = "\<lambda>_. 0"]])
    (simp_all add: row_demo_def cell_typed_def MaxUint64_def)

end
