(* ===== verification/Worker_Selection.thy ===== *)
theory Worker_Selection
  imports Decoding Evaluation Store_Demo
begin

text \<open>
  From telemetry to a commit: which observations the worker hands to the evaluator, and that
  nothing but the store can then make a claim fail.
\<close>

section \<open>New frames\<close>

text \<open>The telemetry of the aircraft is served, complete and unambiguous.\<close>

definition telemetry_ok :: "worker_env \<Rightarrow> row list \<Rightarrow> string \<Rightarrow> bool" where
  "telemetry_ok W tel aircraft \<longleftrightarrow>
     serves tel (we_runner W) \<and> 0 < rd_chunkSize (we_reader W) \<and>
     (\<forall>row\<in>set tel. decodeObservation (we_fpu W) (we_out_of_range W) row \<noteq> Inl WALIdentityMissing) \<and>
     inj_on obs_FrameID (set (decoded (we_fpu W) (we_out_of_range W) tel)) \<and>
     (\<forall>t. length (rows_of tel aircraft t (t + 1)) < rd_maxRows (we_reader W))"

text \<open>
  The observations a claim is about: those of its aircraft, agent, flight and intent inside its
  authority, settled before \<open>end'\<close> and, in the lexicographic order of the cursor, beyond the
  checkpoint.
\<close>

definition beyond :: "replay_checkpoint option \<Rightarrow> observation \<Rightarrow> bool" where
  "beyond cp o' =
     (case cp of None \<Rightarrow> True
      | Some k \<Rightarrow> (rc_StateThroughAt k, rc_WALID k, rc_WALSequence k, rc_FrameID k) <
          (obs_ObservedAt o', obs_WALID o', obs_WALSequence o', obs_FrameID o'))"

definition new_frames ::
  "worker_env \<Rightarrow> row list \<Rightarrow> claim \<Rightarrow> replay_checkpoint option \<Rightarrow> gotime \<Rightarrow> observation set" where
  "new_frames W tel c cp end' =
     {o'. o' \<in> set (decoded (we_fpu W) (we_out_of_range W) tel) \<and> obs_AircraftID o' = asg_AircraftID (cl_Assignment c) \<and>
          obs_AgentID o' = asg_AgentID (cl_Assignment c) \<and> obs_FlightID o' = asg_FlightID (cl_Assignment c) \<and>
          obs_IntentID o' = asg_IntentID (cl_Assignment c) \<and> obs_IntentVersion o' = asg_IntentVersion (cl_Assignment c) \<and>
          cl_AuthorityFrom c \<le> obs_ObservedAt o' \<and> obs_ObservedAt o' < end' \<and> beyond cp o'}"

lemma set_unique_by: "inj_on k (set xs) \<Longrightarrow> set (unique_by k {} xs) = set xs"
  using inj_on_image_eq_iff [of k "set xs" "set (unique_by k {} xs)" "set xs"] unique_by_keys [of k "{}" xs]
    unique_by_props(1) [of k "{}" xs] by auto

lemma frames_consistent: "inj_on obs_FrameID (set (decoded F oor tel)) \<Longrightarrow> consistent F oor tel"
  unfolding consistent_def by (rule inj_onI) (auto simp: position_def dest: inj_onD)

lemma set_whole_window:
  assumes "inj_on obs_FrameID (set (decoded F oor tel))" "TrimSpace a = a"
  shows "set (whole_window F oor tel a start end') =
    {o'. o' \<in> set (decoded F oor tel) \<and> obs_AircraftID o' = a \<and> start \<le> obs_ObservedAt o' \<and> obs_ObservedAt o' < end'}"
proof -
  have in_window: "o' \<in> set (decoded F oor (rows_of tel a start end')) \<longleftrightarrow>
      o' \<in> set (decoded F oor tel) \<and> obs_AircraftID o' = a \<and> start \<le> obs_ObservedAt o' \<and> obs_ObservedAt o' < end'" for o'
    using assms(2) decode_time decode_Inr(5)
    by (fastforce simp: set_decoded rows_of_def in_query_iff)
  then have "inj_on obs_FrameID (set (decoded F oor (rows_of tel a start end')))"
    by (intro inj_on_subset [OF assms(1)]) blast
  then show ?thesis using in_window by (auto simp: whole_window_def set_unique_by)
qed

lemma distinct_whole_window: "distinct (map obs_FrameID (whole_window F oor tel a start end'))"
  unfolding whole_window_def by (rule unique_by_props(2))

section \<open>The suffix\<close>

lemma window_start_before:
  "0 < wc_OverlapWindow cfg \<Longrightarrow> cl_AuthorityFrom c \<le> window_start cfg c cp \<and>
     (case cp of None \<Rightarrow> window_start cfg c cp = cl_AuthorityFrom c
      | Some k \<Rightarrow> window_start cfg c cp = cl_AuthorityFrom c \<or> window_start cfg c cp < rc_StateThroughAt k)"
  by (auto simp: window_start_def Let_def split: option.splits)

lemma beyond_afterCheckpoint: "beyond cp o' \<longleftrightarrow> (case cp of None \<Rightarrow> True | Some k \<Rightarrow> afterCheckpoint o' k)"
  by (auto simp: beyond_def afterCheckpoint_def less_prod_def less_eq_prod_def split: option.splits)

lemma beyond_at: "beyond (Some k) o' \<Longrightarrow> rc_StateThroughAt k \<le> obs_ObservedAt o'"
  by (auto simp: beyond_def less_prod_def less_eq_prod_def)

lemma suffix_of_window:
  fixes cp :: "replay_checkpoint option" and now :: gotime
  assumes inj: "inj_on obs_FrameID (set (decoded (we_fpu W) (we_out_of_range W) tel))"
    and trim: "TrimSpace (asg_AircraftID (cl_Assignment c)) = asg_AircraftID (cl_Assignment c)"
    and cfg: "0 < wc_OverlapWindow cfg"
  defines "seen \<equiv> whole_window (we_fpu W) (we_out_of_range W) tel (asg_AircraftID (cl_Assignment c))
    (window_start cfg c cp) (window_end cfg now c)"
  shows "sorted_wrt workerBefore (evaluableSuffix seen c cp)"
    "set (evaluableSuffix seen c cp) = new_frames W tel c cp (window_end cfg now c)"
proof -
  have d: "distinct (map obs_FrameID seen)" unfolding seen_def by (rule distinct_whole_window)
  show "sorted_wrt workerBefore (evaluableSuffix seen c cp)"
    unfolding evaluableSuffix_def
    by (rule worker_order.sort_by_strict, rule distinct_frames_positions) (rule distinct_map_filter [OF d])
  have auth: "window_end cfg now c \<le> cl_AuthorityUntil c" by (simp add: window_end_def Let_def)
  show "set (evaluableSuffix seen c cp) = new_frames W tel c cp (window_end cfg now c)"
  proof (rule set_eqI)
    fix o'
    show "o' \<in> set (evaluableSuffix seen c cp) \<longleftrightarrow> o' \<in> new_frames W tel c cp (window_end cfg now c)"
      using auth window_start_before [OF cfg, of c cp] beyond_at [of "the cp" o'] beyond_afterCheckpoint [of cp o']
      by (cases cp) (auto simp: evaluableSuffix_def new_frames_def attributed_def seen_def set_whole_window [OF inj trim])
  qed
qed

lemma canonical_sorted:
  "sorted_wrt workerBefore xs \<Longrightarrow> (\<And>o' x. prior = Some o' \<Longrightarrow> x \<in> set xs \<Longrightarrow> workerBefore o' x) \<Longrightarrow> canonical prior xs"
proof (induction xs arbitrary: prior)
  case (Cons x xs)
  have "canonical (Some x) xs" using Cons.prems(1) by (intro Cons.IH) auto
  moreover have "\<not> observationBefore x o'" if "prior = Some o'" for o'
    using Cons.prems(2) [OF that, of x] by (auto simp: before_is_position_less)
  ultimately show ?case by (auto split: option.splits)
qed simp

lemma new_frame_matches:
  assumes "o' \<in> new_frames W tel c cp end'" "zero_time < cl_AuthorityFrom c"
  shows "observation_matches (evaluation_assignment c) o'"
proof -
  obtain row where row: "decodeObservation (we_fpu W) (we_out_of_range W) row = Inr o'"
    using assms(1) by (auto simp: new_frames_def set_decoded)
  have "\<not> IsZero (obs_ObservedAt o')" using assms by (auto simp: new_frames_def IsZero_def)
  then show ?thesis using decode_Inr(1,2) [OF row] assms(1)
    by (auto simp: observation_matches_def evaluation_assignment_def new_frames_def position_known_def
        altitude_sound_def finite64_iff finite_def not_blank_not_empty split: if_splits)
qed

lemma new_frames_evaluate:
  assumes "sorted_wrt workerBefore xs" "set xs = new_frames W tel c cp end'" "xs \<noteq> []" "zero_time < cl_AuthorityFrom c"
    and "validateAssignment (evaluation_assignment c) p = Inr ()"
  shows "\<exists>e. EvaluateBatch F p (evaluation_assignment c) xs previous = Inr e"
proof -
  have "list_all (observation_matches (evaluation_assignment c)) xs"
    using new_frame_matches [of _ W tel c cp end'] assms(2,4) by (auto simp: list_all_iff)
  then show ?thesis
    using assms canonical_sorted [OF assms(1), of None] by (auto simp: EvaluateBatch_Inr acceptable_def)
qed

section \<open>One claim\<close>

text \<open>Nobody else acts on the database while the claim is processed.\<close>

definition undisturbed :: "interference \<Rightarrow> bool" where
  "undisturbed I \<longleftrightarrow>
     ix_before I = (\<lambda>_ d. d) \<and> ix_cancelled I = (\<lambda>_. False) \<and> ix_parent_cancelled I = (\<lambda>_. False) \<and> ix_renewal I = None"

lemma restored_upto:
  assumes "GetReplayCheckpoint E aid gen t d = Some k" "supportedUnixNanoseconds t"
  shows "rc_StateThroughAt k \<le> t"
proof -
  let ?cps = "filter (\<lambda>c. cp_through_ns c \<le> UnixNano t) (generation_checkpoints aid gen d)"
  have mem: "greatest lt xs = Some x \<Longrightarrow> x \<in> set xs" for lt :: "checkpoint_row \<Rightarrow> checkpoint_row \<Rightarrow> bool" and xs x
    by (induction xs arbitrary: x) (auto split: option.splits if_splits)
  obtain c where "greatest (checkpoint_less E) ?cps = Some c" "rc_StateThroughAt k = cp_through_ns c"
    using assms(1) by (auto simp: GetReplayCheckpoint_def)
  with mem [of "checkpoint_less E" ?cps c] show ?thesis using assms(2) by auto
qed

lemma read_for_claim:
  assumes tel: "telemetry_ok W tel (asg_AircraftID (cl_Assignment c))"
    and id: "\<not> blank (asg_AircraftID (cl_Assignment c))" and cfg: "0 < wc_OverlapWindow (we_config W)"
    and auth: "zero_time < cl_AuthorityFrom c" "cl_AuthorityFrom c < window_end (we_config W) now c"
    and upto: "\<And>k. cp = Some k \<Longrightarrow> rc_StateThroughAt k \<le> window_end (we_config W) now c"
  shows "\<exists>rejected. readComplete (we_fpu W) (we_out_of_range W) (we_runner W) (we_reader W) (asg_AircraftID (cl_Assignment c))
      (window_start (we_config W) c cp) (window_end (we_config W) now c) =
    Inr \<lparr>rr_Observations = whole_window (we_fpu W) (we_out_of_range W) tel (asg_AircraftID (cl_Assignment c))
           (window_start (we_config W) c cp) (window_end (we_config W) now c), rr_Rejections = rejected\<rparr>"
proof -
  let ?start = "window_start (we_config W) c cp"
  note s = window_start_before [OF cfg, of c cp]
  have w: "zero_time < ?start" "?start < window_end (we_config W) now c"
    using s auth upto by (cases cp; force)+
  note t = tel [unfolded telemetry_ok_def]
  from complete_read [of tel "we_runner W" "we_reader W", OF _ _ id w _ frames_consistent] t
  show ?thesis by blast
qed

lemma claim_runs:
  assumes tel: "telemetry_ok W tel (asg_AircraftID (cl_Assignment c))"
    and trim: "TrimSpace (asg_AircraftID (cl_Assignment c)) = asg_AircraftID (cl_Assignment c)"
    and cfg: "0 < wc_OverlapWindow (we_config W)"
    and valid: "validateAssignment (evaluation_assignment c) (we_policy W) = Inr ()"
    and quiet: "undisturbed I"
    and auth: "zero_time < cl_AuthorityFrom c" "cl_AuthorityFrom c < window_end (we_config W) now c"
    and settled: "supportedUnixNanoseconds (window_end (we_config W) now c)"
    and cp: "GetReplayCheckpoint (we_store W) (asg_ID (cl_Assignment c)) (asg_Generation (cl_Assignment c))
        (window_end (we_config W) now c) d = cp" "checkpoint_matches c cp"
  shows "\<exists>suffix. sorted_wrt workerBefore suffix \<and>
      set suffix = new_frames W tel c cp (window_end (we_config W) now c) \<and>
      (if suffix = []
       then processClaim W I now c d = deferClaim W I 1 c (now + wc_PollInterval (we_config W)) d
       else \<exists>e. EvaluateBatch (we_fpu W) (we_policy W) (evaluation_assignment c) suffix
                  (case cp of None \<Rightarrow> empty_state | Some k \<Rightarrow> rc_State k) = Inr e \<and>
         processClaim W I now c d =
           (case CommitEvaluation (we_store W) (ix_clock I 1) c
                   \<lparr>ec_Evaluation = e, ec_NextEvaluationAt = now + wc_PollInterval (we_config W)\<rparr> d of
              Inl err \<Rightarrow> (Some (WStore err), d) | Inr d' \<Rightarrow> (None, d')))"
proof -
  let ?a = "asg_AircraftID (cl_Assignment c)" and ?till = "window_end (we_config W) now c"
  let ?seen = "whole_window (we_fpu W) (we_out_of_range W) tel ?a (window_start (we_config W) c cp) ?till"
  let ?suffix = "evaluableSuffix ?seen c cp" and ?prev = "case cp of None \<Rightarrow> empty_state | Some k \<Rightarrow> rc_State k"
  have id: "\<not> blank ?a"
    using valid trim by (auto simp: blank_def validateAssignment_def evaluation_assignment_def split: if_splits)
  obtain rejected where read: "readComplete (we_fpu W) (we_out_of_range W) (we_runner W) (we_reader W) ?a
      (window_start (we_config W) c cp) ?till = Inr \<lparr>rr_Observations = ?seen, rr_Rejections = rejected\<rparr>"
    using read_for_claim [OF tel id cfg auth] restored_upto [OF _ settled] cp(1) by blast
  have inj: "inj_on obs_FrameID (set (decoded (we_fpu W) (we_out_of_range W) tel))" using tel by (simp add: telemetry_ok_def)
  note suffix = suffix_of_window [OF inj trim cfg, of cp now]
  have claim: "processClaim W I now c d = evaluate_claim W I now c cp d"
    using quiet auth(2) cp by (simp add: processClaim_def undisturbed_def Let_def)
  show ?thesis
  proof (intro exI conjI)
    show "sorted_wrt workerBefore ?suffix" "set ?suffix = new_frames W tel c cp ?till" by (rule suffix)+
    show "if ?suffix = [] then processClaim W I now c d = deferClaim W I 1 c (now + wc_PollInterval (we_config W)) d
       else \<exists>e. EvaluateBatch (we_fpu W) (we_policy W) (evaluation_assignment c) ?suffix ?prev = Inr e \<and>
         processClaim W I now c d =
           (case CommitEvaluation (we_store W) (ix_clock I 1) c
                   \<lparr>ec_Evaluation = e, ec_NextEvaluationAt = now + wc_PollInterval (we_config W)\<rparr> d of
              Inl err \<Rightarrow> (Some (WStore err), d) | Inr d' \<Rightarrow> (None, d'))"
    proof (cases ?suffix)
      case Nil
      then show ?thesis by (simp add: claim evaluate_claim_def read)
    next
      case (Cons x xs)
      obtain e where e: "EvaluateBatch (we_fpu W) (we_policy W) (evaluation_assignment c) ?suffix ?prev = Inr e"
        using new_frames_evaluate [OF suffix _ auth(1) valid, of "we_fpu W" ?prev] Cons by auto
      then show ?thesis using Cons quiet
        by (simp add: claim evaluate_claim_def read undisturbed_def Let_def)
    qed
  qed
qed

text \<open>
  C6: A claim evaluates exactly the new frames. Let the telemetry of the aircraft be served,
  without two different observations under one frame identifier, let the assignment be valid
  and its claim undisturbed. Then processing the claim cannot fail in the reader or in the
  evaluator: it takes all settled observations of the assignment after the checkpoint that
  fall into its authority, none twice and none left out, in ascending cursor order; without any
  it releases the claim until the next poll, and otherwise it commits their evaluation from
  the checkpoint state. So the only errors left are those of the store.
\<close>

theorem claim_evaluates_new_frames:
  assumes tel: "telemetry_ok W tel (asg_AircraftID (cl_Assignment c))"
    and trim: "TrimSpace (asg_AircraftID (cl_Assignment c)) = asg_AircraftID (cl_Assignment c)"
    and cfg: "0 < wc_OverlapWindow (we_config W)"
    and valid: "validateAssignment (evaluation_assignment c) (we_policy W) = Inr ()"
    and quiet: "undisturbed I"
    and auth: "zero_time < cl_AuthorityFrom c" "cl_AuthorityFrom c < window_end (we_config W) now c"
    and settled: "supportedUnixNanoseconds (window_end (we_config W) now c)"
    and cp: "GetReplayCheckpoint (we_store W) (asg_ID (cl_Assignment c)) (asg_Generation (cl_Assignment c))
        (window_end (we_config W) now c) d = cp" "checkpoint_matches c cp"
  shows "\<exists>suffix. sorted_wrt workerBefore suffix \<and>
      set suffix = new_frames W tel c cp (window_end (we_config W) now c) \<and>
      (if suffix = []
       then processClaim W I now c d = deferClaim W I 1 c (now + wc_PollInterval (we_config W)) d
       else \<exists>e. EvaluateBatch (we_fpu W) (we_policy W) (evaluation_assignment c) suffix
                  (case cp of None \<Rightarrow> empty_state | Some k \<Rightarrow> rc_State k) = Inr e \<and>
         processClaim W I now c d =
           (case CommitEvaluation (we_store W) (ix_clock I 1) c
                   \<lparr>ec_Evaluation = e, ec_NextEvaluationAt = now + wc_PollInterval (we_config W)\<rparr> d of
              Inl err \<Rightarrow> (Some (WStore err), d) | Inr d' \<Rightarrow> (None, d')))"
  by (rule claim_runs [OF assms])

section \<open>Two frames\<close>

text \<open>Two frames of the demonstration aircraft, the second written twice; claimed and not yet evaluated.\<close>

definition pair_demo :: "row list" where
  "pair_demo = [row_demo ''y'' 2 1003, row_demo ''x'' 1 1000, row_demo ''y'' 2 1003]"

definition worker_demo :: worker_env where
  "worker_demo =
     \<lparr>we_store = store_env_demo, we_fpu = exact_fpu, we_out_of_range = (\<lambda>_. 0), we_runner = runner_of pair_demo,
      we_reader = \<lparr>rd_chunkSize = 1, rd_maxRows = 3\<rparr>,
      we_policy = \<lparr>pol_Version = ''p'', pol_HorizontalToleranceM = Fin 5, pol_VerticalToleranceM = Fin 3,
        pol_OpenAfterSamples = 3, pol_RecoverAfterSamples = 3, pol_TelemetryFreshness = 15\<rparr>,
      we_config = \<lparr>wc_WorkerID = ''w'', wc_PollInterval = 100, wc_LeaseDuration = 100, wc_RenewInterval = 10,
        wc_SettleDelay = 0, wc_OverlapWindow = 10, wc_ClaimBatchSize = 10\<rparr>\<rparr>"

definition quiet_demo :: interference where
  "quiet_demo =
     \<lparr>ix_clock = (\<lambda>_. 5010), ix_before = (\<lambda>_ d. d), ix_cancelled = (\<lambda>_. False), ix_parent_cancelled = (\<lambda>_. False),
      ix_renewal = None\<rparr>"

definition volume_demo :: volume where
  "volume_demo =
     \<lparr>vol_ID = ''v'', vol_Polygon = map (\<lambda>(lat, lon). \<lparr>pt_Latitude = Fin lat, pt_Longitude = Fin lon\<rparr>) [(0, 0), (0, 1), (1, 0)],
      vol_AltitudeLowerM = Fin 0, vol_AltitudeUpperM = Fin 100, vol_AltitudeReference = AltitudeMSL, vol_StartsAt = 1000,
      vol_EndsAt = 9000\<rparr>"

definition flown_demo :: claim where
  "flown_demo = (claim_demo 1 1 0)\<lparr>cl_Assignment := (spec_demo 1)\<lparr>asg_Volumes := [volume_demo]\<rparr>\<rparr>"

lemma decoded_pair:
  "set (decoded F oor pair_demo) = {observation_demo ''x'' 1 1000, observation_demo ''y'' 2 1003}"
  by (auto simp: decoded_def pair_demo_def row_demo_decodes demo_words)

lemma pair_demo_ok:
  assumes "we_runner W = runner_of pair_demo" "we_reader W = \<lparr>rd_chunkSize = 1, rd_maxRows = 3\<rparr>"
  shows "telemetry_ok W pair_demo ''c''"
proof -
  have rows: "\<forall>row\<in>set pair_demo. \<exists>o'. decodeObservation (we_fpu W) (we_out_of_range W) row = Inr o'"
    by (simp add: pair_demo_def row_demo_decodes demo_words)
  have "inj_on obs_FrameID (set (decoded (we_fpu W) (we_out_of_range W) pair_demo))"
    unfolding decoded_pair by (rule inj_onI) (auto simp: observation_demo_def)
  moreover have "length (rows_of pair_demo ''c'' t (t + 1)) < 3" for t
    by (auto simp: rows_of_def pair_demo_def row_demo_in_query demo_words)
  ultimately show ?thesis using rows assms by (auto simp: telemetry_ok_def serves_runner_of)
qed

lemma flown_demo_valid: "validateAssignment (evaluation_assignment flown_demo) (we_policy worker_demo) = Inr ()"
  by (simp add: validateAssignment_def evaluation_assignment_def flown_demo_def claim_demo_def spec_demo_def worker_demo_def
      volume_demo_def validCoordinate_def finite_def IsZero_def zero_time_def)

lemma new_frames_demo:
  "new_frames worker_demo pair_demo flown_demo None 5000 = {observation_demo ''x'' 1 1000, observation_demo ''y'' 2 1003}"
proof -
  let ?S = "{observation_demo ''x'' 1 1000, observation_demo ''y'' 2 1003}"
  let ?Q = "\<lambda>o'. obs_AircraftID o' = asg_AircraftID (cl_Assignment flown_demo) \<and> obs_AgentID o' = asg_AgentID (cl_Assignment flown_demo) \<and>
    obs_FlightID o' = asg_FlightID (cl_Assignment flown_demo) \<and> obs_IntentID o' = asg_IntentID (cl_Assignment flown_demo) \<and>
    obs_IntentVersion o' = asg_IntentVersion (cl_Assignment flown_demo) \<and> cl_AuthorityFrom flown_demo \<le> obs_ObservedAt o' \<and> obs_ObservedAt o' < 5000"
  have "\<forall>o'\<in>?S. ?Q o'"
    by (simp add: flown_demo_def claim_demo_def spec_demo_def observation_demo_def)
  then have "{o'. o' \<in> ?S \<and> ?Q o'} = ?S" by blast
  moreover have "new_frames worker_demo pair_demo flown_demo None 5000 = {o'. o' \<in> ?S \<and> ?Q o'}"
    by (simp add: new_frames_def worker_demo_def decoded_pair beyond_def conj_assoc)
  ultimately show ?thesis by simp
qed

theorem claim_evaluates_new_frames_witness:
  "\<exists>suffix. set suffix = {observation_demo ''x'' 1 1000, observation_demo ''y'' 2 1003} \<and> sorted_wrt workerBefore suffix \<and>
     (\<exists>e. EvaluateBatch exact_fpu (we_policy worker_demo) (evaluation_assignment flown_demo) suffix empty_state = Inr e \<and>
        processClaim worker_demo quiet_demo 5000 flown_demo db_claimed =
          (case CommitEvaluation store_env_demo 5010 flown_demo \<lparr>ec_Evaluation = e, ec_NextEvaluationAt = 5100\<rparr> db_claimed of
             Inl err \<Rightarrow> (Some (WStore err), db_claimed) | Inr d' \<Rightarrow> (None, d')))"
proof -
  have ids: "asg_ID (cl_Assignment flown_demo) = ''A''" "asg_Generation (cl_Assignment flown_demo) = 1"
    "asg_AircraftID (cl_Assignment flown_demo) = ''c''" "cl_AuthorityFrom flown_demo = 1000"
    "window_end (we_config worker_demo) 5000 flown_demo = 5000" "cl_EvaluationRevision flown_demo = 0"
    by (simp_all add: flown_demo_def claim_demo_def spec_demo_def worker_demo_def window_end_def)
  have ok: "telemetry_ok worker_demo pair_demo ''c''" by (rule pair_demo_ok) (simp_all add: worker_demo_def)
  have settled: "supportedUnixNanoseconds 5000" by code_simp
  have none: "GetReplayCheckpoint store_env_demo ''A'' 1 5000 db_claimed = None" by code_simp
  have quiet: "undisturbed quiet_demo" by (simp add: undisturbed_def quiet_demo_def)
  have env: "we_store worker_demo = store_env_demo" "we_fpu worker_demo = exact_fpu" "wc_PollInterval (we_config worker_demo) = 100"
    "0 < wc_OverlapWindow (we_config worker_demo)" "ix_clock quiet_demo 1 = 5010" "zero_time < 1000"
    by (simp_all add: worker_demo_def quiet_demo_def zero_time_def)
  from claim_evaluates_new_frames [OF _ _ env(4) flown_demo_valid quiet, of pair_demo 5000 db_claimed None] obtain suffix where
    s: "sorted_wrt workerBefore suffix" "set suffix = {observation_demo ''x'' 1 1000, observation_demo ''y'' 2 1003}"
    and p: "suffix \<noteq> [] \<Longrightarrow> \<exists>e. EvaluateBatch exact_fpu (we_policy worker_demo) (evaluation_assignment flown_demo) suffix empty_state = Inr e \<and>
        processClaim worker_demo quiet_demo 5000 flown_demo db_claimed =
          (case CommitEvaluation store_env_demo 5010 flown_demo \<lparr>ec_Evaluation = e, ec_NextEvaluationAt = 5100\<rparr> db_claimed of
             Inl err \<Rightarrow> (Some (WStore err), db_claimed) | Inr d' \<Rightarrow> (None, d'))"
    using ok settled none env new_frames_demo
    by (auto simp: ids demo_words checkpoint_matches_def split: if_splits)
  from s(2) have "suffix \<noteq> []" by auto
  with s p show ?thesis by blast
qed

end
