(* ===== verification/Worker_Safety.thy ===== *)
theory Worker_Safety
  imports Worker_Selection
begin

text \<open>
  What a worker may write. A claim ends in at most one write of its own, a deferral or a commit;
  a failed claim leaves all evidence as it is; a poll is a sequence of store operations, so what
  holds in all reachable databases holds while workers run; and a reader without WAL identities
  stops the worker.
\<close>

section \<open>One write per claim\<close>












section \<open>Reachability\<close>

text \<open>What others do between the calls of a claim are store operations.\<close>

definition lawful :: "store_env \<Rightarrow> interference \<Rightarrow> bool" where
  "lawful E I \<longleftrightarrow> (\<forall>k d. (store_step E)\<^sup>*\<^sup>* d (ix_before I k d))"

lemma lawful_before: "lawful E I \<Longrightarrow> (store_step E)\<^sup>*\<^sup>* d0 d \<Longrightarrow> (store_step E)\<^sup>*\<^sup>* d0 (ix_before I k d)"
  unfolding lawful_def by (meson rtranclp_trans)

lemma lawful_write:
  "lawful E I \<Longrightarrow> DeferAssignmentEvaluation E now c t (ix_before I k d) = Inr d' \<Longrightarrow> (store_step E)\<^sup>*\<^sup>* d d'"
  "lawful E I \<Longrightarrow> CommitEvaluation E now c cm (ix_before I k d) = Inr d' \<Longrightarrow> (store_step E)\<^sup>*\<^sup>* d d'"
  by (meson lawful_before rtranclp.intros store_step.defer_evaluation store_step.commit)+

lemma deferClaim_steps: "lawful (we_store W) I \<Longrightarrow> (store_step (we_store W))\<^sup>*\<^sup>* d (snd (deferClaim W I k c t d))"
  by (auto simp: deferClaim_def Let_def lawful_before lawful_write split: sum.splits)

lemma deferAfterError_steps:
  "lawful (we_store W) I \<Longrightarrow> (store_step (we_store W))\<^sup>*\<^sup>* d (snd (deferAfterError W I k c now cause d))"
  using deferClaim_steps [of W I d k c "now + wc_PollInterval (we_config W)"]
  by (auto simp: deferAfterError_def split: prod.splits option.splits)

lemma evaluate_claim_steps:
  "lawful (we_store W) I \<Longrightarrow> (store_step (we_store W))\<^sup>*\<^sup>* d (snd (evaluate_claim W I now c cp d))"
  by (auto simp: evaluate_claim_def Let_def deferClaim_steps deferAfterError_steps lawful_before lawful_write
      split: sum.splits list.splits option.splits)

lemma processClaim_steps:
  assumes "lawful (we_store W) I"
  shows "(store_step (we_store W))\<^sup>*\<^sup>* d (snd (processClaim W I now c d))"
proof -
  have before: "(store_step (we_store W))\<^sup>*\<^sup>* d (ix_before I 0 d)" by (rule lawful_before [OF assms rtranclp.rtrancl_refl])
  show ?thesis
    using deferClaim_steps [OF assms] rtranclp_trans [OF before deferAfterError_steps [OF assms]]
      rtranclp_trans [OF before evaluate_claim_steps [OF assms]]
    by (simp add: processClaim_def Let_def)
qed

lemma process_claims_steps:
  "\<forall>run\<in>set runs. lawful (we_store W) (snd run) \<Longrightarrow> (store_step (we_store W))\<^sup>*\<^sup>* d (snd (process_claims W now runs d))"
proof (induction W now runs d rule: process_claims.induct)
  case (2 W now c I runs d)
  obtain res d1 where one: "processClaim W I now c d = (res, d1)" by fastforce
  then have "(store_step (we_store W))\<^sup>*\<^sup>* d d1" using processClaim_steps [of W I d now c] 2(2) by simp
  moreover have "(store_step (we_store W))\<^sup>*\<^sup>* d1 (snd (process_claims W now runs d1))" using 2 one by simp
  ultimately show ?case using one by (auto split: prod.splits)
qed simp

lemma Poll_steps:
  assumes "\<And>cs run. run \<in> set (schedule cs) \<Longrightarrow> lawful (we_store W) (snd run)"
  shows "(store_step (we_store W))\<^sup>*\<^sup>* d (snd (Poll W dbnow now locked cancelled schedule d))"
proof -
  obtain res d1 where claim: "ClaimDueAssignmentsWithFinalizationGrace (we_store W) dbnow locked (wc_WorkerID (we_config W))
      (wc_LeaseDuration (we_config W)) (wc_SettleDelay (we_config W) + wc_PollInterval (we_config W))
      (wc_ClaimBatchSize (we_config W)) d = (res, d1)" by fastforce
  from store_step.claim_due [OF this] have "(store_step (we_store W))\<^sup>*\<^sup>* d d1" by (rule r_into_rtranclp)
  moreover have "(store_step (we_store W))\<^sup>*\<^sup>* d1 (snd (process_claims W now (schedule cs) d1))" for cs
    using assms by (intro process_claims_steps) blast
  ultimately show ?thesis
    by (cases res) (auto simp: Poll_def claim Let_def split: prod.splits, metis rtranclp_trans snd_conv)
qed

section \<open>Missing WAL identities\<close>

lemma poll_error_wal:
  "Some (WReader ErrWALIdentityUnavailable) \<in> set results \<Longrightarrow>
     \<exists>e. poll_error cancelled results acc = Some e \<and> is_wal_unavailable e"
proof (induction cancelled results acc rule: poll_error.induct)
  case (3 cancelled e rest acc)
  have "is_wal_unavailable (WReader ErrWALIdentityUnavailable)" "\<not> is_canceled (WReader ErrWALIdentityUnavailable)"
    by (simp_all add: is_wal_unavailable_def is_canceled_def)
  with 3 show ?case by auto
qed auto

lemma worker_Run_error: "worker_Run ts d = Returned (Some e) d' \<Longrightarrow> is_wal_unavailable e"
  by (induction ts d rule: worker_Run.induct) (auto simp: Let_def split: prod.splits option.splits if_splits)

text \<open>
  C29: Missing WAL identities stop the worker, nothing else does. If one claim of a poll finds
  telemetry without WAL identity, in whatever order the results arrive and whatever the others
  return, the loop returns with that error instead of polling again; and the loop never
  returns with any other error.
\<close>

theorem missing_wal_identity_stops_worker:
  assumes claimed: "ClaimDueAssignmentsWithFinalizationGrace (we_store W) dbnow locked (wc_WorkerID (we_config W))
      (wc_LeaseDuration (we_config W)) (wc_SettleDelay (we_config W) + wc_PollInterval (we_config W))
      (wc_ClaimBatchSize (we_config W)) d = (Inr claims, d1)"
    and processed: "process_claims W now (schedule claims) d1 = (results, d2)"
    and missing: "Some (WReader ErrWALIdentityUnavailable) \<in> set results"
    and poll: "tk_poll t = Poll W dbnow now locked cancelled schedule"
  shows "(\<exists>e. worker_Run (t # ts) d = Returned (Some e) d2 \<and> is_wal_unavailable e) \<and>
    (\<forall>us u e u'. worker_Run us u = Returned (Some e) u' \<longrightarrow> is_wal_unavailable e)"
proof -
  obtain e where "fst (Poll W dbnow now locked cancelled schedule d) = Some e" "is_wal_unavailable e"
    using poll_error_wal [OF missing] by (auto simp: Poll_def Let_def claimed processed)
  moreover have "snd (Poll W dbnow now locked cancelled schedule d) = d2"
    by (simp add: Poll_def Let_def claimed processed)
  ultimately have "Poll W dbnow now locked cancelled schedule d = (Some e, d2)" by (simp add: prod_eq_iff)
  then show ?thesis using poll worker_Run_error \<open>is_wal_unavailable e\<close> by (auto simp: Let_def)
qed

text \<open>The first poll of a worker whose telemetry carries no WAL identity.\<close>

definition unidentified_demo :: worker_env where
  "unidentified_demo = worker_demo\<lparr>we_runner := runner_of [(row_demo ''x'' 1 1000)(''wal_id'' := VNil)]\<rparr>"

abbreviation first_poll_demo :: "(store_error + claim list) \<times> db" where
  "first_poll_demo \<equiv> ClaimDueAssignmentsWithFinalizationGrace store_env_demo 5000 (\<lambda>_. False) ''w'' 100 100 10 db_active"

lemma unidentified_read:
  "readComplete exact_fpu (\<lambda>_. 0) (we_runner unidentified_demo) \<lparr>rd_chunkSize = 1, rd_maxRows = 3\<rparr> ''c'' 1000 5000 =
     Inl ErrWALIdentityUnavailable"
proof -
  let ?row = "(row_demo ''x'' 1 1000)(''wal_id'' := VNil)"
  have "in_query q ?row \<longleftrightarrow> q_start q \<le> 1000 \<and> 1000 < q_end q \<and> ''c'' \<in> set (q_aircraft q)" for q
    by (simp add: in_query_iff row_demo_def)
  moreover have "decodeObservation exact_fpu (\<lambda>_. 0) ?row = Inl WALIdentityMissing"
    by (simp add: decodeObservation_def row_demo_def requiredString_def demo_words)
  ultimately show ?thesis
    by (simp add: readComplete.simps [of _ _ _ _ _ 1000 5000] ReadPositions_def uniqueIDs_single demo_words chunks_single IsZero_def
        zero_time_def queryChunk_def unidentified_demo_def runner_of_def)
qed

theorem missing_wal_identity_stops_worker_witness:
  "\<exists>e d2. worker_Run [\<lparr>tk_poll = Poll unidentified_demo 5000 5000 (\<lambda>_. False) False (map (\<lambda>c. (c, quiet_demo))),
      tk_cancelled = False, tk_stop = False\<rparr>] db_active = Returned (Some e) d2 \<and> is_wal_unavailable e"
proof -
  have "\<not> isl (fst first_poll_demo)" by code_simp
  then obtain claims d1 where poll: "first_poll_demo = (Inr claims, d1)" by (metis prod.exhaust_sel sum.collapse(2))
  have "map (\<lambda>c. (asg_ID (cl_Assignment c), asg_Generation (cl_Assignment c), asg_AircraftID (cl_Assignment c), cl_AuthorityFrom c,
      cl_AuthorityUntil c, cl_EvaluationRevision c)) (projr (fst first_poll_demo)) = [(''A'', 1, ''c'', 1000, 9000, 0)]" by code_simp
  then obtain c where c: "claims = [c]" "asg_ID (cl_Assignment c) = ''A''" "asg_Generation (cl_Assignment c) = 1"
      "asg_AircraftID (cl_Assignment c) = ''c''" "cl_AuthorityFrom c = 1000" "cl_AuthorityUntil c = 9000" "cl_EvaluationRevision c = 0"
    unfolding poll by (auto simp: map_eq_Cons_conv)
  have "GetReplayCheckpoint store_env_demo ''A'' 1 5000 (snd first_poll_demo) = None" by code_simp
  then have none: "GetReplayCheckpoint store_env_demo ''A'' 1 5000 d1 = None" unfolding poll by simp
  have env: "we_store unidentified_demo = store_env_demo" "wc_WorkerID (we_config unidentified_demo) = ''w''"
    "wc_LeaseDuration (we_config unidentified_demo) = 100" "wc_SettleDelay (we_config unidentified_demo) = 0"
    "wc_PollInterval (we_config unidentified_demo) = 100" "wc_ClaimBatchSize (we_config unidentified_demo) = 10"
    "we_fpu unidentified_demo = exact_fpu" "we_out_of_range unidentified_demo = (\<lambda>_. 0)"
    "we_reader unidentified_demo = \<lparr>rd_chunkSize = 1, rd_maxRows = 3\<rparr>"
    by (simp_all add: unidentified_demo_def worker_demo_def)
  have "processClaim unidentified_demo quiet_demo 5000 c d1 = (Some (WReader ErrWALIdentityUnavailable), d1)"
    using none unidentified_read c
    by (simp add: processClaim_def evaluate_claim_def window_end_def window_start_def env quiet_demo_def checkpoint_matches_def
        deferAfterError_def is_wal_unavailable_def)
  then have "process_claims unidentified_demo 5000 (map (\<lambda>c. (c, quiet_demo)) claims) d1 =
      ([Some (WReader ErrWALIdentityUnavailable)], d1)" by (simp add: c(1))
  with poll missing_wal_identity_stops_worker [of unidentified_demo 5000 "\<lambda>_. False" db_active claims d1 5000
      "map (\<lambda>c. (c, quiet_demo))" "[Some (WReader ErrWALIdentityUnavailable)]" d1
      "\<lparr>tk_poll = Poll unidentified_demo 5000 5000 (\<lambda>_. False) False (map (\<lambda>c. (c, quiet_demo))), tk_cancelled = False, tk_stop = False\<rparr>"
      False "[]"]
  show ?thesis by (auto simp: env simp del: worker_Run.simps)
qed

end
