(* ===== verification/Flight.thy ===== *)
theory Flight
  imports Worker_Safety Store_Recovery
begin

text \<open>
  A whole flight. Poll after poll the worker reads a window, evaluates what is new from the last
  checkpoint and commits it; between the polls telemetry arrives and others use the store. If
  no frame arrives after its instant has settled, what is stored is what one evaluation of the
  whole flight from the beginning gives.
\<close>

section \<open>The whole flight\<close>

definition belongs :: "assignment \<Rightarrow> observation \<Rightarrow> bool" where
  "belongs A o' \<longleftrightarrow>
     obs_AircraftID o' = asg_AircraftID A \<and> obs_AgentID o' = asg_AgentID A \<and> obs_FlightID o' = asg_FlightID A \<and>
     obs_IntentID o' = asg_IntentID A \<and> obs_IntentVersion o' = asg_IntentVersion A \<and> asg_EffectiveFrom A \<le> obs_ObservedAt o'"

definition whole_flight ::
  "fpu \<Rightarrow> (real \<Rightarrow> nat) \<Rightarrow> row list \<Rightarrow> assignment \<Rightarrow> gotime \<Rightarrow> observation list" where
  "whole_flight F oor tel A t =
     sort_by workerBefore (filter (\<lambda>o'. belongs A o' \<and> obs_ObservedAt o' < t) (unique_by obs_FrameID {} (decoded F oor tel)))"

abbreviation unambiguous :: "fpu \<Rightarrow> (real \<Rightarrow> nat) \<Rightarrow> row list \<Rightarrow> bool" where
  "unambiguous F oor tel \<equiv> inj_on obs_FrameID (set (decoded F oor tel))"

lemma whole_flight_sorted: "sorted_wrt workerBefore (whole_flight F oor tel A t)"
  unfolding whole_flight_def
  by (rule worker_order.sort_by_strict, rule distinct_frames_positions, rule distinct_map_filter, rule unique_by_props(2))

lemma set_whole_flight:
  "unambiguous F oor tel \<Longrightarrow>
     set (whole_flight F oor tel A t) = {o'. o' \<in> set (decoded F oor tel) \<and> belongs A o' \<and> obs_ObservedAt o' < t}"
  by (auto simp: whole_flight_def set_unique_by)

lemma whole_flight_split:
  assumes "unambiguous F oor tel" "t \<le> t'"
  shows "whole_flight F oor tel A t' =
    whole_flight F oor tel A t @ filter (\<lambda>o'. t \<le> obs_ObservedAt o') (whole_flight F oor tel A t')"
proof (rule worker_order.sorted_determined)
  show "sorted_wrt workerBefore (whole_flight F oor tel A t')" by (rule whole_flight_sorted)
  have "workerBefore x y" if "x \<in> set (whole_flight F oor tel A t)" "t \<le> obs_ObservedAt y" for x y
    using that assms(1) by (auto simp: set_whole_flight workerBefore_def)
  then show "sorted_wrt workerBefore (whole_flight F oor tel A t @ filter (\<lambda>o'. t \<le> obs_ObservedAt o') (whole_flight F oor tel A t'))"
    using whole_flight_sorted sorted_wrt_filter [OF whole_flight_sorted] by (auto simp: sorted_wrt_append)
  show "set (whole_flight F oor tel A t') =
      set (whole_flight F oor tel A t @ filter (\<lambda>o'. t \<le> obs_ObservedAt o') (whole_flight F oor tel A t'))"
    using assms by (auto simp: set_whole_flight)
qed

lemma new_frames_whole_flight:
  assumes "unambiguous (we_fpu W) (we_out_of_range W) tel" "evaluation_assignment c = A"
  shows "new_frames W tel c cp t = {o' \<in> set (whole_flight (we_fpu W) (we_out_of_range W) tel A t). beyond cp o'}"
  using assms(2) unfolding set_whole_flight [OF assms(1)]
  by (auto simp: new_frames_def belongs_def evaluation_assignment_def)

section \<open>What is stored\<close>

definition cursor_at :: "observation \<Rightarrow> replay_checkpoint \<Rightarrow> bool" where
  "cursor_at o' k \<longleftrightarrow>
     rc_StateThroughAt k = obs_ObservedAt o' \<and> rc_WALID k = obs_WALID o' \<and> rc_WALSequence k = obs_WALSequence o' \<and>
     rc_FrameID k = obs_FrameID o'"

text \<open>The checkpoint stands at the last frame of \<open>fs\<close> and holds the state of their evaluation.\<close>

definition checkpoint_of :: "fpu \<Rightarrow> policy \<Rightarrow> assignment \<Rightarrow> observation list \<Rightarrow> replay_checkpoint option \<Rightarrow> bool" where
  "checkpoint_of F p A fs cp =
     (case cp of None \<Rightarrow> fs = []
      | Some k \<Rightarrow> fs \<noteq> [] \<and> cursor_at (last fs) k \<and> rc_State k = run_states F p A fs empty_state)"

definition event_recorded :: "store_env \<Rightarrow> assignment \<Rightarrow> db \<Rightarrow> incident_transition \<Rightarrow> bool" where
  "event_recorded E A d t \<longleftrightarrow>
     (\<exists>row\<in>set (events d). evt_id row = event_id E A t \<and> evt_aid row = asg_ID A \<and> evt_gen row = asg_Generation A \<and>
        evt_transition row = tr_Transition t \<and> evt_violation row = tr_Violation t \<and> evt_frame row = tr_FrameID t \<and>
        evt_observed_at row = timestamptz E (tr_ObservedAt t) \<and> evt_deviation row = tr_DeviationM t)"

lemma event_recorded_appended: "event_recorded E A d t \<Longrightarrow> events d' = events d @ new \<Longrightarrow> event_recorded E A d' t"
  by (auto simp: event_recorded_def)

lemma event_recorded_key:
  "asg_ID A = asg_ID B \<Longrightarrow> asg_Generation A = asg_Generation B \<Longrightarrow> event_recorded E A d t = event_recorded E B d t"
  by (simp add: event_recorded_def event_id_def)

lemma put_event_recorded: "put_event row d = Inr d' \<Longrightarrow> \<exists>r\<in>set (events d'). evt_id r = evt_id row \<and> same_evidence r row"
  by (auto simp: put_event_def same_evidence_def find_Some_iff split: option.splits if_splits)

lemma write_transition_recorded:
  assumes "write_transition E a n pl t d = Inr d'"
  shows "event_recorded E a d' t"
proof -
  from assms obtain iid d1 d2 where d2: "put_event (event_entry E a n iid t) d1 = Inr d2" and d': "events d' = events d2"
    by (auto simp: write_transition_def monad_splits materialize_resolution_def Let_def split: if_splits)
  from put_event_recorded [OF d2] d' show ?thesis
    by (fastforce simp: event_recorded_def same_evidence_def event_entry_def)
qed

lemma write_transitions_recorded:
  "write_transitions E a n pl ts d = Inr d' \<Longrightarrow> \<forall>t\<in>set ts. event_recorded E a d' t"
proof (induction ts arbitrary: d)
  case (Cons t ts)
  then obtain d1 where d1: "write_transition E a n pl t d = Inr d1" "write_transitions E a n pl ts d1 = Inr d'"
    by (auto simp: monad_splits)
  obtain new where "events d' = events d1 @ new" using write_transitions_appends [OF d1(2)] by (auto simp: appends_def)
  with Cons.IH [OF d1(2)] event_recorded_appended [OF write_transition_recorded [OF d1(1)]] show ?case by simp
qed simp

lemma commit_recorded:
  assumes "assignments_ok (assignments d)" "CommitEvaluation E now c cm d = Inr d'"
  shows "\<forall>t\<in>set (ev_Transitions (ec_Evaluation cm)). event_recorded E (cl_Assignment c) d' t"
  using assms
proof (rule CommitEvaluation_Inr)
  fix row :: assignment_row
  let ?d = "d\<lparr>assignments := map (\<lambda>r. if r = row then counted_up E now cm r else r) (assignments d)\<rparr>"
  assume "writeEvaluation E now (cl_Assignment c) (ar_evaluation_revision row + 1) (ec_Evaluation cm) False True ?d = Inr d'"
  then obtain n pl d1 where w: "write_transitions E (cl_Assignment c) n pl (ev_Transitions (ec_Evaluation cm)) ?d = Inr d1"
    and "events d' = events d1"
    by (auto simp: writeEvaluation_def monad_splits Let_def stmt upsert_summary_def enqueue_live_def split: if_splits)
  then show ?thesis using write_transitions_recorded [OF w] by (simp add: event_recorded_def)
qed

section \<open>Polling through a flight\<close>

text \<open>
  How the store and the telemetry of one claimed generation \<open>A\<close> come about. \<open>t\<close> is the end of the
  last window that was evaluated. Others may do anything that does not commit to \<open>A\<close>; telemetry may
  arrive in any order and be repeated, but not for the first time before \<open>t\<close>; a poll that
  succeeds moves \<open>t\<close> to the end of its window. A poll that fails is among what others may do.
\<close>

inductive flown ::
  "store_env \<Rightarrow> fpu \<Rightarrow> (real \<Rightarrow> nat) \<Rightarrow> policy \<Rightarrow> assignment \<Rightarrow> row list \<Rightarrow> gotime \<Rightarrow> db \<Rightarrow> bool" for E F oor p A where
  begin_flight: "reachable E d \<Longrightarrow> unambiguous F oor tel \<Longrightarrow> generation_checkpoints (asg_ID A) (asg_Generation A) d = [] \<Longrightarrow>
    flown E F oor p A tel (asg_EffectiveFrom A) d"
| others: "flown E F oor p A tel t d \<Longrightarrow> store_step E d d' \<Longrightarrow>
    generation_checkpoints (asg_ID A) (asg_Generation A) d' = generation_checkpoints (asg_ID A) (asg_Generation A) d \<Longrightarrow>
    flown E F oor p A tel t d'"
| arrive: "flown E F oor p A tel t d \<Longrightarrow> unambiguous F oor (tel @ rows) \<Longrightarrow>
    (\<And>o'. o' \<in> set (decoded F oor rows) \<Longrightarrow> belongs A o' \<Longrightarrow> obs_ObservedAt o' < t \<Longrightarrow> o' \<in> set (decoded F oor tel)) \<Longrightarrow>
    flown E F oor p A (tel @ rows) t d"
| poll: "flown E F oor p A tel t d \<Longrightarrow> we_store W = E \<Longrightarrow> we_fpu W = F \<Longrightarrow> we_out_of_range W = oor \<Longrightarrow> we_policy W = p \<Longrightarrow>
    telemetry_ok W tel (asg_AircraftID A) \<Longrightarrow> 0 < wc_OverlapWindow (we_config W) \<Longrightarrow> evaluation_assignment c = A \<Longrightarrow>
    undisturbed I \<Longrightarrow> asg_EffectiveFrom A < window_end (we_config W) now c \<Longrightarrow> t \<le> window_end (we_config W) now c \<Longrightarrow>
    supportedUnixNanoseconds (window_end (we_config W) now c) \<Longrightarrow> processClaim W I now c d = (None, d') \<Longrightarrow>
    flown E F oor p A tel (window_end (we_config W) now c) d'"

definition flight_stored ::
  "store_env \<Rightarrow> fpu \<Rightarrow> (real \<Rightarrow> nat) \<Rightarrow> policy \<Rightarrow> assignment \<Rightarrow> row list \<Rightarrow> gotime \<Rightarrow> db \<Rightarrow> bool" where
  "flight_stored E F oor p A tel t d \<longleftrightarrow>
     (\<forall>u. t \<le> u \<and> supportedUnixNanoseconds u \<longrightarrow>
        checkpoint_of F p A (whole_flight F oor tel A t) (GetReplayCheckpoint E (asg_ID A) (asg_Generation A) u d)) \<and>
     (\<forall>tr\<in>set (run_transitions F p A (whole_flight F oor tel A t) empty_state). event_recorded E A d tr)"

lemma evaluation_assignment_simps [simp]:
  "asg_ID (evaluation_assignment c) = asg_ID (cl_Assignment c)"
  "asg_Generation (evaluation_assignment c) = asg_Generation (cl_Assignment c)"
  "asg_AircraftID (evaluation_assignment c) = asg_AircraftID (cl_Assignment c)"
  "asg_EffectiveFrom (evaluation_assignment c) = cl_AuthorityFrom c"
  by (simp_all add: evaluation_assignment_def)

lemma store_step_events:
  assumes "reachable E d" "store_step E d d'"
  obtains new where "events d' = events d @ new"
  using steps_append [OF r_into_rtranclp [of "store_step E", OF assms(2)] reachable_store_inv reachable_ledger_inv] assms(1) by blast

lemma sorted_wrt_last: "sorted_wrt P xs \<Longrightarrow> x \<in> set xs \<Longrightarrow> x = last xs \<or> P x (last xs)"
  by (cases xs rule: rev_cases) (auto simp: sorted_wrt_append)

text \<open>After a checkpoint at the last frame, what is beyond it is what came after.\<close>

lemma beyond_checkpoint:
  assumes un: "unambiguous F oor tel" and le: "t \<le> t'" and cp: "checkpoint_of F p A (whole_flight F oor tel A t) cp"
  shows "filter (beyond cp) (whole_flight F oor tel A t') = filter (\<lambda>o'. t \<le> obs_ObservedAt o') (whole_flight F oor tel A t')"
    (is "?new = ?late")
proof (rule filter_cong [OF refl])
  fix x assume x: "x \<in> set (whole_flight F oor tel A t')"
  let ?fs = "whole_flight F oor tel A t"
  show "beyond cp x = (t \<le> obs_ObservedAt x)"
  proof (cases cp)
    case None
    then have "?fs = []" using cp by (simp add: checkpoint_of_def)
    moreover have "x \<in> set ?fs" if "obs_ObservedAt x < t" using x that un by (simp add: set_whole_flight)
    ultimately show ?thesis using None by (auto simp: beyond_def not_le [symmetric])
  next
    case (Some k)
    then have ne: "?fs \<noteq> []" and k: "cursor_at (last ?fs) k" using cp by (auto simp: checkpoint_of_def)
    have l: "last ?fs \<in> set ?fs" using ne by simp
    show ?thesis
    proof (cases "obs_ObservedAt x < t")
      case True
      then have "x \<in> set ?fs" using x un by (simp add: set_whole_flight)
      then have "x = last ?fs \<or> workerBefore x (last ?fs)"
        using sorted_wrt_last [OF whole_flight_sorted] by blast
      moreover have "obs_AgentID x = obs_AgentID (last ?fs)" using x l un by (auto simp: set_whole_flight belongs_def)
      ultimately have "\<not> beyond (Some k) x"
        using k by (auto simp: beyond_def cursor_at_def workerBefore_def less_prod_def less_eq_prod_def split: if_splits)
      then show ?thesis using Some True by simp
    next
      case False
      have "obs_ObservedAt (last ?fs) < t" using l un by (simp add: set_whole_flight)
      then show ?thesis using Some False k by (auto simp: beyond_def cursor_at_def less_prod_def)
    qed
  qed
qed

lemma flown_basics:
  "flown E F oor p A tel t d \<Longrightarrow> reachable E d \<and> unambiguous F oor tel \<and> asg_EffectiveFrom A \<le> t"
proof (induction rule: flown.induct)
  case (poll tel t d W c I now d')
  have "(store_step E)\<^sup>*\<^sup>* d d'"
    using processClaim_steps [of W I d now c] poll.hyps by (simp add: lawful_def undisturbed_def)
  then have "reachable E d'" using poll.IH
    by (induction rule: rtranclp_induct) (auto intro: reachable.step)
  then show ?case using poll by auto
qed (auto intro: reachable.step)

lemma reached_flight:
  assumes "flight_stored E F oor p A tel t d" "whole_flight F oor tel' A t' = whole_flight F oor tel A t" "t \<le> t'"
    and "generation_checkpoints (asg_ID A) (asg_Generation A) d' = generation_checkpoints (asg_ID A) (asg_Generation A) d"
    and "events d' = events d @ new"
  shows "flight_stored E F oor p A tel' t' d'"
proof -
  have "GetReplayCheckpoint E (asg_ID A) (asg_Generation A) u d' = GetReplayCheckpoint E (asg_ID A) (asg_Generation A) u d" for u
    by (simp add: GetReplayCheckpoint_def assms(4))
  then show ?thesis using assms event_recorded_appended by (fastforce simp: flight_stored_def)
qed

lemma deferred_tables:
  "DeferAssignmentEvaluation E now c next_at d = Inr d' \<Longrightarrow>
     events d' = events d \<and> generation_checkpoints aid gen d' = generation_checkpoints aid gen d"
  by (auto simp: DeferAssignmentEvaluation_def fenced_update_def generation_checkpoints_def stmt monad_splits split: if_splits)

text \<open>A commit of the frames after the checkpoint stores the evaluation of all frames.\<close>

lemma committed_flight:
  assumes bytes: "text_less E = (<)" and reach: "reachable E d"
    and stored: "flight_stored E F oor p A tel t d" and un: "unambiguous F oor tel"
    and A: "evaluation_assignment c = A"
    and split: "whole_flight F oor tel A t' = whole_flight F oor tel A t @ suffix" and ne: "suffix \<noteq> []"
    and prev: "prev = run_states F p A (whole_flight F oor tel A t) empty_state"
    and batch: "EvaluateBatch F p A suffix prev = Inr e"
    and commit: "CommitEvaluation E now c \<lparr>ec_Evaluation = e, ec_NextEvaluationAt = next_at\<rparr> d = Inr d'"
  shows "flight_stored E F oor p A tel t' d'"
proof -
  let ?fs = "whole_flight F oor tel A t"
  note r = EvaluateBatch_result [OF batch]
  have last: "last suffix \<in> set (whole_flight F oor tel A t')" using ne by (simp add: split)
  have "checkpoint_of F p A (whole_flight F oor tel A t') (GetReplayCheckpoint E (asg_ID A) (asg_Generation A) u d')"
    if u: "t' \<le> u" "supportedUnixNanoseconds u" for u
  proof -
    have "ev_ObservedAt e \<le> u" using last u(1) r(7) un by (auto simp: set_whole_flight)
    then have "GetReplayCheckpoint E (asg_ID A) (asg_Generation A) u d' =
        Some \<lparr>rc_EvaluationRevision = cl_EvaluationRevision c + 1, rc_StateThroughAt = ev_ObservedAt e,
          rc_WALID = ev_WALID e, rc_WALSequence = ev_WALSequence e, rc_FrameID = ev_FrameID e, rc_State = ev_State e\<rparr>"
      using commit_restores [OF reach bytes commit _ u(2)] A by auto
    then show ?thesis using r ne prev by (simp add: checkpoint_of_def cursor_at_def split run_states_append)
  qed
  moreover have "event_recorded E A d' tr" if "tr \<in> set (run_transitions F p A (?fs @ suffix) empty_state)" for tr
  proof (cases "tr \<in> set (run_transitions F p A ?fs empty_state)")
    case True
    then have "event_recorded E A d tr" using stored by (simp add: flight_stored_def)
    then show ?thesis
      using store_step_events [OF reach store_step.commit [OF commit]] event_recorded_appended by metis
  next
    case False
    then have "tr \<in> set (ev_Transitions e)" using that r(5) prev by (simp add: run_transitions_append)
    moreover have "assignments_ok (assignments d)"
      using reachable_store_inv [OF reach] by (simp add: store_inv_def timeline_inv_def)
    ultimately have "event_recorded E (cl_Assignment c) d' tr" using commit_recorded [OF _ commit] by simp
    then show ?thesis using A event_recorded_key [of "cl_Assignment c" A] by auto
  qed
  ultimately show ?thesis by (simp add: flight_stored_def split)
qed

text \<open>Processing a claim continues the evaluation of the frames \<open>fs\<close> with \<open>suffix\<close>.\<close>

definition continues_flight ::
  "worker_env \<Rightarrow> interference \<Rightarrow> gotime \<Rightarrow> claim \<Rightarrow> db \<Rightarrow> assignment \<Rightarrow> observation list \<Rightarrow> observation list \<Rightarrow> bool" where
  "continues_flight W I now c d A fs suffix \<longleftrightarrow>
     (let nx = now + wc_PollInterval (we_config W); F = we_fpu W; p = we_policy W in
      if suffix = [] then processClaim W I now c d = deferClaim W I 1 c nx d
      else \<exists>e. EvaluateBatch F p A suffix (run_states F p A fs empty_state) = Inr e \<and>
        processClaim W I now c d =
          (case CommitEvaluation (we_store W) (ix_clock I 1) c \<lparr>ec_Evaluation = e, ec_NextEvaluationAt = nx\<rparr> d of
             Inl err \<Rightarrow> (Some (WStore err), d) | Inr d' \<Rightarrow> (None, d')))"

lemma poll_runs:
  assumes env: "validateAssignment A p = Inr ()" "zero_time < asg_EffectiveFrom A" "TrimSpace (asg_AircraftID A) = asg_AircraftID A"
    and stored: "flight_stored E F oor p A tel t d" and un: "unambiguous F oor tel"
    and W: "we_store W = E" "we_fpu W = F" "we_out_of_range W = oor" "we_policy W = p"
    and tel: "telemetry_ok W tel (asg_AircraftID A)" and cfg: "0 < wc_OverlapWindow (we_config W)"
    and A: "evaluation_assignment c = A" and quiet: "undisturbed I"
    and till: "asg_EffectiveFrom A < till" "t \<le> till" "supportedUnixNanoseconds till" "till = window_end (we_config W) now c"
    and matches: "checkpoint_matches c (GetReplayCheckpoint E (asg_ID A) (asg_Generation A) till d)"
  obtains suffix where "whole_flight F oor tel A till = whole_flight F oor tel A t @ suffix"
    "continues_flight W I now c d A (whole_flight F oor tel A t) suffix"
proof -
  define cp where "cp = GetReplayCheckpoint E (asg_ID A) (asg_Generation A) till d"
  have at: "checkpoint_of F p A (whole_flight F oor tel A t) cp"
    using stored till(2,3) by (simp add: flight_stored_def cp_def)
  obtain suffix where sorted: "sorted_wrt workerBefore suffix" and set: "set suffix = new_frames W tel c cp till"
    and outcome: "if suffix = [] then processClaim W I now c d = deferClaim W I 1 c (now + wc_PollInterval (we_config W)) d
       else \<exists>e. EvaluateBatch F p A suffix (case cp of None \<Rightarrow> empty_state | Some k \<Rightarrow> rc_State k) = Inr e \<and>
         processClaim W I now c d =
           (case CommitEvaluation E (ix_clock I 1) c
                   \<lparr>ec_Evaluation = e, ec_NextEvaluationAt = now + wc_PollInterval (we_config W)\<rparr> d of
              Inl err \<Rightarrow> (Some (WStore err), d) | Inr d' \<Rightarrow> (None, d'))"
    using claim_runs [of W tel c I now d cp] tel env A W cfg quiet till matches by (auto simp: cp_def)
  have prev: "(case cp of None \<Rightarrow> empty_state | Some k \<Rightarrow> rc_State k) = run_states F p A (whole_flight F oor tel A t) empty_state"
    using at by (auto simp: checkpoint_of_def split: option.splits)
  have "suffix = filter (beyond cp) (whole_flight F oor tel A till)"
    by (rule worker_order.sorted_determined [OF sorted sorted_wrt_filter [OF whole_flight_sorted]])
      (use set new_frames_whole_flight [of W tel c A cp till] un A W in auto)
  then have "suffix = filter (\<lambda>o'. t \<le> obs_ObservedAt o') (whole_flight F oor tel A till)"
    using beyond_checkpoint [OF un till(2) at] by simp
  then have split: "whole_flight F oor tel A till = whole_flight F oor tel A t @ suffix"
    using whole_flight_split [OF un till(2), of A] by simp
  from outcome show ?thesis unfolding prev by (intro that [OF split]) (simp only: continues_flight_def Let_def W)
qed

text \<open>A poll that succeeds has either put the claim off or committed the new frames.\<close>

lemma successful_poll:
  assumes env: "validateAssignment A p = Inr ()" "zero_time < asg_EffectiveFrom A" "TrimSpace (asg_AircraftID A) = asg_AircraftID A"
    and stored: "flight_stored E F oor p A tel t d" and un: "unambiguous F oor tel"
    and W: "we_store W = E" "we_fpu W = F" "we_out_of_range W = oor" "we_policy W = p"
    and tel: "telemetry_ok W tel (asg_AircraftID A)" and cfg: "0 < wc_OverlapWindow (we_config W)"
    and A: "evaluation_assignment c = A" and quiet: "undisturbed I"
    and till: "asg_EffectiveFrom A < till" "t \<le> till" "supportedUnixNanoseconds till" "till = window_end (we_config W) now c"
    and run: "processClaim W I now c d = (None, d')"
  obtains (deferred) nx where "whole_flight F oor tel A till = whole_flight F oor tel A t"
      "DeferAssignmentEvaluation E (ix_clock I 1) c nx d = Inr d'"
    | (committed) suffix prev e nx where "whole_flight F oor tel A till = whole_flight F oor tel A t @ suffix" "suffix \<noteq> []"
      "prev = run_states F p A (whole_flight F oor tel A t) empty_state" "EvaluateBatch F p A suffix prev = Inr e"
      "CommitEvaluation E (ix_clock I 1) c \<lparr>ec_Evaluation = e, ec_NextEvaluationAt = nx\<rparr> d = Inr d'"
proof -
  let ?fs = "whole_flight F oor tel A t"
  have "checkpoint_matches c (GetReplayCheckpoint E (asg_ID A) (asg_Generation A) till d)"
  proof (rule ccontr)
    assume "\<not> checkpoint_matches c (GetReplayCheckpoint E (asg_ID A) (asg_Generation A) till d)"
    then have "processClaim W I now c d = deferAfterError W I 1 c now WCheckpointMismatch d"
      using quiet till A W(1) by (auto simp: processClaim_def Let_def undisturbed_def)
    with run show False by (auto simp: deferAfterError_def split: if_splits prod.splits option.splits)
  qed
  from poll_runs [OF env stored un W tel cfg A quiet till this] obtain suffix
    where split: "whole_flight F oor tel A till = ?fs @ suffix" and outcome: "continues_flight W I now c d A ?fs suffix" by blast
  show ?thesis
  proof (cases "suffix = []")
    case True
    then have "DeferAssignmentEvaluation E (ix_clock I 1) c (now + wc_PollInterval (we_config W)) d = Inr d'"
      using outcome run quiet W(1) by (auto simp: continues_flight_def deferClaim_def undisturbed_def Let_def split: if_splits sum.splits)
    with split True show ?thesis using deferred by simp
  next
    case False
    let ?cm = "\<lambda>e. \<lparr>ec_Evaluation = e, ec_NextEvaluationAt = now + wc_PollInterval (we_config W)\<rparr>"
    from False outcome run W obtain e where e: "EvaluateBatch F p A suffix (run_states F p A ?fs empty_state) = Inr e"
      "(case CommitEvaluation E (ix_clock I 1) c (?cm e) d of Inl err \<Rightarrow> (Some (WStore err), d) | Inr d' \<Rightarrow> (None, d')) = (None, d')"
      by (auto simp: continues_flight_def Let_def)
    then have "CommitEvaluation E (ix_clock I 1) c (?cm e) d = Inr d'"
      by (cases "CommitEvaluation E (ix_clock I 1) c (?cm e) d") simp_all
    with split False e(1) show ?thesis using committed by blast
  qed
qed

lemma polled_flight:
  assumes env: "text_less E = (<)" "validateAssignment A p = Inr ()" "zero_time < asg_EffectiveFrom A"
    "TrimSpace (asg_AircraftID A) = asg_AircraftID A"
    and stored: "flight_stored E F oor p A tel t d" and reach: "reachable E d" and un: "unambiguous F oor tel"
    and W: "we_store W = E" "we_fpu W = F" "we_out_of_range W = oor" "we_policy W = p"
    and tel: "telemetry_ok W tel (asg_AircraftID A)" and cfg: "0 < wc_OverlapWindow (we_config W)"
    and A: "evaluation_assignment c = A" and quiet: "undisturbed I"
    and till: "asg_EffectiveFrom A < till" "t \<le> till" "supportedUnixNanoseconds till" "till = window_end (we_config W) now c"
    and run: "processClaim W I now c d = (None, d')"
  shows "flight_stored E F oor p A tel till d'"
  using env(2-4) stored un W tel cfg A quiet till run
proof (cases rule: successful_poll)
  case (deferred nx)
  with deferred_tables [OF deferred(2), of "asg_ID A" "asg_Generation A"] show ?thesis
    using reached_flight [OF stored deferred(1) till(2), of d' "[]"] by auto
next
  case (committed suffix prev e nx)
  then show ?thesis using committed_flight [OF env(1) reach stored un A] till(2) by blast
qed

lemma arrived_flight:
  assumes "flown E F oor p A tel t d" "unambiguous F oor (tel @ rows)"
    "\<And>o'. o' \<in> set (decoded F oor rows) \<Longrightarrow> belongs A o' \<Longrightarrow> obs_ObservedAt o' < t \<Longrightarrow> o' \<in> set (decoded F oor tel)"
  shows "whole_flight F oor (tel @ rows) A t = whole_flight F oor tel A t"
proof (rule worker_order.sorted_determined [OF whole_flight_sorted whole_flight_sorted])
  show "set (whole_flight F oor (tel @ rows) A t) = set (whole_flight F oor tel A t)"
    using flown_basics [OF assms(1)] assms(2,3) by (auto simp: set_whole_flight decoded_append)
qed

lemma flown_stored:
  assumes "flown E F oor p A tel t d" and env: "text_less E = (<)" "validateAssignment A p = Inr ()" "zero_time < asg_EffectiveFrom A"
    "TrimSpace (asg_AircraftID A) = asg_AircraftID A"
  shows "flight_stored E F oor p A tel t d"
  using assms(1)
proof (induction rule: flown.induct)
  case (begin_flight d tel)
  have "whole_flight F oor tel A (asg_EffectiveFrom A) = []" by (auto simp: whole_flight_def belongs_def filter_empty_conv)
  then show ?case using begin_flight by (simp add: flight_stored_def checkpoint_of_def GetReplayCheckpoint_def)
next
  case (others tel t d d')
  from store_step_events [OF _ others.hyps(2)] flown_basics [OF others.hyps(1)]
  obtain new where "events d' = events d @ new" by blast
  then show ?case by (rule reached_flight [OF others.IH refl order_refl others.hyps(3)])
next
  case (arrive tel t d rows)
  show ?case by (rule reached_flight [OF arrive.IH arrived_flight [OF arrive.hyps] order_refl refl, where new = "[]"]) simp_all
next
  case (poll tel t d W c I now d')
  show ?case
    by (rule polled_flight [OF env poll.IH _ _ poll.hyps(2-9) poll.hyps(10-12) refl poll.hyps(13)])
      (use flown_basics [OF poll.hyps(1)] in auto)
qed

text \<open>
  C4: Polling evaluates the whole flight. For a valid assignment, a database that orders text
  bytewise and telemetry none of whose frames arrives after its instant has settled, however
  the flight was cut into polls and whatever others did in between: the stored checkpoint stands at the last
  settled frame of the flight, its state is the state of one evaluation of all settled
  frames from the beginning, and every incident transition of that evaluation is recorded as
  an event of the generation.
\<close>

theorem polling_evaluates_whole_flight:
  assumes "flown E F oor p A tel t d" and "text_less E = (<)" "validateAssignment A p = Inr ()" "zero_time < asg_EffectiveFrom A"
    "TrimSpace (asg_AircraftID A) = asg_AircraftID A"
  shows "(\<forall>u. t \<le> u \<and> supportedUnixNanoseconds u \<longrightarrow>
      checkpoint_of F p A (whole_flight F oor tel A t) (GetReplayCheckpoint E (asg_ID A) (asg_Generation A) u d)) \<and>
    (\<forall>tr\<in>set (run_transitions F p A (whole_flight F oor tel A t) empty_state). event_recorded E A d tr)"
  using flown_stored [OF assms] by (simp add: flight_stored_def)

section \<open>A flight outside its planned time\<close>

text \<open>
  The demonstration assignment, whose only volume is planned for later, is claimed and polled
  once; one sample opens an incident, and its event is on record.
\<close>

definition early_worker :: worker_env where
  "early_worker =
     \<lparr>we_store = store_env_demo, we_fpu = \<lparr>rnd = Fin, fcos = (\<lambda>_. Fin 1), fhypot = (\<lambda>x _. x)\<rparr>, we_out_of_range = (\<lambda>_. 0),
      we_runner = runner_of pair_demo, we_reader = \<lparr>rd_chunkSize = 1, rd_maxRows = 3\<rparr>,
      we_policy = \<lparr>pol_Version = ''p'', pol_HorizontalToleranceM = Fin 5, pol_VerticalToleranceM = Fin 3,
        pol_OpenAfterSamples = 1, pol_RecoverAfterSamples = 3, pol_TelemetryFreshness = 15\<rparr>,
      we_config = \<lparr>wc_WorkerID = ''w'', wc_PollInterval = 100, wc_LeaseDuration = 100, wc_RenewInterval = 10,
        wc_SettleDelay = 0, wc_OverlapWindow = 10, wc_ClaimBatchSize = 10\<rparr>\<rparr>"

definition early_claim :: claim where
  "early_claim = (claim_demo 1 1 0)\<lparr>cl_Assignment := (spec_demo 1)\<lparr>asg_Volumes := [volume_demo\<lparr>vol_StartsAt := 8000\<rparr>]\<rparr>\<rparr>"

abbreviation early_poll :: outcome where
  "early_poll \<equiv> processClaim early_worker quiet_demo 5000 early_claim db_claimed"

lemma early_poll_commits: "fst early_poll = None" "map evt_frame (events (snd early_poll)) = [''x'']"
  by code_simp+

lemma early_assignment:
  "asg_ID (evaluation_assignment early_claim) = ''A''" "asg_Generation (evaluation_assignment early_claim) = 1"
  "asg_AircraftID (evaluation_assignment early_claim) = ''c''" "asg_EffectiveFrom (evaluation_assignment early_claim) = 1000"
  by (simp_all add: early_claim_def claim_demo_def spec_demo_def)

lemma early_trim: "TrimSpace (asg_AircraftID (evaluation_assignment early_claim)) = asg_AircraftID (evaluation_assignment early_claim)"
  unfolding early_assignment by (simp add: demo_words)

lemma early_valid: "validateAssignment (evaluation_assignment early_claim) (we_policy early_worker) = Inr ()"
  by (simp add: validateAssignment_def evaluation_assignment_def early_claim_def claim_demo_def spec_demo_def early_worker_def
      volume_demo_def validCoordinate_def finite_def IsZero_def zero_time_def)

lemma early_telemetry: "telemetry_ok early_worker pair_demo (asg_AircraftID (evaluation_assignment early_claim))"
  unfolding early_assignment by (rule pair_demo_ok) (simp_all add: early_worker_def)

lemma early_window: "window_end (we_config early_worker) 5000 early_claim = 5000"
  by (simp add: window_end_def early_worker_def early_claim_def claim_demo_def)

lemma quiet_undisturbed: "undisturbed quiet_demo"
  by (simp add: undisturbed_def quiet_demo_def)

lemma early_start:
  "flown store_env_demo (we_fpu early_worker) (\<lambda>_. 0) (we_policy early_worker) (evaluation_assignment early_claim) pair_demo
     (asg_EffectiveFrom (evaluation_assignment early_claim)) db_claimed"
proof (rule flown.begin_flight [OF reachable_claimed])
  show "unambiguous (we_fpu early_worker) (\<lambda>_. 0) pair_demo"
    unfolding decoded_pair by (rule inj_onI) (auto simp: observation_demo_def)
  have "generation_checkpoints ''A'' 1 db_claimed = []" by code_simp
  then show "generation_checkpoints (asg_ID (evaluation_assignment early_claim)) (asg_Generation (evaluation_assignment early_claim)) db_claimed = []"
    by (simp only: early_assignment)
qed

lemma early_flown:
  "flown store_env_demo (we_fpu early_worker) (\<lambda>_. 0) (we_policy early_worker) (evaluation_assignment early_claim) pair_demo 5000
     (snd early_poll)"
proof -
  have "supportedUnixNanoseconds 5000" by code_simp
  moreover have "early_poll = (None, snd early_poll)" using early_poll_commits(1) by (simp add: prod_eq_iff)
  ultimately show ?thesis
    using flown.poll [OF early_start, of early_worker early_claim quiet_demo 5000 "snd early_poll"]
      early_telemetry quiet_undisturbed early_window early_assignment(4)
    by (simp add: early_worker_def)
qed

lemma early_flight:
  "whole_flight (we_fpu early_worker) (\<lambda>_. 0) pair_demo (evaluation_assignment early_claim) 5000 =
     [observation_demo ''x'' 1 1000, observation_demo ''y'' 2 1003]"
proof -
  have "belongs (evaluation_assignment early_claim) (observation_demo f n t)" if "1000 \<le> t" for f n t
    using that by (simp add: belongs_def evaluation_assignment_def early_claim_def claim_demo_def spec_demo_def observation_demo_def)
  moreover have "decoded (we_fpu early_worker) (\<lambda>_. 0) pair_demo =
      [observation_demo ''y'' 2 1003, observation_demo ''x'' 1 1000, observation_demo ''y'' 2 1003]"
    by (simp add: decoded_def pair_demo_def row_demo_decodes demo_words)
  moreover have "obs_FrameID (observation_demo f n t) = f" "obs_ObservedAt (observation_demo f n t) = t" for f n t
    by (simp_all add: observation_demo_def)
  ultimately show ?thesis by (simp add: whole_flight_def workerBefore_def)
qed

theorem polling_evaluates_whole_flight_witness:
  "(\<exists>k. GetReplayCheckpoint store_env_demo ''A'' 1 6000 (snd early_poll) = Some k \<and> rc_FrameID k = ''y'') \<and>
   list_all (event_recorded store_env_demo (evaluation_assignment early_claim) (snd early_poll))
     (run_transitions (we_fpu early_worker) (we_policy early_worker) (evaluation_assignment early_claim)
        [observation_demo ''x'' 1 1000, observation_demo ''y'' 2 1003] empty_state)"
proof -
  let ?A = "evaluation_assignment early_claim" and ?F = "we_fpu early_worker"
  have u: "supportedUnixNanoseconds 6000" by code_simp
  have bytes: "text_less store_env_demo = (<)" by (simp add: store_env_demo_def)
  have zero: "zero_time < asg_EffectiveFrom ?A" unfolding early_assignment by (simp add: zero_time_def)
  note stored = polling_evaluates_whole_flight [OF early_flown bytes early_valid zero early_trim]
  have "checkpoint_of ?F (we_policy early_worker) ?A [observation_demo ''x'' 1 1000, observation_demo ''y'' 2 1003]
      (GetReplayCheckpoint store_env_demo ''A'' 1 6000 (snd early_poll))"
    using conjunct1 [OF stored, rule_format, of 6000] u unfolding early_flight early_assignment by simp
  then obtain k where "GetReplayCheckpoint store_env_demo ''A'' 1 6000 (snd early_poll) = Some k"
    "cursor_at (observation_demo ''y'' 2 1003) k"
    by (cases "GetReplayCheckpoint store_env_demo ''A'' 1 6000 (snd early_poll)") (simp_all add: checkpoint_of_def)
  moreover from this(2) have "rc_FrameID k = ''y''" by (simp add: cursor_at_def observation_demo_def)
  moreover have "list_all (event_recorded store_env_demo ?A (snd early_poll))
      (run_transitions ?F (we_policy early_worker) ?A [observation_demo ''x'' 1 1000, observation_demo ''y'' 2 1003] empty_state)"
    using conjunct2 [OF stored] unfolding early_flight list_all_iff .
  ultimately show ?thesis by blast
qed

end
