(* ===== verification/Store_Incidents.thy ===== *)
theory Store_Incidents
  imports Store_Evidence
begin

text \<open>
  The incident and event tables under every operation of the store. Their rows are named by
  \<^verbatim>\<open>stableID\<close> from their own columns, only a commit writes them, it writes rows of its own
  generation only, and it leaves a checkpoint of that generation behind.
\<close>

section \<open>Names\<close>

definition incident_name :: "store_env \<Rightarrow> string \<Rightarrow> nat \<Rightarrow> violation_type \<Rightarrow> string \<Rightarrow> string" where
  "incident_name E aid gen v frame = stableID E [''incident'', aid, show_nat gen, violation_name v, frame]"

definition event_name :: "store_env \<Rightarrow> string \<Rightarrow> nat \<Rightarrow> violation_type \<Rightarrow> transition \<Rightarrow> string \<Rightarrow> string" where
  "event_name E aid gen v tr frame =
     stableID E [''event'', aid, show_nat gen, violation_name v, transition_name tr, frame]"

lemma incident_id_name: "incident_id E a t = incident_name E (asg_ID a) (asg_Generation a) (tr_Violation t) (tr_OpeningFrameID t)"
  by (simp add: incident_id_def incident_name_def)

lemma event_id_name:
  "event_id E a t = event_name E (asg_ID a) (asg_Generation a) (tr_Violation t) (tr_Transition t) (tr_FrameID t)"
  by (simp add: event_id_def event_name_def)

lemma violation_name_inj [simp]: "violation_name v = violation_name w \<longleftrightarrow> v = w"
  by (cases v; cases w) simp_all

lemma transition_name_inj [simp]: "transition_name v = transition_name w \<longleftrightarrow> v = w"
  by (cases v; cases w) simp_all

lemma stableID_inj: "inj (sha_hex E) \<Longrightarrow> stableID E xs = stableID E ys \<longleftrightarrow> xs = ys"
  using stable_bytes_inj by (auto simp: stableID_def dest: injD)

lemma incident_name_inj:
  "inj (sha_hex E) \<Longrightarrow> incident_name E aid gen v f = incident_name E aid' gen' v' f' \<longleftrightarrow> aid = aid' \<and> gen = gen' \<and> v = v' \<and> f = f'"
  by (simp add: incident_name_def stableID_inj)

lemma event_name_inj:
  "inj (sha_hex E) \<Longrightarrow> event_name E aid gen v tr f = event_name E aid' gen' v' tr' f' \<longleftrightarrow>
     aid = aid' \<and> gen = gen' \<and> v = v' \<and> tr = tr' \<and> f = f'"
  by (simp add: event_name_def stableID_inj)

definition named_rows :: "store_env \<Rightarrow> db \<Rightarrow> bool" where
  "named_rows E d \<longleftrightarrow>
     (\<forall>r\<in>set (incidents d). inc_id r = incident_name E (inc_aid r) (inc_gen r) (inc_key r) (inc_opening_frame r)) \<and>
     (\<forall>e\<in>set (events d). evt_id e = event_name E (evt_aid e) (evt_gen e) (evt_violation e) (evt_transition e) (evt_frame e))"

section \<open>Rows of a generation\<close>

definition generation_incidents :: "string \<Rightarrow> nat \<Rightarrow> db \<Rightarrow> incident_row list" where
  "generation_incidents aid gen d = filter (\<lambda>r. inc_aid r = aid \<and> inc_gen r = gen) (incidents d)"

definition generation_events :: "string \<Rightarrow> nat \<Rightarrow> db \<Rightarrow> event_row list" where
  "generation_events aid gen d = filter (\<lambda>e. evt_aid e = aid \<and> evt_gen e = gen) (events d)"

text \<open>From \<open>d\<close> to \<open>d'\<close> only incidents and events of one generation were written.\<close>

definition own_writes :: "store_env \<Rightarrow> assignment \<Rightarrow> db \<Rightarrow> db \<Rightarrow> bool" where
  "own_writes E a d d' \<longleftrightarrow>
     (\<forall>aid gen. (aid, gen) \<noteq> (asg_ID a, asg_Generation a) \<longrightarrow>
        generation_incidents aid gen d' = generation_incidents aid gen d \<and>
        generation_events aid gen d' = generation_events aid gen d) \<and>
     (incidents_ok (incidents d) \<longrightarrow> incidents_ok (incidents d')) \<and> (named_rows E d \<longrightarrow> named_rows E d')"

lemma own_writes_refl [simp]: "own_writes E a d d"
  by (simp add: own_writes_def)

lemma own_writes_trans: "own_writes E a d d1 \<Longrightarrow> own_writes E a d1 d2 \<Longrightarrow> own_writes E a d d2"
  by (simp add: own_writes_def)

lemma same_rows:
  assumes "incidents d' = incidents d" "events d' = events d"
  shows "generation_incidents aid gen d' = generation_incidents aid gen d"
    "generation_events aid gen d' = generation_events aid gen d" "named_rows E d' = named_rows E d"
  by (simp_all only: generation_incidents_def generation_events_def named_rows_def assms)

lemma own_writes_tables:
  assumes "own_writes E a d1 d2" "incidents d1 = incidents d" "events d1 = events d" "incidents d2 = incidents d'" "events d2 = events d'"
  shows "own_writes E a d d'"
  using assms(1) unfolding own_writes_def same_rows [OF assms(2,3)] same_rows [OF assms(4,5)] assms(2,4) .

lemma own_writes_incident:
  assumes "inc_aid row = asg_ID a" "inc_gen row = asg_Generation a" "incidents_ok (incidents d @ [row])"
    "inc_id row = incident_name E (inc_aid row) (inc_gen row) (inc_key row) (inc_opening_frame row)"
  shows "own_writes E a d (d\<lparr>incidents := incidents d @ [row]\<rparr>)"
  using assms by (simp add: own_writes_def generation_incidents_def generation_events_def named_rows_def)

lemma own_writes_event:
  assumes "evt_aid row = asg_ID a" "evt_gen row = asg_Generation a"
    "evt_id row = event_name E (evt_aid row) (evt_gen row) (evt_violation row) (evt_transition row) (evt_frame row)"
  shows "own_writes E a d (d\<lparr>events := events d @ [row]\<rparr>)"
  using assms by (simp add: own_writes_def generation_incidents_def generation_events_def named_rows_def)

lemma open_incident_own:
  assumes "open_incident E a pl t d = Inr (iid, d')"
  shows "own_writes E a d d'"
proof (cases "List.find (\<lambda>r. inc_id r = incident_id E a t) (incidents d)")
  case None
  then show ?thesis using assms
    by (auto simp: open_incident_def Let_def incident_id_name split: if_splits intro!: own_writes_incident)
next
  case (Some r)
  then show ?thesis using assms by (auto simp: open_incident_def Let_def split: if_splits)
qed

lemma mutate_incident_own: "mutate_incident E a pl t d = Inr (iid, d') \<Longrightarrow> own_writes E a d d'"
  by (auto simp: mutate_incident_def find_opening_def open_incident_own split: transition.splits option.splits)

lemma put_event_own: "put_event (event_entry E a n iid t) d = Inr d' \<Longrightarrow> own_writes E a d d'"
  unfolding put_event_def
  by (auto simp: event_entry_def event_id_name split: option.splits if_splits intro!: own_writes_event)

lemma materialize_resolution_own:
  assumes "materialize_resolution E a pl t iid eid d = Inr d'"
  shows "own_writes E a d d'"
proof -
  let ?P = "\<lambda>r. inc_id r = iid \<and> inc_aid r = asg_ID a \<and> inc_gen r = asg_Generation a \<and> inc_key r = tr_Violation t"
  from assms obtain f where d': "d' = d\<lparr>incidents := update_where ?P f (incidents d)\<rparr>" and ok: "incidents_ok (incidents d')"
    and f: "\<And>r. inc_id (f r) = inc_id r \<and> inc_aid (f r) = inc_aid r \<and> inc_gen (f r) = inc_gen r \<and> inc_key (f r) = inc_key r \<and>
        inc_opening_frame (f r) = inc_opening_frame r"
    by (auto simp: materialize_resolution_def Let_def split: if_splits)
  have "generation_incidents aid gen d' = generation_incidents aid gen d" if "(aid, gen) \<noteq> (asg_ID a, asg_Generation a)" for aid gen
    unfolding d' generation_incidents_def by (simp, rule filter_update_where) (use that f in auto)
  moreover have "named_rows E d \<longrightarrow> named_rows E d'" using f by (auto simp: d' named_rows_def)
  ultimately show ?thesis using ok by (simp add: own_writes_def) (simp add: d' generation_events_def)
qed

lemma write_transition_own: "write_transition E a n pl t d = Inr d' \<Longrightarrow> own_writes E a d d'"
  by (auto simp: write_transition_def monad_splits split: if_splits
      dest!: mutate_incident_own put_event_own materialize_resolution_own intro: own_writes_trans)

lemma write_transitions_own: "write_transitions E a n pl ts d = Inr d' \<Longrightarrow> own_writes E a d d'"
proof (induction ts arbitrary: d)
  case (Cons t ts)
  then show ?case by (auto simp: monad_splits dest!: write_transition_own intro: own_writes_trans)
qed simp

lemma writeEvaluation_own:
  assumes "writeEvaluation E now a n e allowEqual publish d = Inr d'"
  shows "own_writes E a d d'" "checkpoints_ok (checkpoints d')"
proof -
  obtain d1 d2 d3 where d1: "write_transitions E a n (confirmed e) (ev_Transitions (confirmed e)) d = Inr d1"
    and d2: "insert_checkpoint (checkpoint_entry E a n (confirmed e)) d1 = Inr d2"
    and d3: "upsert_summary (summary_entry E a n (confirmed e)) d2 = Inr d3"
    and d': "d' = (if publish then enqueue_live (registry_outbox now a n (confirmed e)) d3 else d3)"
    using assms by (auto simp: writeEvaluation_def confirmed_def monad_splits Let_def split: option.splits)
  have tables: "incidents d' = incidents d1" "events d' = events d1" "checkpoints d' = checkpoints d2"
    using d2 d3 d' by (auto simp: stmt upsert_summary_def enqueue_live_def Let_def split: if_splits)
  show "own_writes E a d d'" by (rule own_writes_tables [OF write_transitions_own [OF d1]]) (simp_all add: tables)
  show "checkpoints_ok (checkpoints d')"
    using d2 by (auto simp: tables insert_checkpoint_def split: if_splits)
qed

section \<open>Every step\<close>

lemma prepare_tables:
  "PrepareAssignment E now source msg ty a d = Inr (res, d') \<Longrightarrow> evidence_tables d' = evidence_tables d"
  by (erule PrepareAssignment_cases) (auto simp: stmt evidence_tables_def dest: store_candidate_Inr(3))

lemma candidate_tables:
  "transitionCandidate E now source msg ty aid gen target d = Inr (res, d') \<Longrightarrow> evidence_tables d' = evidence_tables d"
  by (erule transitionCandidate_cases) (auto simp: evidence_tables_def dest!: recordLifecycleCommand_Inr(2))

lemma cutover_tables:
  "CutoverAssignment E now source msg aid gen eff d = Inr (res, d') \<Longrightarrow> evidence_tables d' = evidence_tables d"
  by (auto simp: CutoverAssignment_def cutover_candidate_def monad_splits stmt Let_def evidence_tables_def
      split: option.splits if_splits dest!: recordLifecycleCommand_Inr(2))

lemma lease_tables:
  "ClaimDueAssignmentsWithFinalizationGrace E now locked w lease grace limit d = (cs, d') \<Longrightarrow> evidence_tables d' = evidence_tables d"
  "DeferAssignmentEvaluation E now c t d = Inr d' \<Longrightarrow> evidence_tables d' = evidence_tables d"
  "RenewAssignmentLease E now c ext d = Inr d' \<Longrightarrow> evidence_tables d' = evidence_tables d"
  by (erule ClaimDue_cases)
    (auto simp: DeferAssignmentEvaluation_def RenewAssignmentLease_def monad_splits stmt evidence_tables_def)

definition evaluation_written :: "store_env \<Rightarrow> assignment \<Rightarrow> db \<Rightarrow> db \<Rightarrow> bool" where
  "evaluation_written E a d d' \<longleftrightarrow>
     own_writes E a d d' \<and> checkpoints_ok (checkpoints d') \<and>
     (\<exists>cp. checkpoints d' = checkpoints d @ [cp] \<and> cp_aid cp = asg_ID a \<and> cp_gen cp = asg_Generation a)"

lemma written_evaluation:
  assumes "writeEvaluation E now a n e allowEqual publish (d\<lparr>assignments := rows\<rparr>) = Inr d'"
  shows "evaluation_written E a d d'"
proof -
  have "own_writes E a d d'" by (rule own_writes_tables [OF writeEvaluation_own(1) [OF assms]]) simp_all
  then show ?thesis
    using writeEvaluation_own(2) [OF assms] writeEvaluation_Inr(3) [OF assms] by (simp add: evaluation_written_def)
qed

lemma store_step_writes:
  assumes "store_step E d d'" "store_inv d"
  shows "evidence_tables d' = evidence_tables d \<or> (\<exists>a. evaluation_written E a d d')"
proof -
  have ok: "assignments_ok (assignments d)" using assms(2) by (simp add: store_inv_def timeline_inv_def)
  from assms(1) show ?thesis
  proof cases
    case (commit now c cm)
    then show ?thesis by (rule CommitEvaluation_Inr [OF ok]) (blast dest: written_evaluation)
  next
    case (commit_historical now c hist cm)
    then show ?thesis by (rule CommitHistoricalEvaluation_Inr [OF ok]) (blast dest: written_evaluation)
  qed (auto simp: ArmAssignment_def CancelCandidate_def dest: prepare_tables candidate_tables cutover_tables lease_tables outbox_ops_frame)
qed

section \<open>Invariant\<close>

definition evidence_inv :: "store_env \<Rightarrow> db \<Rightarrow> bool" where
  "evidence_inv E d \<longleftrightarrow>
     incidents_ok (incidents d) \<and> checkpoints_ok (checkpoints d) \<and> named_rows E d \<and>
     (\<forall>aid gen. generation_checkpoints aid gen d = [] \<longrightarrow> generation_incidents aid gen d = [] \<and> generation_events aid gen d = [])"

lemma evidence_inv_same:
  "evidence_tables d' = evidence_tables d \<Longrightarrow> evidence_inv E d' = evidence_inv E d"
  by (simp add: evidence_tables_def evidence_inv_def named_rows_def generation_checkpoints_def generation_incidents_def
      generation_events_def)

lemma written_checkpoints:
  assumes "evaluation_written E a d d'"
  shows "generation_checkpoints aid gen d' \<noteq> generation_checkpoints aid gen d \<longleftrightarrow> (aid, gen) = (asg_ID a, asg_Generation a)"
    "generation_checkpoints (asg_ID a) (asg_Generation a) d' \<noteq> []"
  using assms by (auto simp: evaluation_written_def generation_checkpoints_def split: if_splits)

lemma written_inv:
  assumes w: "evaluation_written E a d d'" and inv: "evidence_inv E d"
  shows "evidence_inv E d'"
proof -
  have "generation_incidents aid gen d' = [] \<and> generation_events aid gen d' = []" if "generation_checkpoints aid gen d' = []" for aid gen
  proof -
    have "(aid, gen) \<noteq> (asg_ID a, asg_Generation a)" using that written_checkpoints(2) [OF w] by auto
    moreover from this have "generation_checkpoints aid gen d = []" using that written_checkpoints(1) [OF w, of aid gen] by metis
    ultimately show ?thesis using w inv unfolding evaluation_written_def own_writes_def evidence_inv_def by metis
  qed
  then show ?thesis using w inv unfolding evaluation_written_def own_writes_def evidence_inv_def by blast
qed

lemma reachable_evidence_inv: "reachable E d \<Longrightarrow> evidence_inv E d"
proof (induction rule: reachable.induct)
  case init
  then show ?case
    by (simp add: evidence_inv_def empty_db_def incidents_ok_def checkpoints_ok_def named_rows_def generation_incidents_def
        generation_events_def)
next
  case (step d d')
  from store_step_writes [OF step.hyps(2) reachable_store_inv [OF step.hyps(1)]] show ?case
    using step.IH evidence_inv_same written_inv by blast
qed

text \<open>Whoever does not commit to a generation leaves its incidents and events alone.\<close>

lemma others_leave_rows:
  assumes "reachable E d" "store_step E d d'" "generation_checkpoints aid gen d' = generation_checkpoints aid gen d"
  shows "generation_incidents aid gen d' = generation_incidents aid gen d"
    "generation_events aid gen d' = generation_events aid gen d"
proof -
  consider "evidence_tables d' = evidence_tables d" | a where "evaluation_written E a d d'"
    using store_step_writes [OF assms(2) reachable_store_inv [OF assms(1)]] by blast
  then have "generation_incidents aid gen d' = generation_incidents aid gen d \<and> generation_events aid gen d' = generation_events aid gen d"
  proof cases
    case 1
    then show ?thesis by (simp add: evidence_tables_def generation_incidents_def generation_events_def)
  next
    case 2
    then have "(aid, gen) \<noteq> (asg_ID a, asg_Generation a)" using written_checkpoints(1) assms(3) by blast
    then show ?thesis using 2 unfolding evaluation_written_def own_writes_def by blast
  qed
  then show "generation_incidents aid gen d' = generation_incidents aid gen d"
    "generation_events aid gen d' = generation_events aid gen d" by blast+
qed

end
