(* ===== verification/Transition_Log.thy ===== *)
theory Transition_Log
  imports Evaluation
begin

text \<open>
  The transitions of a run of the evaluator as a log: where each entry comes from, that no frame
  reports a violation type twice, that the entries are in the order of time and form episodes;
  and which instants and deviations the evaluator state holds at the end of a run.
\<close>

section \<open>Entries\<close>

definition entry_of :: "observation \<Rightarrow> incident_transition \<Rightarrow> bool" where
  "entry_of o' t \<longleftrightarrow>
     tr_ObservedAt t = obs_ObservedAt o' \<and> tr_FrameID t = obs_FrameID o' \<and> tr_WALID t = obs_WALID o' \<and>
     tr_WALSequence t = obs_WALSequence o'"

definition well_formed_entry :: "incident_transition \<Rightarrow> bool" where
  "well_formed_entry t \<longleftrightarrow>
     tr_OpeningFrameID t \<noteq> [] \<and> tr_Transition t \<noteq> TransitionUpdated \<and>
     (tr_Transition t = TransitionOpened \<longrightarrow> tr_OpeningFrameID t = tr_FrameID t)"

definition finite_evidence :: "fpu \<Rightarrow> policy \<Rightarrow> assignment \<Rightarrow> observation \<Rightarrow> bool" where
  "finite_evidence F p a o' \<longleftrightarrow> (\<forall>v e. evidenceByType F p a o' v = Some e \<longrightarrow> finite64 (deviation e))"

lemma advance_entry:
  assumes "snd (advance p v s b dev o') = Some t" "incident_inv p s" "obs_FrameID o' \<noteq> []"
  shows "entry_of o' t" "well_formed_entry t" "finite64 dev \<Longrightarrow> finite64 (tr_DeviationM t)"
  using assms
  by (auto simp: advance_defs entry_of_def well_formed_entry_def incident_inv_def split: if_splits incident_phase.splits)

lemma step_transitions_entry:
  assumes "t \<in> set (step_transitions F p a o' st v)" "state_inv p st" "obs_FrameID o' \<noteq> []"
  shows "entry_of o' t" "well_formed_entry t" "finite_evidence F p a o' \<Longrightarrow> finite64 (tr_DeviationM t)"
  using assms advance_entry [OF _ state_inv_state_of [OF assms(2)] assms(3)]
  by (auto simp: step_transitions_def finite_evidence_def split: option.splits)

lemma next_transitions_entry:
  assumes "t \<in> set (snd (next_states F p a o' st))" "state_inv p st" "obs_FrameID o' \<noteq> []"
  shows "entry_of o' t" "well_formed_entry t" "finite_evidence F p a o' \<Longrightarrow> finite64 (tr_DeviationM t)"
  using assms step_transitions_entry [OF _ assms(2,3)] by (auto simp: next_states_eq)

lemma step_transitions_violations: "map tr_Violation (step_transitions F p a o' st v) \<in> {[], [v]}"
  using step_transitions_violation [of _ F p a o' st v] by (auto simp: step_transitions_def split: option.splits)

lemma next_transitions_distinct: "distinct (map tr_Violation (snd (next_states F p a o' st)))"
  using step_transitions_violations [of F p a o' st ViolationLateral] step_transitions_violations [of F p a o' st ViolationVertical]
    step_transitions_violations [of F p a o' st ViolationTemporal]
  by (auto simp: next_states_eq)

section \<open>The log of a run\<close>

lemma run_entry:
  assumes "valid_policy p"
  shows "t \<in> set (run_transitions F p a xs st) \<Longrightarrow> state_inv p st \<Longrightarrow> list_all (observation_matches a) xs \<Longrightarrow>
    \<exists>o'\<in>set xs. entry_of o' t \<and> well_formed_entry t \<and> (finite_evidence F p a o' \<longrightarrow> finite64 (tr_DeviationM t))"
proof (induction xs arbitrary: st)
  case (Cons o' xs)
  have f: "obs_FrameID o' \<noteq> []" using Cons.prems(3) observation_matches_frame by auto
  have inv: "state_inv p \<lparr>Violations = step_state F p a o' st\<rparr>" by (rule step_state_inv [OF assms Cons.prems(2) f])
  from Cons.prems(1) consider "t \<in> set (snd (next_states F p a o' st))"
    | "t \<in> set (run_transitions F p a xs \<lparr>Violations = step_state F p a o' st\<rparr>)" by auto
  then show ?case
  proof cases
    case 1
    then show ?thesis using next_transitions_entry [OF 1 Cons.prems(2) f] by auto
  next
    case 2
    then show ?thesis using Cons.IH [OF 2 inv] Cons.prems(3) by auto
  qed
qed simp

abbreviation entry_key :: "incident_transition \<Rightarrow> violation_type \<times> string" where
  "entry_key t \<equiv> (tr_Violation t, tr_FrameID t)"

lemma run_entries_distinct:
  assumes "valid_policy p"
  shows "state_inv p st \<Longrightarrow> list_all (observation_matches a) xs \<Longrightarrow> distinct (map obs_FrameID xs) \<Longrightarrow>
    distinct (map entry_key (run_transitions F p a xs st))"
proof (induction xs arbitrary: st)
  case (Cons o' xs)
  let ?st = "\<lparr>Violations = step_state F p a o' st\<rparr>" and ?now = "snd (next_states F p a o' st)"
  have f: "obs_FrameID o' \<noteq> []" using Cons.prems(2) observation_matches_frame by auto
  have inv: "state_inv p ?st" by (rule step_state_inv [OF assms Cons.prems(1) f])
  have "distinct (map fst (map entry_key ?now))" using next_transitions_distinct [of F p a o' st] by (simp add: comp_def)
  then have "distinct (map entry_key ?now)" unfolding distinct_map [of fst] by blast
  moreover have "tr_FrameID t \<noteq> tr_FrameID u" if "t \<in> set ?now" "u \<in> set (run_transitions F p a xs ?st)" for t u
    using next_transitions_entry(1) [OF that(1) Cons.prems(1) f] run_entry [OF assms that(2) inv] Cons.prems(2,3)
    by (auto simp: entry_of_def)
  ultimately show ?case using Cons.IH [OF inv] Cons.prems(2,3) by auto
qed simp

lemma run_entries_sorted:
  assumes "valid_policy p"
  shows "state_inv p st \<Longrightarrow> list_all (observation_matches a) xs \<Longrightarrow> sorted (map obs_ObservedAt xs) \<Longrightarrow>
    sorted (map tr_ObservedAt (run_transitions F p a xs st))"
proof (induction xs arbitrary: st)
  case (Cons o' xs)
  let ?st = "\<lparr>Violations = step_state F p a o' st\<rparr>" and ?now = "snd (next_states F p a o' st)"
  have f: "obs_FrameID o' \<noteq> []" using Cons.prems(2) observation_matches_frame by auto
  have inv: "state_inv p ?st" by (rule step_state_inv [OF assms Cons.prems(1) f])
  have now: "tr_ObservedAt t = obs_ObservedAt o'" if "t \<in> set ?now" for t
    using next_transitions_entry(1) [OF that Cons.prems(1) f] by (simp add: entry_of_def)
  then have "sorted (map tr_ObservedAt ?now)" by (simp add: sorted_map sorted_wrt_iff_nth_less)
  moreover have "obs_ObservedAt o' \<le> tr_ObservedAt u" if "u \<in> set (run_transitions F p a xs ?st)" for u
    using run_entry [OF assms that inv] Cons.prems(2,3) by (auto simp: entry_of_def)
  ultimately show ?case using Cons.IH [OF inv] Cons.prems(2,3) now by (auto simp: sorted_append)
qed simp

section \<open>Lawful logs\<close>

definition log_ok :: "incident_transition list \<Rightarrow> bool" where
  "log_ok H \<longleftrightarrow>
     distinct (map entry_key H) \<and> sorted (map tr_ObservedAt H) \<and> list_all well_formed_entry H \<and>
     (\<forall>v. episodes None (reports_of v H))"

lemma run_log_ok:
  assumes "valid_policy p" "list_all (observation_matches a) xs" "distinct (map obs_FrameID xs)" "sorted (map obs_ObservedAt xs)"
  shows "log_ok (run_transitions F p a xs empty_state)"
proof -
  have "episodes None (reports_of v (run_transitions F p a xs empty_state))" for v
    using hysteresis_run_episodes [of "phase_at empty_state v" "pol_OpenAfterSamples p" "pol_RecoverAfterSamples p" "samples F p a v xs"]
      run_is_machine_run [OF assms(1) state_inv_empty assms(2), of v F]
    by (simp add: empty_state_def state_of_def)
  moreover have "\<forall>t\<in>set (run_transitions F p a xs empty_state). well_formed_entry t"
    using run_entry [OF assms(1) _ state_inv_empty assms(2)] by blast
  ultimately show ?thesis
    using run_entries_distinct [OF assms(1) state_inv_empty assms(2,3)] run_entries_sorted [OF assms(1) state_inv_empty assms(2,4)]
    by (simp add: log_ok_def list_all_iff)
qed

lemma episodes_append: "episodes c (rs @ ss) \<Longrightarrow> episodes c rs"
  by (induction c rs rule: episodes.induct) auto

lemma log_ok_append: "log_ok (H @ T) \<Longrightarrow> log_ok H"
  by (auto simp: log_ok_def sorted_append dest: episodes_append)

text \<open>The frame of the episode that is open at the end of the reports.\<close>

fun open_episode :: "string option \<Rightarrow> report list \<Rightarrow> string option" where
  "open_episode cur [] = cur"
| "open_episode cur (Opened f # rs) = open_episode (Some f) rs"
| "open_episode cur (Resolved f # rs) = open_episode None rs"

lemma open_episode_snoc:
  "open_episode c (rs @ [r]) = (case r of Opened f \<Rightarrow> Some f | Resolved f \<Rightarrow> None)"
  by (induction c rs rule: open_episode.induct) (cases r; simp)+

lemma episodes_snoc:
  "episodes c (rs @ [r]) \<Longrightarrow> open_episode c rs = (case r of Opened f \<Rightarrow> None | Resolved f \<Rightarrow> Some f)"
proof (induction c rs rule: episodes.induct)
  case (1 cur)
  then show ?case by (cases cur; cases r) auto
qed auto

lemma open_episode_opened: "open_episode c rs = Some f \<Longrightarrow> c = Some f \<or> Opened f \<in> set rs"
  by (induction c rs rule: open_episode.induct) auto

section \<open>What the state holds\<close>

text \<open>The instants of an incident are unset or from \<open>T\<close>, and its worst deviation is finite.\<close>

definition held :: "gotime set \<Rightarrow> incident_state \<Rightarrow> bool" where
  "held T s \<longleftrightarrow>
     {is_FirstSuspectedAt s, is_OpenedAt s, is_LastObservedAt s} \<subseteq> insert zero_time T \<and> finite64 (is_WorstDeviationM s)"

definition state_held :: "gotime set \<Rightarrow> evaluator_state \<Rightarrow> bool" where
  "state_held T st \<longleftrightarrow> (\<forall>v s. Violations st v = Some s \<longrightarrow> held T s)"

lemma state_held_empty [simp]: "state_held T empty_state"
  by (simp add: state_held_def empty_state_def)

lemma held_state_of: "state_held T st \<Longrightarrow> held T (state_of (Violations st) v)"
  by (auto simp: state_held_def state_of_def held_def zero_incident_def split: option.splits)

lemma advance_held: "held T s \<Longrightarrow> finite64 dev \<Longrightarrow> held (insert (obs_ObservedAt o') T) (fst (advance p v s b dev o'))"
  by (cases "is_Phase s") (auto simp: advance_defs held_def zero_incident_def)

lemma step_held:
  assumes "state_held T st" "finite_evidence F p a o'"
  shows "state_held (insert (obs_ObservedAt o') T) \<lparr>Violations = step_state F p a o' st\<rparr>"
proof -
  have "held (insert (obs_ObservedAt o') T) s" if s: "step_state F p a o' st v = Some s" for v s
  proof (cases "evidenceByType F p a o' v")
    case None
    then have "Violations st v = Some s"
      using s by (auto simp: step_state_def dest: markNotEvaluated_Some split: if_splits)
    then show ?thesis using assms(1) by (auto simp: state_held_def held_def)
  next
    case (Some e)
    then have "finite64 (deviation e)" using assms(2) by (simp add: finite_evidence_def)
    then show ?thesis using s Some advance_held [OF held_state_of [OF assms(1)]] by (auto simp: step_state_def)
  qed
  then show ?thesis by (simp add: state_held_def)
qed

lemma run_held:
  "state_held T st \<Longrightarrow> list_all (finite_evidence F p a) xs \<Longrightarrow> state_held (obs_ObservedAt ` set xs \<union> T) (run_states F p a xs st)"
proof (induction xs arbitrary: st T)
  case (Cons o' xs)
  then show ?case using Cons.IH [OF step_held [of T st F p a o']] by simp
qed simp

lemma causal_loop_held:
  "(\<And>s. s \<in> set ss \<Longrightarrow> held T s) \<Longrightarrow> causal_loop ss e \<in> insert e T \<and> causal_loop ss e \<le> e"
proof (induction ss arbitrary: e)
  case (Cons s ss)
  define e2 where "e2 = (let e1 = (if \<not> IsZero (is_FirstSuspectedAt s) \<and> is_FirstSuspectedAt s < e then is_FirstSuspectedAt s else e)
     in if \<not> IsZero (is_OpenedAt s) \<and> is_OpenedAt s < e1 then is_OpenedAt s else e1)"
  have "e2 \<in> insert e T" "e2 \<le> e" using Cons.prems [of s] by (auto simp: e2_def held_def IsZero_def Let_def)
  moreover have "causal_loop (s # ss) e = causal_loop ss e \<or> causal_loop (s # ss) e = causal_loop ss e2"
    by (simp add: e2_def Let_def)
  ultimately show ?case using Cons.IH [of e] Cons.IH [of e2] Cons.prems by fastforce
qed simp

lemma causal_held: "state_held T st \<Longrightarrow> earliestCausalTimestamp st e \<in> insert e T \<and> earliestCausalTimestamp st e \<le> e"
  unfolding earliestCausalTimestamp_def
  by (rule causal_loop_held) (auto simp: set_map_items state_held_def)

end
