(* ===== verification/Incident_Book.thy ===== *)
theory Incident_Book
  imports Store_Incidents Transition_Log
begin

text \<open>
  The incident and event rows of a generation kept as the book of a transition log: every opening
  has its row, every row its opening, and a row is open only while its episode is. The next
  entry of a lawful log can then always be written, and the book stays one.
\<close>

section \<open>The book\<close>

definition opening_row :: "store_env \<Rightarrow> incident_transition \<Rightarrow> incident_row \<Rightarrow> bool" where
  "opening_row E t r \<longleftrightarrow>
     tr_Transition t = TransitionOpened \<and> inc_key r = tr_Violation t \<and> inc_opening_frame r = tr_OpeningFrameID t \<and>
     inc_opened_at r = timestamptz E (tr_ObservedAt t)"

definition booked :: "store_env \<Rightarrow> string \<Rightarrow> nat \<Rightarrow> incident_transition list \<Rightarrow> db \<Rightarrow> bool" where
  "booked E aid gen H d \<longleftrightarrow>
     (\<forall>t\<in>set H. tr_Transition t = TransitionOpened \<longrightarrow> (\<exists>r\<in>set (generation_incidents aid gen d). opening_row E t r)) \<and>
     (\<forall>r\<in>set (generation_incidents aid gen d). (\<exists>t\<in>set H. opening_row E t r) \<and>
        (inc_status r = IncidentRowOpen \<longrightarrow> open_episode None (reports_of (inc_key r) H) = Some (inc_opening_frame r))) \<and>
     (\<forall>e\<in>set (generation_events aid gen d). (evt_violation e, evt_frame e) \<in> entry_key ` set H)"

lemma booked_rows:
  assumes "generation_incidents aid gen d' = generation_incidents aid gen d" "generation_events aid gen d' = generation_events aid gen d"
  shows "booked E aid gen H d' = booked E aid gen H d"
  unfolding booked_def assms ..

lemma booked_empty: "generation_incidents aid gen d = [] \<Longrightarrow> generation_events aid gen d = [] \<Longrightarrow> booked E aid gen [] d"
  by (simp add: booked_def)

lemma set_generation_incidents [simp]:
  "r \<in> set (generation_incidents aid gen d) \<longleftrightarrow> r \<in> set (incidents d) \<and> inc_aid r = aid \<and> inc_gen r = gen"
  by (auto simp: generation_incidents_def)

lemma set_generation_events [simp]:
  "e \<in> set (generation_events aid gen d) \<longleftrightarrow> e \<in> set (events d) \<and> evt_aid e = aid \<and> evt_gen e = gen"
  by (auto simp: generation_events_def)

lemma reports_of_one: "reports_of v [t] = (if tr_Violation t = v then [report_of t] else [])"
  by (simp add: reports_of_def)

lemma bookedD:
  assumes "booked E aid gen H d"
  shows "t \<in> set H \<Longrightarrow> tr_Transition t = TransitionOpened \<Longrightarrow> \<exists>r\<in>set (incidents d). inc_aid r = aid \<and> inc_gen r = gen \<and> opening_row E t r"
    "r \<in> set (incidents d) \<Longrightarrow> inc_aid r = aid \<Longrightarrow> inc_gen r = gen \<Longrightarrow> \<exists>t\<in>set H. opening_row E t r"
    "r \<in> set (incidents d) \<Longrightarrow> inc_aid r = aid \<Longrightarrow> inc_gen r = gen \<Longrightarrow> inc_status r = IncidentRowOpen \<Longrightarrow>
       open_episode None (reports_of (inc_key r) H) = Some (inc_opening_frame r)"
    "e \<in> set (events d) \<Longrightarrow> evt_aid e = aid \<Longrightarrow> evt_gen e = gen \<Longrightarrow> (evt_violation e, evt_frame e) \<in> entry_key ` set H"
proof -
  note b = assms [unfolded booked_def]
  show "t \<in> set H \<Longrightarrow> tr_Transition t = TransitionOpened \<Longrightarrow> \<exists>r\<in>set (incidents d). inc_aid r = aid \<and> inc_gen r = gen \<and> opening_row E t r"
    using b [THEN conjunct1] by fastforce
  show "r \<in> set (incidents d) \<Longrightarrow> inc_aid r = aid \<Longrightarrow> inc_gen r = gen \<Longrightarrow> \<exists>t\<in>set H. opening_row E t r"
    "r \<in> set (incidents d) \<Longrightarrow> inc_aid r = aid \<Longrightarrow> inc_gen r = gen \<Longrightarrow> inc_status r = IncidentRowOpen \<Longrightarrow>
       open_episode None (reports_of (inc_key r) H) = Some (inc_opening_frame r)"
    using b [THEN conjunct2, THEN conjunct1] by simp_all
  show "e \<in> set (events d) \<Longrightarrow> evt_aid e = aid \<Longrightarrow> evt_gen e = gen \<Longrightarrow> (evt_violation e, evt_frame e) \<in> entry_key ` set H"
    using b [THEN conjunct2, THEN conjunct2] by simp
qed

lemma log_ok_snoc:
  assumes "log_ok (H @ [t])"
  shows "entry_key t \<notin> entry_key ` set H" "\<And>u. u \<in> set H \<Longrightarrow> tr_ObservedAt u \<le> tr_ObservedAt t"
    "\<And>u. u \<in> set (H @ [t]) \<Longrightarrow> well_formed_entry u" "episodes None (reports_of v (H @ [t]))"
  using assms by (simp_all only: log_ok_def) (auto simp: sorted_append list_all_iff)

section \<open>The next entry\<close>

text \<open>What must hold of the store, and what of the next entry \<open>t\<close>.\<close>

definition book_ready :: "store_env \<Rightarrow> assignment \<Rightarrow> incident_transition list \<Rightarrow> db \<Rightarrow> bool" where
  "book_ready E a H d \<longleftrightarrow>
     booked E (asg_ID a) (asg_Generation a) H d \<and> incidents_ok (incidents d) \<and> events_ok (events d) \<and> named_rows E d \<and>
     has_assignment d (asg_ID a) (asg_Generation a)"

lemma open_before:
  assumes "log_ok (H @ [t])"
  shows "open_episode None (reports_of (tr_Violation t) H) =
    (if tr_Transition t = TransitionOpened then None else Some (tr_OpeningFrameID t))"
proof -
  have "episodes None (reports_of (tr_Violation t) H @ [report_of t])"
    using log_ok_snoc(4) [OF assms, of "tr_Violation t"] by (simp add: reports_of_one del: report_of.simps)
  from episodes_snoc [OF this] show ?thesis by simp
qed

lemma fresh_event:
  assumes "inj (sha_hex E)" "book_ready E a H d" "log_ok (H @ [t])"
  shows "event_id E a t \<notin> evt_id ` set (events d)"
proof
  assume "event_id E a t \<in> evt_id ` set (events d)"
  then obtain e where e: "e \<in> set (events d)" "evt_id e = event_id E a t" by auto
  moreover have "evt_id e = event_name E (evt_aid e) (evt_gen e) (evt_violation e) (evt_transition e) (evt_frame e)"
    using assms(2) e(1) by (simp add: book_ready_def named_rows_def)
  ultimately have key: "evt_aid e = asg_ID a" "evt_gen e = asg_Generation a" "(evt_violation e, evt_frame e) = entry_key t"
    using event_name_inj [OF assms(1)] by (simp_all add: event_id_name)
  have "booked E (asg_ID a) (asg_Generation a) H d" using assms(2) by (simp add: book_ready_def)
  from bookedD(4) [OF this e(1) key(1,2)] show False using log_ok_snoc(1) [OF assms(3)] key(3) by simp
qed

lemma fresh_incident:
  assumes "book_ready E a H d" "log_ok (H @ [t])" "tr_Transition t = TransitionOpened"
    and "r \<in> set (incidents d)" "inc_aid r = asg_ID a" "inc_gen r = asg_Generation a" "inc_key r = tr_Violation t"
  shows "inc_opening_frame r \<noteq> tr_OpeningFrameID t" "inc_status r \<noteq> IncidentRowOpen"
proof -
  have book: "booked E (asg_ID a) (asg_Generation a) H d" using assms(1) by (simp add: book_ready_def)
  from bookedD(2) [OF this assms(4-6)] obtain o' where o': "o' \<in> set H" "opening_row E o' r" by blast
  have wf: "well_formed_entry o'" "well_formed_entry t" using log_ok_snoc(3) [OF assms(2)] o'(1) by simp_all
  have "entry_key o' \<noteq> entry_key t" using log_ok_snoc(1) [OF assms(2)] imageI [OF o'(1), of entry_key] by auto
  then show "inc_opening_frame r \<noteq> tr_OpeningFrameID t"
    using o'(2) wf assms(3,7) by (auto simp: opening_row_def well_formed_entry_def)
  show "inc_status r \<noteq> IncidentRowOpen"
    using bookedD(3) [OF book assms(4-6)] open_before [OF assms(2)] assms(3,7) by auto
qed

lemma put_fresh_event:
  assumes "evt_id row \<notin> evt_id ` set (events d)" "events_ok (events d)" "has_assignment d (evt_aid row) (evt_gen row)"
    and "evt_incident row \<in> inc_id ` set (incidents d)"
  shows "put_event row d = Inr (d\<lparr>events := events d @ [row]\<rparr>)"
proof -
  have "evt_id r \<noteq> evt_id row" if "r \<in> set (events d)" for r using assms(1) imageI [OF that, of evt_id] by auto
  then have "List.find (\<lambda>r. evt_id r = evt_id row) (events d) = None" by (simp add: find_None_iff_mem)
  then show ?thesis using assms by (auto simp: put_event_def events_ok_def)
qed

lemma open_fresh_incident:
  assumes sha: "inj (sha_hex E)" and ready: "book_ready E a H d" and log: "log_ok (H @ [t])" and "tr_Transition t = TransitionOpened"
  obtains row where "open_incident E a pl t d = Inr (incident_id E a t, d\<lparr>incidents := incidents d @ [row]\<rparr>)"
    "inc_id row = incident_id E a t" "inc_aid row = asg_ID a" "inc_gen row = asg_Generation a" "opening_row E t row"
    "incidents_ok (incidents d @ [row])"
proof -
  define row where "row = \<lparr>inc_id = incident_id E a t, inc_aid = asg_ID a, inc_gen = asg_Generation a,
                 inc_key = tr_Violation t, inc_violation = tr_Violation t,
                 inc_status = IncidentRowOpen, inc_opened_at = timestamptz E (tr_ObservedAt t),
                 inc_last_observed_at = timestamptz E (tr_ObservedAt t), inc_resolved_at = None,
                 inc_opening_frame = tr_OpeningFrameID t, inc_resolution_event = None,
                 inc_revision = 1, inc_details = pl\<rparr>"
  have row: "inc_id row = incident_id E a t" "inc_aid row = asg_ID a" "inc_gen row = asg_Generation a" "inc_key row = tr_Violation t"
    "inc_opening_frame row = tr_OpeningFrameID t" "inc_status row = IncidentRowOpen" by (simp_all add: row_def)
  note fresh = fresh_incident [OF ready log assms(4)]
  have id: "inc_id r \<noteq> incident_id E a t" if r: "r \<in> set (incidents d)" for r
  proof
    assume "inc_id r = incident_id E a t"
    moreover have "inc_id r = incident_name E (inc_aid r) (inc_gen r) (inc_key r) (inc_opening_frame r)"
      using ready r by (simp add: book_ready_def named_rows_def)
    ultimately show False using fresh(1) [OF r] incident_name_inj [OF sha] by (auto simp: incident_id_name)
  qed
  have "inc_id row \<notin> inc_id ` set (incidents d)"
    "(inc_aid row, inc_gen row, inc_key row) \<notin> (\<lambda>r. (inc_aid r, inc_gen r, inc_key r)) ` set (filter (\<lambda>r. inc_status r = IncidentRowOpen) (incidents d))"
    "(inc_aid row, inc_gen row, inc_key row, inc_opening_frame row) \<notin> (\<lambda>r. (inc_aid r, inc_gen r, inc_key r, inc_opening_frame r)) ` set (incidents d)"
    unfolding row using id fresh by fastforce+
  then have "incidents_ok (incidents d @ [row])"
    using ready by (simp add: book_ready_def incidents_ok_def)
  moreover have "List.find (\<lambda>r. inc_id r = incident_id E a t) (incidents d) = None" using id by (simp add: find_None_iff_mem)
  ultimately show ?thesis using that [of row] ready assms(4) row
    by (simp add: open_incident_def Let_def book_ready_def opening_row_def flip: row_def) (simp add: row_def)
qed

section \<open>The book after the entry\<close>

definition same_opening :: "incident_row \<Rightarrow> incident_row \<Rightarrow> bool" where
  "same_opening r s \<longleftrightarrow>
     inc_id r = inc_id s \<and> inc_aid r = inc_aid s \<and> inc_gen r = inc_gen s \<and> inc_key r = inc_key s \<and>
     inc_opening_frame r = inc_opening_frame s \<and> inc_opened_at r = inc_opened_at s"

lemma same_opening_refl [simp]: "same_opening r r"
  by (simp add: same_opening_def)

lemma booked_next:
  assumes book: "booked E aid gen H d"
    and rows: "\<And>r. r \<in> set (incidents d') \<Longrightarrow> inc_aid r = aid \<Longrightarrow> inc_gen r = gen \<Longrightarrow> opening_row E t r \<or>
        (\<exists>s\<in>set (incidents d). same_opening r s \<and>
           (inc_status r = IncidentRowOpen \<longrightarrow> inc_status s = IncidentRowOpen \<and> inc_key s \<noteq> tr_Violation t))"
    and kept: "\<And>s. s \<in> set (incidents d) \<Longrightarrow> \<exists>r\<in>set (incidents d'). same_opening r s"
    and opened: "tr_Transition t = TransitionOpened \<Longrightarrow> \<exists>r\<in>set (incidents d'). inc_aid r = aid \<and> inc_gen r = gen \<and> opening_row E t r"
    and evs: "events d' = events d @ [ev]" "(evt_violation ev, evt_frame ev) = entry_key t"
  shows "booked E aid gen (H @ [t]) d'"
  unfolding booked_def
proof (intro conjI ballI impI)
  fix u assume u: "u \<in> set (H @ [t])" "tr_Transition u = TransitionOpened"
  show "\<exists>r\<in>set (generation_incidents aid gen d'). opening_row E u r"
  proof (cases "u \<in> set H")
    case True
    from bookedD(1) [OF book True u(2)] obtain s where s: "s \<in> set (incidents d)" "inc_aid s = aid" "inc_gen s = gen" "opening_row E u s"
      by blast
    from kept [OF s(1)] obtain r where "r \<in> set (incidents d')" "same_opening r s" by blast
    with s show ?thesis by (auto simp: same_opening_def opening_row_def)
  qed (use u opened in auto)
next
  fix r assume r: "r \<in> set (generation_incidents aid gen d')"
  consider "opening_row E t r" | s where "s \<in> set (incidents d)" "same_opening r s"
      "inc_status r = IncidentRowOpen \<Longrightarrow> inc_status s = IncidentRowOpen \<and> inc_key s \<noteq> tr_Violation t"
    using rows [of r] r by auto
  note origin = this
  show "\<exists>u\<in>set (H @ [t]). opening_row E u r"
    by (cases rule: origin) (use bookedD(2) [OF book] r in \<open>fastforce simp: same_opening_def opening_row_def\<close>)+
  show "open_episode None (reports_of (inc_key r) (H @ [t])) = Some (inc_opening_frame r)" if op: "inc_status r = IncidentRowOpen"
  proof (cases rule: origin)
    case 1
    then show ?thesis by (simp add: reports_of_one open_episode_snoc opening_row_def)
  next
    case (2 s)
    then show ?thesis using bookedD(3) [OF book 2(1)] 2(3) [OF op] r by (auto simp: same_opening_def reports_of_one)
  qed
next
  fix e assume "e \<in> set (generation_events aid gen d')"
  then show "(evt_violation e, evt_frame e) \<in> entry_key ` set (H @ [t])"
    using bookedD(4) [OF book, of e] evs by auto
qed

lemma event_entry_simps [simp]:
  "evt_id (event_entry E a n iid t) = event_id E a t" "evt_aid (event_entry E a n iid t) = asg_ID a"
  "evt_gen (event_entry E a n iid t) = asg_Generation a" "evt_incident (event_entry E a n iid t) = iid"
  "evt_violation (event_entry E a n iid t) = tr_Violation t" "evt_frame (event_entry E a n iid t) = tr_FrameID t"
  by (simp_all add: event_entry_def)

lemma ready_next:
  assumes ready: "book_ready E a H d" and w: "write_transition E a n pl t d = Inr d'"
    and book: "booked E (asg_ID a) (asg_Generation a) (H @ [t]) d'" and "events_ok (events d')"
  shows "book_ready E a (H @ [t]) d'"
  using assms write_transition_own [OF w] write_transition_frame [OF w]
  by (simp add: book_ready_def own_writes_def other_tables_def has_assignment_def)

lemma write_opening:
  assumes sha: "inj (sha_hex E)" and ready: "book_ready E a H d" and log: "log_ok (H @ [t])" and op: "tr_Transition t = TransitionOpened"
    and enc: "json_time (tr_ObservedAt t)" "finite64 (tr_DeviationM t)"
  shows "\<exists>d'. write_transition E a n pl t d = Inr d' \<and> book_ready E a (H @ [t]) d'"
proof -
  obtain row where op1: "open_incident E a pl t d = Inr (incident_id E a t, d\<lparr>incidents := incidents d @ [row]\<rparr>)"
    and row: "inc_id row = incident_id E a t" "inc_aid row = asg_ID a" "inc_gen row = asg_Generation a" "opening_row E t row"
    by (rule open_fresh_incident [OF sha ready log op, of pl])
  let ?d1 = "d\<lparr>incidents := incidents d @ [row]\<rparr>" and ?ev = "event_entry E a n (incident_id E a t) t"
  let ?d' = "?d1\<lparr>events := events d @ [?ev]\<rparr>"
  have ok: "events_ok (events d)" "has_assignment ?d1 (asg_ID a) (asg_Generation a)"
    using ready by (simp_all add: book_ready_def has_assignment_def)
  have "put_event ?ev ?d1 = Inr ?d'"
    using put_fresh_event [of ?ev ?d1] fresh_event [OF sha ready log] ok row(1) by simp
  then have w: "write_transition E a n pl t d = Inr ?d'"
    using op op1 enc by (simp add: write_transition_def mutate_incident_def)
  have "booked E (asg_ID a) (asg_Generation a) (H @ [t]) ?d'"
  proof (rule booked_next [where ev = ?ev])
    show "booked E (asg_ID a) (asg_Generation a) H d" using ready by (simp add: book_ready_def)
    fix r assume r: "r \<in> set (incidents ?d')" "inc_aid r = asg_ID a" "inc_gen r = asg_Generation a"
    show "opening_row E t r \<or> (\<exists>s\<in>set (incidents d). same_opening r s \<and>
           (inc_status r = IncidentRowOpen \<longrightarrow> inc_status s = IncidentRowOpen \<and> inc_key s \<noteq> tr_Violation t))"
      using r row(4) fresh_incident(2) [OF ready log op _ r(2,3)] by (auto intro!: bexI [of _ r])
  next
    show "\<exists>r\<in>set (incidents ?d'). same_opening r s" if "s \<in> set (incidents d)" for s
      using that by (intro bexI [of _ s]) simp_all
  qed (use row in auto)
  moreover have "events_ok (events ?d')" using ok(1) fresh_event [OF sha ready log] by (simp add: events_ok_def)
  ultimately show ?thesis using ready_next [OF ready w] w by blast
qed

lemma resolved_rows_ok:
  assumes ok: "incidents_ok rows" and f: "\<And>r. same_opening (f r) r \<and> inc_status (f r) = IncidentRowResolved"
  shows "incidents_ok (update_where P f rows)"
proof -
  have keys: "map inc_id (update_where P f rows) = map inc_id rows"
    "map (\<lambda>r. (inc_aid r, inc_gen r, inc_key r, inc_opening_frame r)) (update_where P f rows) =
       map (\<lambda>r. (inc_aid r, inc_gen r, inc_key r, inc_opening_frame r)) rows"
    using f by (simp_all add: update_where_def same_opening_def)
  have open_rows: "filter (\<lambda>r. inc_status r = IncidentRowOpen) (update_where P f rows) =
      filter (\<lambda>r. \<not> P r) (filter (\<lambda>r. inc_status r = IncidentRowOpen) rows)"
    using f by (induction rows) (auto simp: update_where_def)
  show ?thesis
    using ok unfolding incidents_ok_def keys open_rows by (blast intro: distinct_map_filter)
qed

lemma opening_found:
  assumes ready: "book_ready E a H d" and log: "log_ok (H @ [t])" and res: "tr_Transition t = TransitionResolved"
    and mono: "mono (timestamptz E)"
  obtains r where "find_opening E a t d = Inr (inc_id r, d)" "r \<in> set (incidents d)" "inc_aid r = asg_ID a" "inc_gen r = asg_Generation a"
    "inc_key r = tr_Violation t" "inc_opening_frame r = tr_OpeningFrameID t"
proof -
  let ?P = "\<lambda>r. inc_aid r = asg_ID a \<and> inc_gen r = asg_Generation a \<and> inc_key r = tr_Violation t \<and>
      inc_opening_frame r = tr_OpeningFrameID t \<and> inc_opened_at r \<le> timestamptz E (tr_ObservedAt t)"
  have book: "booked E (asg_ID a) (asg_Generation a) H d" using ready by (simp add: book_ready_def)
  have "open_episode None (reports_of (tr_Violation t) H) = Some (tr_OpeningFrameID t)" using open_before [OF log] res by simp
  then have "Opened (tr_OpeningFrameID t) \<in> set (reports_of (tr_Violation t) H)" using open_episode_opened by fastforce
  then obtain u where u: "u \<in> set H" "tr_Transition u = TransitionOpened" "tr_Violation u = tr_Violation t"
    "tr_OpeningFrameID u = tr_OpeningFrameID t"
    by (auto simp: reports_of_def split: if_splits)
  from bookedD(1) [OF book u(1,2)] obtain s where s: "s \<in> set (incidents d)" "inc_aid s = asg_ID a" "inc_gen s = asg_Generation a"
    "opening_row E u s" by blast
  have "?P s" using s u monoD [OF mono log_ok_snoc(2) [OF log u(1)]] by (simp add: opening_row_def)
  then obtain r where r: "List.find ?P (incidents d) = Some r"
    using s(1) find_None_iff_mem [of ?P "incidents d"] by (cases "List.find ?P (incidents d)") auto
  show ?thesis by (rule that [of r]) (use find_Some_iff_mem [OF r] r in \<open>simp_all add: find_opening_def\<close>)
qed

lemma resolution_applies:
  assumes ok: "incidents_ok (incidents d)" and r: "r \<in> set (incidents d)" "inc_aid r = asg_ID a" "inc_gen r = asg_Generation a"
    "inc_key r = tr_Violation t"
  obtains f where "materialize_resolution E a pl t (inc_id r) eid d =
      Inr (d\<lparr>incidents := update_where (\<lambda>s. s = r) f (incidents d)\<rparr>)"
    "\<And>s. same_opening (f s) s \<and> inc_status (f s) = IncidentRowResolved"
proof -
  let ?P = "\<lambda>s. inc_id s = inc_id r \<and> inc_aid s = asg_ID a \<and> inc_gen s = asg_Generation a \<and> inc_key s = tr_Violation t"
  define f :: "incident_row \<Rightarrow> incident_row" where "f = (\<lambda>s. s\<lparr>inc_status := IncidentRowResolved, inc_resolved_at := Some (timestamptz E (tr_ObservedAt t)),
                   inc_resolution_event := Some eid, inc_last_observed_at := timestamptz E (tr_ObservedAt t),
                   inc_revision := inc_revision s + (if inc_resolution_event s \<noteq> Some eid then 1 else 0),
                   inc_details := pl\<rparr>)"
  have f: "same_opening (f s) s \<and> inc_status (f s) = IncidentRowResolved" for s by (simp add: f_def same_opening_def)
  have dist: "distinct (map inc_id (incidents d))" using ok by (simp add: incidents_ok_def)
  then have P: "?P s \<longleftrightarrow> s = r" if "s \<in> set (incidents d)" for s
    using that r by (auto simp: distinct_map inj_on_eq_iff)
  then have upd: "update_where ?P f (incidents d) = update_where (\<lambda>s. s = r) f (incidents d)"
    by (simp add: update_where_def)
  have "rows_affected ?P (incidents d) \<noteq> 0" using r by (auto simp: rows_affected_def filter_empty_conv)
  then have "rows_affected ?P (incidents d) = 1" using rows_affected_key [OF dist, of ?P "inc_id r"] by simp
  then have "materialize_resolution E a pl t (inc_id r) eid d = Inr (d\<lparr>incidents := update_where (\<lambda>s. s = r) f (incidents d)\<rparr>)"
    using resolved_rows_ok [OF ok f, of ?P] upd
    by (simp add: materialize_resolution_def Let_def flip: f_def)
  then show ?thesis by (rule that) (rule f)
qed

lemma one_open_row:
  assumes ready: "book_ready E a H d" and log: "log_ok (H @ [t])" and res: "tr_Transition t = TransitionResolved"
    and r: "r \<in> set (incidents d)" "inc_aid r = asg_ID a" "inc_gen r = asg_Generation a" "inc_key r = tr_Violation t"
    "inc_opening_frame r = tr_OpeningFrameID t"
    and s: "s \<in> set (incidents d)" "inc_aid s = asg_ID a" "inc_gen s = asg_Generation a" "inc_key s = tr_Violation t"
    "inc_status s = IncidentRowOpen"
  shows "s = r"
proof -
  have "booked E (asg_ID a) (asg_Generation a) H d" using ready by (simp add: book_ready_def)
  from bookedD(3) [OF this s(1,2,3,5)] have "inc_opening_frame s = tr_OpeningFrameID t"
    using open_before [OF log] res s(4) by simp
  moreover have "inj_on (\<lambda>r. (inc_aid r, inc_gen r, inc_key r, inc_opening_frame r)) (set (incidents d))"
    using ready by (simp add: book_ready_def incidents_ok_def distinct_map)
  ultimately show ?thesis using r s by (elim inj_onD) simp_all
qed

lemma write_resolution:
  assumes sha: "inj (sha_hex E)" and mono: "mono (timestamptz E)" and ready: "book_ready E a H d" and log: "log_ok (H @ [t])"
    and res: "tr_Transition t = TransitionResolved" and enc: "json_time (tr_ObservedAt t)" "finite64 (tr_DeviationM t)"
  shows "\<exists>d'. write_transition E a n pl t d = Inr d' \<and> book_ready E a (H @ [t]) d'"
proof -
  obtain r where found: "find_opening E a t d = Inr (inc_id r, d)" and r: "r \<in> set (incidents d)" "inc_aid r = asg_ID a"
    "inc_gen r = asg_Generation a" "inc_key r = tr_Violation t" "inc_opening_frame r = tr_OpeningFrameID t"
    by (rule opening_found [OF ready log res mono])
  let ?ev = "event_entry E a n (inc_id r) t"
  let ?d1 = "d\<lparr>events := events d @ [?ev]\<rparr>"
  have ok: "events_ok (events d)" "has_assignment d (asg_ID a) (asg_Generation a)" "incidents_ok (incidents ?d1)"
    using ready by (simp_all add: book_ready_def)
  have put: "put_event ?ev d = Inr ?d1" by (rule put_fresh_event) (use fresh_event [OF sha ready log] ok r(1) in simp_all)
  obtain f where mat: "materialize_resolution E a pl t (inc_id r) (event_id E a t) ?d1 =
      Inr (?d1\<lparr>incidents := update_where (\<lambda>s. s = r) f (incidents ?d1)\<rparr>)"
    and f: "\<And>s. same_opening (f s) s \<and> inc_status (f s) = IncidentRowResolved"
    by (rule resolution_applies [OF ok(3), of r a t E pl "event_id E a t"]) (use r in simp_all)
  let ?d' = "?d1\<lparr>incidents := update_where (\<lambda>s. s = r) f (incidents d)\<rparr>"
  have w: "write_transition E a n pl t d = Inr ?d'"
    using res found put mat enc by (simp add: write_transition_def mutate_incident_def)
  have "booked E (asg_ID a) (asg_Generation a) (H @ [t]) ?d'"
  proof (rule booked_next [where ev = ?ev])
    show "booked E (asg_ID a) (asg_Generation a) H d" using ready by (simp add: book_ready_def)
    fix s' assume s': "s' \<in> set (incidents ?d')" "inc_aid s' = asg_ID a" "inc_gen s' = asg_Generation a"
    then obtain s where s: "s \<in> set (incidents d)" "s' = (if s = r then f s else s)" by (auto simp: update_where_def)
    show "opening_row E t s' \<or> (\<exists>s\<in>set (incidents d). same_opening s' s \<and>
           (inc_status s' = IncidentRowOpen \<longrightarrow> inc_status s = IncidentRowOpen \<and> inc_key s \<noteq> tr_Violation t))"
      using one_open_row [OF ready log res r s(1)] s s'(2,3) f [of s] by (intro disjI2 bexI [of _ s]) (auto split: if_splits)
  next
    show "\<exists>s'\<in>set (incidents ?d'). same_opening s' s" if "s \<in> set (incidents d)" for s
      using that f [of s] by (intro bexI [of _ "if s = r then f s else s"]) (auto simp: update_where_def)
  qed (use res in simp_all)
  moreover have "events_ok (events ?d')" using ok(1) fresh_event [OF sha ready log] by (simp add: events_ok_def)
  ultimately show ?thesis using ready_next [OF ready w] w by blast
qed

section \<open>The whole log\<close>

definition encodable :: "incident_transition \<Rightarrow> bool" where
  "encodable t \<longleftrightarrow> json_time (tr_ObservedAt t) \<and> finite64 (tr_DeviationM t)"

lemma write_entries:
  assumes sha: "inj (sha_hex E)" and mono: "mono (timestamptz E)"
  shows "book_ready E a H d \<Longrightarrow> log_ok (H @ T) \<Longrightarrow> list_all encodable T \<Longrightarrow>
    \<exists>d'. write_transitions E a n pl T d = Inr d' \<and> book_ready E a (H @ T) d'"
proof (induction T arbitrary: H d)
  case (Cons t T)
  have log: "log_ok (H @ [t])" using log_ok_append [of "H @ [t]" T] Cons.prems(2) by simp
  have enc: "json_time (tr_ObservedAt t)" "finite64 (tr_DeviationM t)" using Cons.prems(3) by (simp_all add: encodable_def)
  have "tr_Transition t \<noteq> TransitionUpdated" using log_ok_snoc(3) [OF log, of t] by (simp add: well_formed_entry_def)
  then have "\<exists>d1. write_transition E a n pl t d = Inr d1 \<and> book_ready E a (H @ [t]) d1"
    using write_opening [OF sha Cons.prems(1) log _ enc] write_resolution [OF sha mono Cons.prems(1) log _ enc]
    by (cases "tr_Transition t") auto
  then obtain d1 where d1: "write_transition E a n pl t d = Inr d1" "book_ready E a (H @ [t]) d1" by blast
  from Cons.IH [OF d1(2)] Cons.prems(2,3) show ?case using d1(1) by simp
qed simp

end
