(* ===== verification/Commit_Progress.thy ===== *)
theory Commit_Progress
  imports Store_Claims Incident_Book
begin

text \<open>
  When a live commit succeeds. Every check and every constraint a commit can fail on is
  listed, and each is shown to pass for a complete evaluation inside the authority of a live claim whose
  cursor is past the last checkpoint and whose transitions continue the book of its generation.
\<close>

lemma first_fence:
  assumes "assignments_ok rows" "r \<in> set rows" "P r" "\<And>s. P s \<Longrightarrow> ar_id s = aid \<and> ar_gen s = gen"
  shows "List.find P rows = Some r" "update_where P f rows = map (\<lambda>s. if s = r then f s else s) rows" "rows_affected P rows = 1"
proof -
  have u: "P s \<longleftrightarrow> s = r" if "s \<in> set rows" for s by (rule fence_unique [where P = P, OF assms(1-4) that])
  obtain s where s: "List.find P rows = Some s" using assms(2,3) find_None_iff_mem [of P rows] by (cases "List.find P rows") auto
  then show "List.find P rows = Some r" using find_Some_iff_mem [OF s] u [of s] by simp
  show "update_where P f rows = map (\<lambda>s. if s = r then f s else s) rows"
    unfolding update_where_def by (intro map_cong [OF refl]) (simp add: u)
  have "distinct (map row_key rows)" using assms(1) by (simp add: assignments_ok_def)
  then have "rows_affected P rows = 0 \<or> rows_affected P rows = 1"
    by (rule rows_affected_key [where key = "(aid, gen)"]) (use assms(4) in auto)
  then show "rows_affected P rows = 1" using assms(2,3) by (auto simp: rows_affected_def filter_empty_conv)
qed

lemma upsert_summary_runs: "has_assignment d (sum_aid row) (sum_gen row) \<Longrightarrow> \<exists>ss. upsert_summary row d = Inr (d\<lparr>summaries := ss\<rparr>)"
  by (simp add: upsert_summary_def Let_def) blast

lemma next_checkpoint_fresh:
  assumes ok: "checkpoints_ok (checkpoints d)" and w: "row_watermark d r" and cp: "cp_aid cp = ar_id r" "cp_gen cp = ar_gen r"
    "cp_rev cp = Suc (ar_evaluation_revision r)"
  shows "checkpoints_ok (checkpoints d @ [cp])"
proof -
  have "cp_rev k \<le> ar_evaluation_revision r" if "k \<in> set (checkpoints d)" "cp_aid k = ar_id r" "cp_gen k = ar_gen r" for k
  proof -
    have "cp_rev k \<in> set (map cp_rev (row_checkpoints d r))" using that by (simp add: generation_checkpoints_def)
    then show ?thesis using w by (auto simp: row_watermark_def simp del: set_map)
  qed
  then show ?thesis using ok cp by (fastforce simp: checkpoints_ok_def)
qed

lemma writeEvaluation_runs:
  assumes sha: "inj (sha_hex E)" and mono: "mono (timestamptz E)"
    and ready: "book_ready E a H d" and log: "log_ok (H @ ev_Transitions e)"
    and cursor: "checked_cursor (asg_ID a) (asg_Generation a) e allowEqual d" and json: "json_evaluation e"
    and cps: "checkpoints_ok (checkpoints d @ [checkpoint_entry E a n (confirmed e)])"
  shows "\<exists>d'. writeEvaluation E now a n e allowEqual publish d = Inr d' \<and> book_ready E a (H @ ev_Transitions e) d'"
proof -
  have enc: "list_all encodable (ev_Transitions e)" using json by (simp add: json_evaluation_def encodable_def [abs_def])
  obtain d1 where d1: "write_transitions E a n (confirmed e) (ev_Transitions e) d = Inr d1" "book_ready E a (H @ ev_Transitions e) d1"
    using write_entries [OF sha mono ready log enc] by blast
  let ?cp = "checkpoint_entry E a n (confirmed e)" and ?sum = "summary_entry E a n (confirmed e)"
  let ?d2 = "d1\<lparr>checkpoints := checkpoints d1 @ [?cp]\<rparr>"
  have has: "has_assignment d1 (asg_ID a) (asg_Generation a)" using d1(2) by (simp add: book_ready_def)
  have "checkpoints d1 = checkpoints d" using write_transitions_frame [OF d1(1)] by (simp add: other_tables_def)
  then have d2: "insert_checkpoint ?cp d1 = Inr ?d2" using cps has by (simp add: insert_checkpoint_def)
  obtain ss where d3: "upsert_summary ?sum ?d2 = Inr (?d2\<lparr>summaries := ss\<rparr>)"
    using upsert_summary_runs [of ?d2 ?sum] has by (auto simp: has_assignment_def)
  let ?d' = "if publish then enqueue_live (registry_outbox now a n (confirmed e)) (?d2\<lparr>summaries := ss\<rparr>) else ?d2\<lparr>summaries := ss\<rparr>"
  have "json_evaluation (confirmed e)" "ev_Transitions (confirmed e) = ev_Transitions e"
    using json by (simp_all add: json_evaluation_def confirmed_def)
  moreover have guard: "(case newest_checkpoint (asg_ID a) (asg_Generation a) d of None \<Rightarrow> Inr ()
      | Some c \<Rightarrow> (let k = compareEvaluationCursor e (cp_through_ns c) (cp_wal c) (cp_seq c) (cp_frame c) in
          ensure (\<not> (k < 0 \<or> (k = 0 \<and> \<not> allowEqual))) ErrStaleEvaluation)) = Inr ()"
  proof (cases "newest_checkpoint (asg_ID a) (asg_Generation a) d")
    case (Some c)
    then have "checkpoint_cursor c < evaluation_cursor e \<or> (allowEqual \<and> checkpoint_cursor c = evaluation_cursor e)"
      using cursor by (simp add: checked_cursor_def)
    then have "\<not> evaluation_cursor e < checkpoint_cursor c" "evaluation_cursor e = checkpoint_cursor c \<Longrightarrow> allowEqual" by auto
    then show ?thesis using Some by (simp add: Let_def compareEvaluationCursor_order checkpoint_cursor_def)
  qed simp
  ultimately have "writeEvaluation E now a n e allowEqual publish d = Inr ?d'"
    unfolding writeEvaluation_def guard using d1(1) d2 d3 by (simp add: Let_def flip: confirmed_def)
  moreover have "incidents ?d' = incidents d1" "events ?d' = events d1" "assignments ?d' = assignments d1"
    by (simp_all add: enqueue_live_def)
  then have "book_ready E a (H @ ev_Transitions e) ?d'"
    using d1(2) same_rows [of ?d' d1] booked_rows [of _ _ ?d' d1] by (simp add: book_ready_def has_assignment_def)
  ultimately show ?thesis by blast
qed

text \<open>A claim that is live: its row is leased to it, at the revision and with the authority it repeats.\<close>

definition live_claim :: "store_env \<Rightarrow> gotime \<Rightarrow> claim \<Rightarrow> assignment_row \<Rightarrow> bool" where
  "live_claim E now c r \<longleftrightarrow>
     lease_fence now c r \<and> ar_evaluation_revision r = cl_EvaluationRevision c \<and>
     ar_from_ns r = Some (cl_AuthorityFrom c) \<and> ar_until_ns r = Some (cl_AuthorityUntil c) \<and>
     within_grace E now (cl_FinalizationGrace c) r"

text \<open>The claims that \<^verbatim>\<open>ClaimDueAssignments\<close> hands out are live.\<close>

lemma claimed_is_live:
  assumes "timeline_inv rs" "r \<in> set rs" "due E now grace r" "0 < pg_interval E lease"
    and "leased = take_lease E now w lease r" "c = claim_of w grace leased"
  shows "live_claim E now c leased"
  using leased_claim(3-7) [OF assms] assms(3,5,6)
  by (simp add: live_claim_def due_def within_grace_def take_lease_def claim_of_def)

lemma commit_runs:
  assumes sha: "inj (sha_hex E)" and mono: "mono (timestamptz E)" and reach: "reachable E d"
    and r: "r \<in> set (assignments d)" "live_claim E now c r"
    and valid: "validateEvaluationCommit cm = Inr ()"
    and inside: "validateEvaluationWithinAuthority (ec_Evaluation cm) (cl_AuthorityFrom c) (cl_AuthorityUntil c) = Inr ()"
    and at: "cl_AuthorityFrom c \<le> UnixNano (ev_ObservedAt (ec_Evaluation cm))" "UnixNano (ev_ObservedAt (ec_Evaluation cm)) < cl_AuthorityUntil c"
    and cursor: "checked_cursor (ar_id r) (ar_gen r) (ec_Evaluation cm) False d" and json: "json_evaluation (ec_Evaluation cm)"
    and book: "booked E (ar_id r) (ar_gen r) H d" and log: "log_ok (H @ ev_Transitions (ec_Evaluation cm))"
  shows "\<exists>d'. CommitEvaluation E now c cm d = Inr d' \<and> booked E (ar_id r) (ar_gen r) (H @ ev_Transitions (ec_Evaluation cm)) d'"
proof -
  let ?e = "ec_Evaluation cm" and ?a = "cl_Assignment c" and ?n = "ar_evaluation_revision r + 1"
  let ?fence = "\<lambda>r. lease_fence now c r \<and> ar_evaluation_revision r = cl_EvaluationRevision c \<and> authority_covers (UnixNano (ev_ObservedAt ?e)) r"
  let ?d1 = "d\<lparr>assignments := map (\<lambda>s. if s = r then counted_up E now cm s else s) (assignments d)\<rparr>"
  have key: "asg_ID ?a = ar_id r" "asg_Generation ?a = ar_gen r" using r(2) by (simp_all add: live_claim_def lease_fence_def)
  have inv: "timeline_inv (assignments d)" "row_watermark d r" using reachable_store_inv [OF reach] r(1) by (auto simp: store_inv_def watermark_inv_def)
  note ok = timeline_invD(1) [OF inv(1)] and ev = reachable_evidence_inv [OF reach] and led = reachable_ledger_inv [OF reach]
  have P: "?fence r" using r(2) at by (simp add: live_claim_def authority_covers_def)
  note one = first_fence [where P = ?fence, OF ok r(1) P, of "asg_ID ?a" "asg_Generation ?a"]
  have put: "put_assignments (update_where ?fence (counted_up E now cm) (assignments d)) d = Inr ?d1"
    using updates_keep_constraints [OF ok, of "counted_up E now cm" ?fence] one(2) [of "counted_up E now cm"]
    by (simp add: put_assignments_def lease_fence_def drop_lease_def [of now] assignment_row_ok_def authority_interval_valid_def
        lifecycle_authority_valid_def)
  have keys: "map row_key (assignments ?d1) = map row_key (assignments d)" by (simp add: drop_lease_def)
  have has: "has_assignment d (asg_ID ?a) (asg_Generation ?a)" unfolding has_assignment_def key using r(1) by force
  have ready: "book_ready E ?a H ?d1"
    using book ev led has keys booked_rows [of "ar_id r" "ar_gen r" ?d1 d] same_rows [of ?d1 d]
    by (simp add: book_ready_def key evidence_inv_def ledger_inv_def has_assignment_def)
  have cps: "checkpoints_ok (checkpoints ?d1 @ [checkpoint_entry E ?a ?n (confirmed ?e)])"
    using next_checkpoint_fresh [OF _ inv(2), of "checkpoint_entry E ?a ?n (confirmed ?e)"] ev key by (simp add: evidence_inv_def)
  have cur: "checked_cursor (asg_ID ?a) (asg_Generation ?a) ?e False ?d1"
    using cursor by (simp add: checked_cursor_def newest_checkpoint_def generation_checkpoints_def key)
  from writeEvaluation_runs [OF sha mono ready log cur json cps, of now True]
  obtain d' where "writeEvaluation E now ?a ?n ?e False True ?d1 = Inr d'" "book_ready E ?a (H @ ev_Transitions ?e) d'" by blast
  moreover have "CommitEvaluation E now c cm d = writeEvaluation E now ?a ?n ?e False True ?d1"
    using valid inside one(1) put r(2) by (simp add: CommitEvaluation_def Let_def live_claim_def lease_fence_def)
  ultimately show ?thesis by (auto simp: book_ready_def key)
qed

text \<open>Whatever a commit could write continues the book.\<close>

lemma written_encodable: "write_transitions E a n pl ts d = Inr d' \<Longrightarrow> list_all encodable ts"
  by (induction ts arbitrary: d) (auto simp: write_transition_def encodable_def monad_splits split: prod.splits)

lemma committed_booked:
  assumes sha: "inj (sha_hex E)" and mono: "mono (timestamptz E)" and reach: "reachable E d"
    and run: "CommitEvaluation E now c cm d = Inr d'"
    and book: "booked E (asg_ID (cl_Assignment c)) (asg_Generation (cl_Assignment c)) H d"
    and log: "log_ok (H @ ev_Transitions (ec_Evaluation cm))"
  shows "booked E (asg_ID (cl_Assignment c)) (asg_Generation (cl_Assignment c)) (H @ ev_Transitions (ec_Evaluation cm)) d'"
proof -
  have ok: "assignments_ok (assignments d)"
    using reachable_store_inv [OF reach] by (simp add: store_inv_def timeline_inv_def)
  from ok run show ?thesis
  proof (rule CommitEvaluation_Inr)
    fix row :: assignment_row
    let ?a = "cl_Assignment c" and ?e = "ec_Evaluation cm"
    let ?d = "d\<lparr>assignments := map (\<lambda>r. if r = row then counted_up E now cm r else r) (assignments d)\<rparr>"
    assume w: "writeEvaluation E now ?a (ar_evaluation_revision row + 1) ?e False True ?d = Inr d'"
    then obtain n pl d1 where d1: "write_transitions E ?a n pl (ev_Transitions ?e) ?d = Inr d1"
      and tables: "incidents d' = incidents d1" "events d' = events d1"
      by (auto simp: writeEvaluation_def monad_splits Let_def stmt upsert_summary_def enqueue_live_def split: if_splits)
    have "book_ready E ?a H ?d"
      using book reachable_evidence_inv [OF reach] reachable_ledger_inv [OF reach] writeEvaluation_Inr(7) [OF w]
        booked_rows [of "asg_ID ?a" "asg_Generation ?a" ?d d] same_rows [of ?d d]
      by (simp add: book_ready_def evidence_inv_def ledger_inv_def)
    from write_entries [OF sha mono this log written_encodable [OF d1], of n pl] d1
    have "booked E (asg_ID ?a) (asg_Generation ?a) (H @ ev_Transitions ?e) d1" by (simp add: book_ready_def)
    then show ?thesis using booked_rows [OF same_rows(1,2) [OF tables]] by simp
  qed
qed

end
