(* ===== verification/Flight_Progress.thy ===== *)
theory Flight_Progress
  imports Flight Commit_Progress
begin

text \<open>
  A flight is never stuck. Along a flight the incident and event rows of the generation are the
  book of the transitions evaluated so far; therefore a poll under a live claim succeeds
  whatever the new frames are, as long as they can be recorded at all.
\<close>

section \<open>The frames of a flight\<close>

lemma whole_flight_frames:
  shows "distinct (map obs_FrameID (whole_flight F oor tel A t))" "sorted (map obs_ObservedAt (whole_flight F oor tel A t))"
proof -
  show "distinct (map obs_FrameID (whole_flight F oor tel A t))"
    unfolding whole_flight_def worker_order.distinct_map_sort_by by (rule distinct_map_filter, rule unique_by_props(2))
  show "sorted (map obs_ObservedAt (whole_flight F oor tel A t))"
    unfolding sorted_map by (rule sorted_wrt_mono_rel [OF _ whole_flight_sorted]) (auto simp: workerBefore_def split: if_splits)
qed

lemma whole_flight_matches:
  assumes "unambiguous F oor tel" "zero_time < asg_EffectiveFrom A"
  shows "list_all (observation_matches A) (whole_flight F oor tel A t)"
proof -
  have "observation_matches A o'" if o': "o' \<in> set (decoded F oor tel)" "belongs A o'" for o'
  proof -
    obtain row where row: "decodeObservation F oor row = Inr o'" using o'(1) by (auto simp: set_decoded)
    have "\<not> IsZero (obs_ObservedAt o')" using o'(2) assms(2) by (auto simp: belongs_def IsZero_def)
    then show ?thesis using decode_Inr(1,2) [OF row] o'(2)
      by (auto simp: observation_matches_def belongs_def position_known_def altitude_sound_def finite64_iff finite_def
          not_blank_not_empty split: if_splits)
  qed
  then show ?thesis using assms(1) by (auto simp: list_all_iff set_whole_flight)
qed

abbreviation flight_log :: "fpu \<Rightarrow> (real \<Rightarrow> nat) \<Rightarrow> policy \<Rightarrow> row list \<Rightarrow> assignment \<Rightarrow> gotime \<Rightarrow> incident_transition list" where
  "flight_log F oor p tel A t \<equiv> run_transitions F p A (whole_flight F oor tel A t) empty_state"

lemma flight_log_ok:
  "valid_policy p \<Longrightarrow> unambiguous F oor tel \<Longrightarrow> zero_time < asg_EffectiveFrom A \<Longrightarrow> log_ok (flight_log F oor p tel A t)"
  by (rule run_log_ok) (simp_all add: whole_flight_matches whole_flight_frames)

section \<open>The book of a flight\<close>

lemma flight_booked:
  assumes "flown E F oor p A tel t d" and env: "text_less E = (<)" "validateAssignment A p = Inr ()" "zero_time < asg_EffectiveFrom A"
    "TrimSpace (asg_AircraftID A) = asg_AircraftID A"
    and pol: "valid_policy p" and sha: "inj (sha_hex E)" and mono: "mono (timestamptz E)"
  shows "booked E (asg_ID A) (asg_Generation A) (flight_log F oor p tel A t) d"
  using assms(1)
proof (induction rule: flown.induct)
  case (begin_flight d tel)
  have "whole_flight F oor tel A (asg_EffectiveFrom A) = []" by (auto simp: whole_flight_def belongs_def filter_empty_conv)
  moreover have "evidence_inv E d" by (rule reachable_evidence_inv [OF begin_flight(1)])
  ultimately show ?case using begin_flight(3) booked_empty by (simp add: evidence_inv_def)
next
  case (others tel t d d')
  note same = others_leave_rows [OF _ others.hyps(2,3)]
  show ?case using others.IH booked_rows [OF same] flown_basics [OF others.hyps(1)] by simp
next
  case (arrive tel t d rows)
  then show ?case using arrived_flight [OF arrive.hyps] by simp
next
  case (poll tel t d W c I now d')
  note b = flown_basics [OF poll.hyps(1)]
  have stored: "flight_stored E F oor p A tel t d" by (rule flown_stored [OF poll.hyps(1) env])
  have un: "unambiguous F oor tel" using b by blast
  show ?case using env(2-4) stored un poll.hyps(2-12) refl poll.hyps(13)
  proof (cases rule: successful_poll)
    case (deferred nx)
    then show ?thesis
      using poll.IH lease_tables(2) [OF deferred(2)] booked_rows [of "asg_ID A" "asg_Generation A" d' d]
      by (simp add: evidence_tables_def generation_incidents_def generation_events_def)
  next
    case (committed suffix prev e nx)
    have key: "asg_ID (cl_Assignment c) = asg_ID A" "asg_Generation (cl_Assignment c) = asg_Generation A"
      using poll.hyps(8) by auto
    have trs: "flight_log F oor p tel A (window_end (we_config W) now c) = flight_log F oor p tel A t @ ev_Transitions e"
      using EvaluateBatch_result(5) [OF committed(4)] committed(1,3) by (simp add: run_transitions_append)
    have "log_ok (flight_log F oor p tel A t @ ev_Transitions e)"
      using flight_log_ok [OF pol _ env(3), of F oor tel "window_end (we_config W) now c"] b unfolding trs by simp
    then show ?thesis
      using committed_booked [OF sha mono _ committed(5), of "flight_log F oor p tel A t"] b poll.IH unfolding trs key by simp
  qed
qed

section \<open>Complete evaluations\<close>

lemma supported_between:
  "supportedUnixNanoseconds a \<Longrightarrow> supportedUnixNanoseconds b \<Longrightarrow> a \<le> x \<Longrightarrow> x \<le> b \<Longrightarrow> supportedUnixNanoseconds x"
  by (simp add: supportedUnixNanoseconds_def year_at_least_def)

lemma json_supported: "supportedUnixNanoseconds x \<Longrightarrow> json_time x"
proof -
  have "year_start 0 \<le> year_start 1678" "year_start 2262 \<le> year_start 10000" by code_simp+
  then show "supportedUnixNanoseconds x \<Longrightarrow> json_time x"
    by (simp add: supportedUnixNanoseconds_def json_time_def year_at_least_def)
qed

lemma json_zero: "json_time zero_time"
  by code_simp

text \<open>A frame that can be recorded: its sequence fits the column, and the distances it yields are finite.\<close>

definition recordable :: "fpu \<Rightarrow> policy \<Rightarrow> assignment \<Rightarrow> observation \<Rightarrow> bool" where
  "recordable F p A o' \<longleftrightarrow> obs_WALSequence o' \<le> MaxInt64 \<and> finite_evidence F p A o'"

text \<open>The instants of a flight: inside the authority, not after the last frame.\<close>

definition flight_instants :: "gotime \<Rightarrow> gotime \<Rightarrow> gotime set \<Rightarrow> gotime \<Rightarrow> bool" where
  "flight_instants from till T watermark \<longleftrightarrow>
     (\<forall>x\<in>T. from \<le> x \<and> x < till \<and> supportedUnixNanoseconds x \<and> \<not> IsZero x \<and> x \<le> watermark)"

lemma flight_has_instants:
  assumes un: "unambiguous F oor tel" and "zero_time < asg_EffectiveFrom A" "supportedUnixNanoseconds (asg_EffectiveFrom A)"
    "supportedUnixNanoseconds till" and split: "whole_flight F oor tel A till = fs @ suffix" "suffix \<noteq> []"
  shows "flight_instants (asg_EffectiveFrom A) till (obs_ObservedAt ` set (whole_flight F oor tel A till)) (obs_ObservedAt (last suffix))"
  unfolding flight_instants_def
proof
  fix x assume "x \<in> obs_ObservedAt ` set (whole_flight F oor tel A till)"
  then obtain o' where o': "o' \<in> set (whole_flight F oor tel A till)" "x = obs_ObservedAt o'" by auto
  then have x: "asg_EffectiveFrom A \<le> x" "x < till" using un by (auto simp: set_whole_flight belongs_def)
  have "o' = last (fs @ suffix) \<or> workerBefore o' (last (fs @ suffix))"
    by (rule sorted_wrt_last) (use whole_flight_sorted [of F oor tel A till] o'(1) in \<open>simp_all only: split\<close>)
  then have "x \<le> obs_ObservedAt (last suffix)" using o'(2) split(2) by (auto simp: workerBefore_def split: if_splits)
  with x show "asg_EffectiveFrom A \<le> x \<and> x < till \<and> supportedUnixNanoseconds x \<and> \<not> IsZero x \<and> x \<le> obs_ObservedAt (last suffix)"
    using assms(2) supported_between [OF assms(3,4)] by (auto simp: IsZero_def)
qed

lemma held_authorized:
  assumes "held T s" "flight_instants from till T w" "till \<le> until"
  shows "timestamp_authorized w from until (is_FirstSuspectedAt s)" "timestamp_authorized w from until (is_OpenedAt s)"
    "timestamp_authorized w from until (is_LastObservedAt s)" "json_incident s"
proof -
  have "timestamp_authorized w from until x \<and> json_time x" if "x \<in> insert zero_time T" for x
    using that assms(2,3) json_supported json_zero by (force simp: flight_instants_def timestamp_authorized_def IsZero_def)
  then show "timestamp_authorized w from until (is_FirstSuspectedAt s)" "timestamp_authorized w from until (is_OpenedAt s)"
    "timestamp_authorized w from until (is_LastObservedAt s)" "json_incident s"
    using assms(1) by (simp_all add: held_def json_incident_def)
qed

text \<open>What a batch that continues the run over \<open>fs\<close> returns comes from the frames of both.\<close>

lemma evaluated_parts:
  assumes pol: "valid_policy p" and T: "T = obs_ObservedAt ` set (fs @ suffix)"
    and batch: "EvaluateBatch F p A suffix (run_states F p A fs empty_state) = Inr e"
    and matches: "list_all (observation_matches A) fs" and fin: "list_all (finite_evidence F p A) (fs @ suffix)"
  shows "ev_ObservedAt e \<in> T" "ev_CausalFrom e \<in> T" "state_held T (ev_State e)"
    "\<And>t. t \<in> set (ev_Transitions e) \<Longrightarrow> \<exists>o'\<in>set suffix. entry_of o' t \<and> well_formed_entry t \<and> finite64 (tr_DeviationM t)"
proof -
  let ?prev = "run_states F p A fs empty_state"
  note r = EvaluateBatch_result [OF batch]
  have inv: "state_inv p ?prev" by (rule run_states_inv [OF pol state_inv_empty matches])
  have last: "last suffix \<in> set suffix" "hd suffix \<in> set suffix" using r(1) by simp_all
  then show "ev_ObservedAt e \<in> T" using r(7) T by auto
  have held0: "state_held (obs_ObservedAt ` set fs) ?prev" using run_held [OF state_held_empty, of F p A fs "{}"] fin by simp
  have "state_held (obs_ObservedAt ` set suffix \<union> obs_ObservedAt ` set fs) (ev_State e)"
    unfolding r(4) by (rule run_held [OF held0]) (use fin in simp)
  then show "state_held T (ev_State e)" by (simp add: T image_Un Un_commute)
  show "ev_CausalFrom e \<in> T" using causal_held [OF held0, of "obs_ObservedAt (hd suffix)"] last(2) r(6) T by auto
  show "\<exists>o'\<in>set suffix. entry_of o' t \<and> well_formed_entry t \<and> finite64 (tr_DeviationM t)" if "t \<in> set (ev_Transitions e)" for t
    using run_entry [OF pol that [unfolded r(5)] inv r(3)] fin by (auto simp: list_all_iff)
qed

lemma complete_evaluation:
  assumes pol: "valid_policy p" and T: "T = obs_ObservedAt ` set (fs @ suffix)" and inst: "flight_instants from till T (obs_ObservedAt (last suffix))"
    and auth: "from < till" "till \<le> until"
    and batch: "EvaluateBatch F p A suffix (run_states F p A fs empty_state) = Inr e"
    and matches: "list_all (observation_matches A) fs" and rec: "list_all (recordable F p A) (fs @ suffix)" and nx: "\<not> IsZero nx"
  shows "validateEvaluationCommit \<lparr>ec_Evaluation = e, ec_NextEvaluationAt = nx\<rparr> = Inr ()"
    "validateEvaluationWithinAuthority e from until = Inr ()" "json_evaluation e"
    "from \<le> UnixNano (ev_ObservedAt e)" "UnixNano (ev_ObservedAt e) < until"
proof -
  note r = EvaluateBatch_result [OF batch]
  have fin: "list_all (finite_evidence F p A) (fs @ suffix)" using rec by (simp add: list_all_iff recordable_def)
  note parts = evaluated_parts [OF pol T batch matches fin]
  have at: "x \<in> T \<Longrightarrow> from \<le> x \<and> x < till \<and> supportedUnixNanoseconds x \<and> \<not> IsZero x \<and> x \<le> ev_ObservedAt e" for x
    using inst r(7) by (simp add: flight_instants_def)
  have tr_at: "tr_ObservedAt t \<in> T" if "t \<in> set (ev_Transitions e)" for t using parts(4) [OF that] T by (auto simp: entry_of_def)
  have "transition_complete (ev_ObservedAt e) t" if t: "t \<in> set (ev_Transitions e)" for t
  proof -
    obtain o' where o': "o' \<in> set suffix" "entry_of o' t" "well_formed_entry t" using parts(4) [OF t] by blast
    then have "observation_matches A o'" "recordable F p A o'" using r(3) rec by (auto simp: list_all_iff)
    then show ?thesis using at [OF tr_at [OF t]] o'
      by (auto simp: transition_complete_def entry_of_def well_formed_entry_def observation_matches_def recordable_def)
  qed
  moreover have "observation_matches A (last suffix)" "recordable F p A (last suffix)" using r(1,3) rec by (auto simp: list_all_iff)
  ultimately show "validateEvaluationCommit \<lparr>ec_Evaluation = e, ec_NextEvaluationAt = nx\<rparr> = Inr ()"
    using at [OF parts(1)] at [OF parts(2)] nx r(8-10)
    by (auto simp: validateEvaluationCommit_def Let_def list_all_iff observation_matches_def recordable_def monad_splits)
  have ok: "timestamp_authorized (ev_ObservedAt e) from until x" if "x \<in> T" for x
    using at [OF that] auth(2) by (simp add: timestamp_authorized_def)
  have inst': "flight_instants from till T (ev_ObservedAt e)" using inst r(7) by simp
  have "held T s" if "Violations (ev_State e) v = Some s" for v s using parts(3) that by (auto simp: state_held_def)
  note states = held_authorized [OF this inst' auth(2)]
  show "validateEvaluationWithinAuthority e from until = Inr ()"
    using auth ok [OF parts(1)] ok [OF parts(2)] ok [OF tr_at] states
    by (auto simp: validateEvaluationWithinAuthority_def Let_def list_all_iff monad_splits split: option.splits)
  show "json_evaluation e"
    using json_supported at [OF parts(1)] at [OF parts(2)] at [OF tr_at] parts(4) states(4)
    by (auto simp: json_evaluation_def list_all_iff split: option.splits)
  show "from \<le> UnixNano (ev_ObservedAt e)" "UnixNano (ev_ObservedAt e) < until" using at [OF parts(1)] auth(2) by simp_all
qed

section \<open>The checkpoint of a live claim\<close>

definition observation_cursor :: "observation \<Rightarrow> cursor" where
  "observation_cursor o' = (obs_ObservedAt o', obs_WALID o', obs_WALSequence o', obs_FrameID o')"

text \<open>The newest checkpoint of the generation stands at the last frame that was evaluated.\<close>

lemma newest_at_last_frame:
  assumes bytes: "text_less E = (<)" and stored: "flight_stored E F oor p A tel t d"
    and r: "row_watermark d r" "current_row r" "ar_id r = asg_ID A" "ar_gen r = asg_Generation A"
    and until: "ar_until_ns r = Some u" "supportedUnixNanoseconds u" "t \<le> u" and some: "row_checkpoints d r \<noteq> []"
  shows "whole_flight F oor tel A t \<noteq> []"
    "checkpoint_cursor (last (row_checkpoints d r)) = observation_cursor (last (whole_flight F oor tel A t))"
proof -
  have "authority_covers (cp_through_ns (last (row_checkpoints d r))) r" using r(1) some by (simp add: row_watermark_def)
  then have "cp_through_ns (last (row_checkpoints d r)) \<le> UnixNano u" using until by (auto simp: authority_covers_def split: option.splits)
  from restore_newest [OF r(1,2) bytes some this]
  have "GetReplayCheckpoint E (asg_ID A) (asg_Generation A) u d = Some (restored (last (row_checkpoints d r)))" by (simp add: r(3,4))
  moreover have "checkpoint_of F p A (whole_flight F oor tel A t) (GetReplayCheckpoint E (asg_ID A) (asg_Generation A) u d)"
    using stored until by (simp add: flight_stored_def)
  ultimately show "whole_flight F oor tel A t \<noteq> []"
    "checkpoint_cursor (last (row_checkpoints d r)) = observation_cursor (last (whole_flight F oor tel A t))"
    by (auto simp: checkpoint_of_def cursor_at_def restored_def checkpoint_cursor_def observation_cursor_def)
qed

lemma live_checkpoint_matches:
  assumes bytes: "text_less E = (<)" and stored: "flight_stored E F oor p A tel t d" and un: "unambiguous F oor tel"
    and r: "row_watermark d r" "current_row r" "ar_id r = asg_ID A" "ar_gen r = asg_Generation A"
    and until: "ar_until_ns r = Some u" "supportedUnixNanoseconds u" "t \<le> u"
    and till: "t \<le> till" "supportedUnixNanoseconds till" and rev: "ar_evaluation_revision r = cl_EvaluationRevision c"
  shows "checkpoint_matches c (GetReplayCheckpoint E (asg_ID A) (asg_Generation A) till d)"
proof (cases "row_checkpoints d r = []")
  case True
  then have "ar_evaluation_revision r = 0" using r(1) by (auto simp: row_watermark_def split: if_splits)
  then show ?thesis using restore_none [OF r(1), of E till] r(3,4) rev by (simp add: checkpoint_matches_def)
next
  case False
  let ?fs = "whole_flight F oor tel A t"
  note n = newest_at_last_frame [OF bytes stored r until False]
  have "obs_ObservedAt (last ?fs) < t" using n(1) un last_in_set [OF n(1)] by (simp add: set_whole_flight)
  then have "cp_through_ns (last (row_checkpoints d r)) \<le> UnixNano till"
    using n(2) till by (simp add: checkpoint_cursor_def observation_cursor_def)
  from restore_newest [OF r(1,2) bytes False this]
  have cp: "GetReplayCheckpoint E (asg_ID A) (asg_Generation A) till d = Some (restored (last (row_checkpoints d r)))" by (simp add: r(3,4))
  have revs: "map cp_rev (row_checkpoints d r) = [1..<Suc (ar_evaluation_revision r)]" using r(1) by (simp add: row_watermark_def)
  then have "0 < ar_evaluation_revision r" using False by (cases "ar_evaluation_revision r") auto
  moreover from this have "cp_rev (last (row_checkpoints d r)) = ar_evaluation_revision r"
    using False last_map [OF False, of cp_rev] unfolding revs by simp
  ultimately show ?thesis using rev unfolding cp by (simp add: checkpoint_matches_def restored_def)
qed

text \<open>So an evaluation of later frames is past it.\<close>

lemma live_cursor:
  assumes bytes: "text_less E = (<)" and stored: "flight_stored E F oor p A tel t d" and un: "unambiguous F oor tel"
    and r: "row_watermark d r" "current_row r" "ar_id r = asg_ID A" "ar_gen r = asg_Generation A"
    and until: "ar_until_ns r = Some u" "supportedUnixNanoseconds u" "t \<le> u"
    and split: "whole_flight F oor tel A till = whole_flight F oor tel A t @ suffix" "suffix \<noteq> []"
    and e: "evaluation_cursor e = observation_cursor (last suffix)"
  shows "checked_cursor (ar_id r) (ar_gen r) e False d"
  unfolding checked_cursor_def
proof (intro allI impI)
  let ?fs = "whole_flight F oor tel A t"
  fix k assume k: "newest_checkpoint (ar_id r) (ar_gen r) d = Some k"
  then have some: "row_checkpoints d r \<noteq> []" by (auto simp: newest_checkpoint_def)
  note n = newest_at_last_frame [OF bytes stored r until some]
  have in_flight: "last ?fs \<in> set (whole_flight F oor tel A till)" "last suffix \<in> set (whole_flight F oor tel A till)"
    using n(1) split by simp_all
  have "sorted_wrt workerBefore (?fs @ suffix)" using whole_flight_sorted [of F oor tel A till] unfolding split(1) .
  then have "workerBefore (last ?fs) (last suffix)" using n(1) split(2) by (simp add: sorted_wrt_append)
  moreover have "obs_AgentID (last ?fs) = obs_AgentID (last suffix)" using in_flight un by (simp add: set_whole_flight belongs_def)
  ultimately have "observation_cursor (last ?fs) < observation_cursor (last suffix)"
    by (auto simp: workerBefore_def observation_cursor_def less_prod_def split: if_splits)
  then show "checkpoint_cursor k < evaluation_cursor e \<or> False \<and> checkpoint_cursor k = evaluation_cursor e"
    using k newest_checkpoint_last [OF r(1) some] n(2) e by simp
qed

section \<open>A poll succeeds\<close>

lemma defer_runs:
  assumes "assignments_ok (assignments d)" "r \<in> set (assignments d)" "live_claim E now c r" "\<not> IsZero nx"
  shows "\<exists>d'. DeferAssignmentEvaluation E now c nx d = Inr d'"
proof -
  let ?fence = "\<lambda>r. lease_fence now c r \<and> ar_evaluation_revision r = cl_EvaluationRevision c \<and> within_grace E now (cl_FinalizationGrace c) r"
  have "rows_affected ?fence (assignments d) = 1"
    by (rule first_fence(3) [where P = ?fence and aid = "asg_ID (cl_Assignment c)" and gen = "asg_Generation (cl_Assignment c)",
        OF assms(1,2)])
      (use assms(3) in \<open>simp_all add: live_claim_def lease_fence_def\<close>)
  moreover have "assignments_ok (update_where ?fence (drop_lease now (timestamptz E nx)) (assignments d))"
    by (rule updates_keep_constraints [OF assms(1)]) (simp add: drop_lease_def [of now "timestamptz E nx"] assignment_row_ok_def
        authority_interval_valid_def lifecycle_authority_valid_def)
  ultimately show ?thesis
    using assms(4) by (simp add: DeferAssignmentEvaluation_def fenced_update_def put_assignments_def)
qed

text \<open>A worker as \<^verbatim>\<open>config.Validate\<close> accepts it, on the telemetry \<open>tel\<close>.\<close>

definition serves_flight :: "worker_env \<Rightarrow> row list \<Rightarrow> assignment \<Rightarrow> bool" where
  "serves_flight W tel A \<longleftrightarrow>
     telemetry_ok W tel (asg_AircraftID A) \<and> 0 < wc_OverlapWindow (we_config W) \<and> 0 \<le> wc_SettleDelay (we_config W) \<and>
     0 < wc_PollInterval (we_config W)"

lemma next_evaluation_set:
  assumes "serves_flight W tel A" "zero_time < window_end (we_config W) now c"
  shows "\<not> IsZero (now + wc_PollInterval (we_config W))"
  using assms by (auto simp: serves_flight_def window_end_def IsZero_def Let_def split: if_splits)

lemma supported_after_zero: "supportedUnixNanoseconds x \<Longrightarrow> zero_time < x"
proof -
  have "zero_time < year_start 1678" by code_simp
  then show "supportedUnixNanoseconds x \<Longrightarrow> zero_time < x" by (simp add: supportedUnixNanoseconds_def year_at_least_def)
qed

text \<open>The commit of the new frames goes through.\<close>

lemma flight_commit_runs:
  assumes flight: "flown E F oor p A tel t d" and env: "text_less E = (<)" "validateAssignment A p = Inr ()"
    "TrimSpace (asg_AircraftID A) = asg_AircraftID A"
    and ideal: "valid_policy p" "inj (sha_hex E)" "mono (timestamptz E)" and A: "evaluation_assignment c = A"
    and row: "r \<in> set (assignments d)" "live_claim E now c r"
    and times: "supportedUnixNanoseconds (asg_EffectiveFrom A)" "supportedUnixNanoseconds (asg_EffectiveUntil A)"
    and till: "asg_EffectiveFrom A < till" "t \<le> till" "till \<le> asg_EffectiveUntil A"
    and split: "whole_flight F oor tel A till = whole_flight F oor tel A t @ suffix" "suffix \<noteq> []"
    and batch: "EvaluateBatch F p A suffix (run_states F p A (whole_flight F oor tel A t) empty_state) = Inr e"
    and rec: "list_all (recordable F p A) (whole_flight F oor tel A till)" and nx: "\<not> IsZero nx"
  shows "\<exists>d'. CommitEvaluation E now c \<lparr>ec_Evaluation = e, ec_NextEvaluationAt = nx\<rparr> d = Inr d'"
proof -
  let ?fs = "whole_flight F oor tel A t"
  have zero: "zero_time < asg_EffectiveFrom A" by (rule supported_after_zero [OF times(1)])
  note b = flown_basics [OF flight] and stored = flown_stored [OF flight env(1,2) zero env(3)]
  have un: "unambiguous F oor tel" and reach: "reachable E d" using b by blast+
  have c: "cl_AuthorityFrom c = asg_EffectiveFrom A" "cl_AuthorityUntil c = asg_EffectiveUntil A" using A by (auto simp: evaluation_assignment_def)
  have key: "ar_id r = asg_ID A" "ar_gen r = asg_Generation A" "current_row r" "ar_until_ns r = Some (asg_EffectiveUntil A)"
    using row(2) A c by (auto simp: live_claim_def lease_fence_def)
  have w: "row_watermark d r" using reachable_store_inv [OF reach] row(1) by (simp add: store_inv_def watermark_inv_def)
  have supp: "supportedUnixNanoseconds till" using supported_between [OF times] till by simp
  note inst = flight_has_instants [OF un zero times(1) supp split]
  have fs: "list_all (observation_matches A) ?fs" by (rule whole_flight_matches [OF un zero])
  note fit = complete_evaluation [OF ideal(1) _ inst till(1,3) batch fs _ nx, unfolded split(1), OF refl rec [unfolded split(1)]]
  have "evaluation_cursor e = observation_cursor (last suffix)"
    using EvaluateBatch_result [OF batch] fit(4,5) inst last_in_set [OF split(2)] split(1)
    by (simp add: evaluation_cursor_def observation_cursor_def flight_instants_def)
  then have cur: "checked_cursor (ar_id r) (ar_gen r) e False d"
    using live_cursor [OF env(1) stored un w key(3,1,2,4) times(2) _ split] till by simp
  have book: "booked E (ar_id r) (ar_gen r) (flight_log F oor p tel A t) d"
    unfolding key by (rule flight_booked [OF flight env(1,2) zero env(3) ideal])
  have "flight_log F oor p tel A till = flight_log F oor p tel A t @ ev_Transitions e"
    using EvaluateBatch_result(5) [OF batch] split(1) by (simp add: run_transitions_append)
  then have "log_ok (flight_log F oor p tel A t @ ev_Transitions e)" using flight_log_ok [OF ideal(1) un zero, of till] by simp
  with commit_runs [OF ideal(2,3) reach row, of "\<lparr>ec_Evaluation = e, ec_NextEvaluationAt = nx\<rparr>"] show ?thesis
    using fit cur book c by auto
qed

text \<open>
  C5: Progress. However a flight was polled so far and whatever its incidents are, a poll under a
  live claim succeeds and takes the flight to the end of its window: no check and no constraint of the store refuses
  the evaluation, provided its frames can be recorded (their sequences fit 63 bits, the
  distances are finite), the database orders text bytewise and keeps the order of instants, and
  the digest has no collisions.
\<close>

theorem live_poll_succeeds:
  assumes flight: "flown E F oor p A tel t d" and env: "text_less E = (<)" "validateAssignment A p = Inr ()"
    "TrimSpace (asg_AircraftID A) = asg_AircraftID A"
    and ideal: "valid_policy p" "inj (sha_hex E)" "mono (timestamptz E)"
    and W: "we_store W = E" "we_fpu W = F" "we_out_of_range W = oor" "we_policy W = p" "serves_flight W tel A"
    and A: "evaluation_assignment c = A" "undisturbed I"
    and till: "till = window_end (we_config W) now c" "asg_EffectiveFrom A < till" "t \<le> till"
    and row: "r \<in> set (assignments d)" "live_claim E (ix_clock I 1) c r"
    and times: "supportedUnixNanoseconds (asg_EffectiveFrom A)" "supportedUnixNanoseconds (asg_EffectiveUntil A)"
    and rec: "list_all (recordable F p A) (whole_flight F oor tel A till)"
  shows "\<exists>d'. processClaim W I now c d = (None, d') \<and> flown E F oor p A tel till d'"
proof -
  have zero: "zero_time < asg_EffectiveFrom A" by (rule supported_after_zero [OF times(1)])
  note b = flown_basics [OF flight] and stored = flown_stored [OF flight env(1,2) zero env(3)]
  have inv: "store_inv d" and un: "unambiguous F oor tel" using b reachable_store_inv by blast+
  have until: "till \<le> asg_EffectiveUntil A" using A(1) till(1) by (auto simp: window_end_def evaluation_assignment_def Let_def)
  have supp: "supportedUnixNanoseconds till" using supported_between [OF times] till(2) until by simp
  have key: "ar_id r = asg_ID A" "ar_gen r = asg_Generation A" "current_row r" "ar_until_ns r = Some (asg_EffectiveUntil A)"
    "ar_evaluation_revision r = cl_EvaluationRevision c"
    using row(2) A(1) by (auto simp: live_claim_def lease_fence_def evaluation_assignment_def)
  have "row_watermark d r" using inv row(1) by (simp add: store_inv_def watermark_inv_def)
  then have matches: "checkpoint_matches c (GetReplayCheckpoint E (asg_ID A) (asg_Generation A) till d)"
    using live_checkpoint_matches [OF env(1) stored un _ key(3,1,2,4) times(2)] till(3) until supp key(5) by simp
  have tel: "telemetry_ok W tel (asg_AircraftID A)" "0 < wc_OverlapWindow (we_config W)" using W(5) by (simp_all add: serves_flight_def)
  have nx: "\<not> IsZero (now + wc_PollInterval (we_config W))"
    by (rule next_evaluation_set [OF W(5), of now c]) (use zero till in simp)
  from env(2) zero env(3) stored un W(1-4) tel A till(2,3) supp till(1) matches
  obtain suffix where split: "whole_flight F oor tel A till = whole_flight F oor tel A t @ suffix"
    and "continues_flight W I now c d A (whole_flight F oor tel A t) suffix" by (rule poll_runs)
  moreover have "\<exists>d'. DeferAssignmentEvaluation E (ix_clock I 1) c (now + wc_PollInterval (we_config W)) d = Inr d'"
    using defer_runs [OF _ row nx] inv by (simp add: store_inv_def timeline_inv_def)
  ultimately have "\<exists>d'. processClaim W I now c d = (None, d')"
    using flight_commit_runs [OF flight env ideal A(1) row times till(2,3) until split _ _ rec nx] A(2) W(1-4)
    by (cases "suffix = []") (fastforce simp: continues_flight_def deferClaim_def undisturbed_def Let_def)+
  then obtain d' where d': "processClaim W I now c d = (None, d')" by blast
  have "flown E F oor p A tel till d'"
    using flown.poll [OF flight W(1-4) tel A] till supp d' by simp
  with d' show ?thesis by blast
qed

lemma early_recordable:
  "list_all (recordable (we_fpu early_worker) (we_policy early_worker) (evaluation_assignment early_claim))
     (whole_flight (we_fpu early_worker) (\<lambda>_. 0) pair_demo (evaluation_assignment early_claim) 5000)"
proof -
  let ?F = "we_fpu early_worker" and ?p = "we_policy early_worker" and ?A = "evaluation_assignment early_claim"
  have "list_all (\<lambda>o'. list_all (\<lambda>v. case evidenceByType ?F ?p ?A o' v of None \<Rightarrow> True | Some e \<Rightarrow> finite64 (deviation e)) violation_types)
      [observation_demo ''x'' 1 1000, observation_demo ''y'' 2 1003]" by code_simp
  then have "list_all (finite_evidence ?F ?p ?A) [observation_demo ''x'' 1 1000, observation_demo ''y'' 2 1003]"
    by (simp add: finite_evidence_def list_all_iff split: option.splits)
  then show ?thesis unfolding early_flight by (simp add: recordable_def) (simp add: observation_demo_def MaxInt64_def)
qed

theorem live_poll_succeeds_witness:
  "\<exists>d'. early_poll = (None, d') \<and>
     flown store_env_demo (we_fpu early_worker) (\<lambda>_. 0) (we_policy early_worker) (evaluation_assignment early_claim) pair_demo 5000 d'"
proof -
  let ?A = "evaluation_assignment early_claim"
  have pol: "valid_policy (we_policy early_worker)" by (simp add: valid_policy_def Validate_def early_worker_def finiteNonnegative_def finite_def)
  have sha: "inj (sha_hex store_env_demo)" "mono (timestamptz store_env_demo)" "text_less store_env_demo = (<)"
    by (simp_all add: store_env_demo_def inj_def mono_def)
  have "list_ex (live_claim store_env_demo (ix_clock quiet_demo 1) early_claim) (assignments db_claimed)" by code_simp
  then obtain r where r: "r \<in> set (assignments db_claimed)" "live_claim store_env_demo (ix_clock quiet_demo 1) early_claim r"
    by (auto simp: list_ex_iff)
  have W: "serves_flight early_worker pair_demo ?A"
    using early_telemetry by (simp add: serves_flight_def early_worker_def)
  have till: "5000 = window_end (we_config early_worker) 5000 early_claim" "asg_EffectiveFrom ?A < 5000" "asg_EffectiveFrom ?A \<le> 5000"
    unfolding early_window early_assignment by simp_all
  have times: "supportedUnixNanoseconds (asg_EffectiveFrom ?A)" "supportedUnixNanoseconds (asg_EffectiveUntil ?A)" by code_simp+
  have we: "we_store early_worker = store_env_demo" "we_out_of_range early_worker = (\<lambda>_. 0)" by (simp_all add: early_worker_def)
  show ?thesis
    by (rule live_poll_succeeds [OF early_start sha(3) early_valid early_trim pol sha(1,2) we(1) refl we(2) refl W refl quiet_undisturbed till r times
        early_recordable])
qed

end
