(* ===== verification/Environment.thy ===== *)
theory Environment
  imports Reader
begin

text \<open>
  What loading the configuration uses of Go's standard library: \<^verbatim>\<open>os.Expand\<close>, which replaces
  \<^verbatim>\<open>$NAME\<close> and \<^verbatim>\<open>${NAME}\<close> in the text of the file, and \<^verbatim>\<open>time.ParseDuration\<close>, which
  reads a sequence of decimal numbers with units.
\<close>

section \<open>Environment variables\<close>

definition isShellSpecialVar :: "char \<Rightarrow> bool" where
  "isShellSpecialVar c \<longleftrightarrow> c \<in> set ''*#$@!?-'' \<or> digit c"

definition isAlphaNum :: "char \<Rightarrow> bool" where
  "isAlphaNum c \<longleftrightarrow>
     c = CHR ''_'' \<or> digit c \<or> (97 \<le> (of_char c :: nat) \<and> (of_char c :: nat) \<le> 122) \<or>
     (65 \<le> (of_char c :: nat) \<and> (of_char c :: nat) \<le> 90)"

text \<open>The name after a dollar sign and the number of bytes it takes; a bad \<^verbatim>\<open>${\<close> is eaten.\<close>

definition getShellName :: "string \<Rightarrow> string \<times> nat" where
  "getShellName s =
     (case s of [] \<Rightarrow> ([], 0)
      | c # r \<Rightarrow>
          if c = CHR ''{'' then
            (if 2 < length s \<and> isShellSpecialVar (s ! 1) \<and> s ! 2 = CHR ''}'' then ([s ! 1], 3)
             else let name = takeWhile (\<lambda>x. x \<noteq> CHR ''}'') r in
               if length name = length r then ([], 1)
               else if name = [] then ([], 2) else (name, length name + 2))
          else if isShellSpecialVar c then ([c], 1)
          else let name = takeWhile isAlphaNum s in (name, length name))"

function Expand :: "(string \<Rightarrow> string) \<Rightarrow> string \<Rightarrow> string" where
  "Expand mapping [] = []"
| "Expand mapping (c # s) =
     (if c = CHR ''$'' \<and> s \<noteq> []
      then let (name, w) = getShellName s in
        (if name = [] \<and> 0 < w then [] else if name = [] then [c] else mapping name) @ Expand mapping (drop w s)
      else c # Expand mapping s)"
  by pat_completeness auto
termination by (relation "measure (length \<circ> snd)") auto

text \<open>Text without a dollar sign is left alone; a braced name is replaced by its value.\<close>

lemma Expand_plain: "CHR ''$'' \<notin> set s \<Longrightarrow> Expand mapping s = s"
  by (induction s) auto

lemma getShellName_braced:
  assumes "name \<noteq> []" "CHR ''}'' \<notin> set name"
  shows "getShellName (CHR ''{'' # name @ CHR ''}'' # post) = (name, length name + 2)"
proof -
  have name: "takeWhile (\<lambda>x. x \<noteq> CHR ''}'') (name @ CHR ''}'' # post) = name"
    using assms(2) by (subst takeWhile_append2) auto
  obtain x xs where x: "name = x # xs" using assms(1) by (cases name) auto
  have "xs = []" if "(CHR ''{'' # name @ CHR ''}'' # post) ! 2 = CHR ''}''" using that assms(2) x by (cases xs) auto
  then show ?thesis using name x by (auto simp: getShellName_def Let_def)
qed

lemma Expand_braced:
  assumes "CHR ''$'' \<notin> set pre" "name \<noteq> []" "CHR ''}'' \<notin> set name"
  shows "Expand mapping (pre @ ''${'' @ name @ ''}'' @ post) = pre @ mapping name @ Expand mapping post"
  using assms(1)
proof (induction pre)
  case Nil
  then show ?case using getShellName_braced [OF assms(2,3), of post] assms(2) by simp
next
  case (Cons c pre)
  then show ?case by auto
qed

section \<open>Durations\<close>

definition unit_of :: "string \<Rightarrow> nat option" where
  "unit_of u =
     (if u = ''ns'' then Some 1
      else if u = ''us'' \<or> u = [CHR 0xC2, CHR 0xB5, CHR ''s''] \<or> u = [CHR 0xCE, CHR 0xBC, CHR ''s''] then Some 1000
      else if u = ''ms'' then Some 1000000
      else if u = ''s'' then Some 1000000000
      else if u = ''m'' then Some 60000000000
      else if u = ''h'' then Some 3600000000000
      else None)"

fun leadingInt :: "nat \<Rightarrow> string \<Rightarrow> (nat \<times> string) option" where
  "leadingInt x [] = Some (x, [])"
| "leadingInt x (c # s) =
     (if \<not> digit c then Some (x, c # s)
      else if 2 ^ 63 div 10 < x then None
      else let y = x * 10 + (of_char c - 48) in if 2 ^ 63 < y then None else leadingInt y s)"

text \<open>Digits that would overflow are dropped.\<close>

fun leadingFraction :: "fpu \<Rightarrow> nat \<Rightarrow> f64 \<Rightarrow> bool \<Rightarrow> string \<Rightarrow> nat \<times> f64 \<times> string" where
  "leadingFraction F x scale overflow [] = (x, scale, [])"
| "leadingFraction F x scale overflow (c # s) =
     (if \<not> digit c then (x, scale, c # s)
      else let y = x * 10 + (of_char c - 48) in
        if overflow \<or> (2 ^ 63 - 1) div 10 < x \<or> 2 ^ 63 < y then leadingFraction F x scale True s
        else leadingFraction F y (f_mul F scale (Fin 10)) False s)"

definition uint64_of_f64 :: "(real \<Rightarrow> nat) \<Rightarrow> f64 \<Rightarrow> nat" where
  "uint64_of_f64 out_of_range x =
     (case x of Fin r \<Rightarrow> if 0 \<le> r then uint64_of_float out_of_range r else out_of_range r | _ \<Rightarrow> out_of_range 0)"

definition number_char :: "char \<Rightarrow> bool" where
  "number_char c \<longleftrightarrow> c = CHR ''.'' \<or> digit c"

text \<open>One number and its unit, in nanoseconds, and the rest; sums are of type \<^verbatim>\<open>uint64\<close>.\<close>

definition duration_part :: "fpu \<Rightarrow> (real \<Rightarrow> nat) \<Rightarrow> string \<Rightarrow> (nat \<times> string) option" where
  "duration_part F out_of_range s =
     (if s = [] \<or> \<not> number_char (hd s) then None
      else case leadingInt 0 s of None \<Rightarrow> None
      | Some (v, s1) \<Rightarrow>
         (let (f, scale, s2) = (case s1 of CHR ''.'' # r \<Rightarrow> leadingFraction F 0 (Fin 1) False r | _ \<Rightarrow> (0, Fin 1, s1));
              pre = length s1 \<noteq> length s;
              post = (case s1 of CHR ''.'' # r \<Rightarrow> length s2 \<noteq> length r | _ \<Rightarrow> False);
              u = takeWhile (\<lambda>c. \<not> number_char c) s2 in
          if \<not> pre \<and> \<not> post \<or> u = [] then None
          else case unit_of u of None \<Rightarrow> None
          | Some unit \<Rightarrow>
             if 2 ^ 63 div unit < v then None
             else let w = (if 0 < f
                       then (v * unit + uint64_of_f64 out_of_range
                              (f_mul F (rnd F (real f)) (f_div F (rnd F (real unit)) scale))) mod 2 ^ 64
                       else v * unit) in
               if 0 < f \<and> 2 ^ 63 < w then None else Some (w, drop (length u) s2)))"

lemma leadingInt_length: "leadingInt x s = Some (v, r) \<Longrightarrow> length r \<le> length s"
  by (induction x s rule: leadingInt.induct) (auto simp: Let_def split: if_splits)

lemma leadingFraction_length: "leadingFraction F x sc ov s = (f, sc', r) \<Longrightarrow> length r \<le> length s"
  by (induction F x sc ov s rule: leadingFraction.induct) (auto simp: Let_def split: if_splits)

lemma duration_part_length:
  assumes "duration_part F out_of_range s = Some (w, r)"
  shows "length r < length s"
proof -
  obtain v s1 where s1: "leadingInt 0 s = Some (v, s1)"
    using assms by (auto simp: duration_part_def split: if_splits option.splits)
  obtain f scale s2 where s2: "(case s1 of CHR ''.'' # r \<Rightarrow> leadingFraction F 0 (Fin 1) False r | _ \<Rightarrow> (0, Fin 1, s1)) = (f, scale, s2)"
    using prod_cases3 by blast
  have "length s2 \<le> length s1"
    using s2 leadingFraction_length [of F 0 "Fin 1" False "tl s1"] by (auto split: list.splits char.splits bool.splits if_splits)
  moreover have "r = drop (length (takeWhile (\<lambda>c. \<not> number_char c) s2)) s2" "takeWhile (\<lambda>c. \<not> number_char c) s2 \<noteq> []"
    using assms s1 s2 by (simp_all add: duration_part_def Let_def split: if_splits option.splits)
  moreover from this(2) have "0 < length (takeWhile (\<lambda>c. \<not> number_char c) s2)" by simp
  ultimately show ?thesis
    using leadingInt_length [OF s1] length_takeWhile_le [of "\<lambda>c. \<not> number_char c" s2] by (simp del: length_greater_0_conv)
qed

function duration_loop :: "fpu \<Rightarrow> (real \<Rightarrow> nat) \<Rightarrow> nat \<Rightarrow> string \<Rightarrow> nat option" where
  "duration_loop F out_of_range d s =
     (if s = [] then Some d
      else case duration_part F out_of_range s of None \<Rightarrow> None
      | Some (v, r) \<Rightarrow>
          (let d' = (d + v) mod 2 ^ 64 in
           if 2 ^ 63 < d' then None else duration_loop F out_of_range d' r))"
  by pat_completeness auto
termination
  by (relation "measure (\<lambda>(F, out_of_range, d, s). length s)") (auto dest: duration_part_length)

declare duration_loop.simps [simp del]

definition ParseDuration :: "fpu \<Rightarrow> (real \<Rightarrow> nat) \<Rightarrow> string \<Rightarrow> duration option" where
  "ParseDuration F out_of_range s =
     (let neg = (s \<noteq> [] \<and> hd s = CHR ''-'');
          r = (if s \<noteq> [] \<and> (hd s = CHR ''-'' \<or> hd s = CHR ''+'') then tl s else s) in
      if r = ''0'' then Some 0
      else if r = [] then None
      else case duration_loop F out_of_range 0 r of None \<Rightarrow> None
      | Some d \<Rightarrow> if neg then Some (- int d) else if 2 ^ 63 - 1 < d then None else Some (int d))"

text \<open>Whatever the text, an accepted duration fits \<^verbatim>\<open>int64\<close>.\<close>

lemma duration_loop_bound: "duration_loop F out_of_range d s = Some n \<Longrightarrow> d \<le> 2 ^ 63 \<Longrightarrow> n \<le> 2 ^ 63"
proof (induction F out_of_range d s rule: duration_loop.induct)
  case (1 F out_of_range d s)
  then show ?case
    by (subst (asm) (2) duration_loop.simps) (auto simp: Let_def split: if_splits option.splits)
qed

lemma ParseDuration_bounds: "ParseDuration F out_of_range s = Some d \<Longrightarrow> - (2 ^ 63) \<le> d \<and> d < 2 ^ 63"
  by (auto simp: ParseDuration_def Let_def split: if_splits option.splits dest!: duration_loop_bound)

text \<open>A whole number of a unit is read back as that many of it.\<close>

abbreviation digits_from :: "nat \<Rightarrow> string \<Rightarrow> nat" where
  "digits_from x ds \<equiv> foldl (\<lambda>n c. 10 * n + (of_char c - 48)) x ds"

lemma digits_from_mono: "x \<le> digits_from x ds"
proof (induction ds arbitrary: x)
  case (Cons c ds)
  have "x \<le> 10 * x + (of_char c - 48)" by simp
  also have "\<dots> \<le> digits_from x (c # ds)" using Cons [of "10 * x + (of_char c - 48)"] by simp
  finally show ?case .
qed simp

lemma leadingInt_digits:
  "list_all digit ds \<Longrightarrow> (rest = [] \<or> \<not> digit (hd rest)) \<Longrightarrow> digits_from x ds \<le> 2 ^ 63 \<Longrightarrow>
     leadingInt x (ds @ rest) = Some (digits_from x ds, rest)"
proof (induction ds arbitrary: x)
  case Nil
  then show ?case by (cases rest) auto
next
  case (Cons c ds)
  have y: "10 * x + (of_char c - 48) \<le> 2 ^ 63" using digits_from_mono [of "10 * x + (of_char c - 48)" ds] Cons.prems(3) by simp
  then have "x \<le> 2 ^ 63 div 10" by simp
  then show ?case using Cons.IH [of "10 * x + (of_char c - 48)"] Cons.prems y by (simp add: Let_def mult.commute)
qed

lemma unit_chars:
  assumes "unit_of u = Some n"
  shows "u \<noteq> []" "list_all (\<lambda>c. \<not> number_char c) u" "0 < n" "n < 2 ^ 63"
  using assms by (auto simp: unit_of_def number_char_def digit_def split: if_splits)

lemma duration_part_whole:
  assumes "list_all digit ds" "ds \<noteq> []" "unit_of u = Some n" "decimal ds * n \<le> 2 ^ 63"
  shows "duration_part F out_of_range (ds @ u) = Some (decimal ds * n, [])"
proof -
  note u = unit_chars [OF assms(3)]
  have "decimal ds \<le> decimal ds * n" using u(3) by simp
  then have small: "decimal ds \<le> 2 ^ 63" using assms(4) by (rule order_trans)
  obtain c r where c: "u = c # r" "\<not> number_char c" using u(1,2) by (cases u) auto
  have lead: "leadingInt 0 (ds @ u) = Some (decimal ds, u)"
    using leadingInt_digits [OF assms(1), of u 0] small c by (auto simp: decimal_def number_char_def)
  have dot: "(case u of CHR ''.'' # r \<Rightarrow> leadingFraction F 0 (Fin 1) False r | _ \<Rightarrow> (0, Fin 1, u)) = (0, Fin 1, u)"
    "(case u of CHR ''.'' # r \<Rightarrow> x r | _ \<Rightarrow> False) = False" for x :: "string \<Rightarrow> bool"
    using c by (auto simp: number_char_def split: char.splits bool.splits)
  have tw: "takeWhile (\<lambda>c. \<not> number_char c) u = u" using u(2) by (simp add: list_all_iff)
  have hd: "number_char (hd (ds @ u))" using assms(1,2) by (cases ds) (auto simp: number_char_def)
  have "decimal ds \<le> 2 ^ 63 div n" using assms(4) u(3) by (simp add: less_eq_div_iff_mult_less_eq)
  then show ?thesis
    using hd assms(2,3) u(1) unfolding duration_part_def lead option.case prod.case dot Let_def tw by simp
qed

lemma ParseDuration_whole:
  assumes "list_all digit ds" "ds \<noteq> []" "unit_of u = Some n" "decimal ds * n < 2 ^ 63"
  shows "ParseDuration F out_of_range (ds @ u) = Some (int (decimal ds * n))"
proof -
  note u = unit_chars [OF assms(3)] and part = duration_part_whole [OF assms(1-3) less_imp_le [OF assms(4)]]
  have loop: "duration_loop F out_of_range 0 (ds @ u) = Some (decimal ds * n)"
    using assms(2,4) part by (subst duration_loop.simps) (simp add: duration_loop.simps Let_def)
  have "digit (hd (ds @ u))" using assms(1,2) by (cases ds) auto
  then have sign: "hd (ds @ u) \<noteq> CHR ''-''" "hd (ds @ u) \<noteq> CHR ''+''" by (auto simp: digit_def)
  have "ds @ u \<noteq> ''0''" using assms(2) u(1) by (cases ds; cases u) auto
  then show ?thesis using loop sign assms(2,4) by (simp add: ParseDuration_def Let_def)
qed

end
