(* ===== verification/Config.thy ===== *)
theory Config
  imports Environment
begin

text \<open>
  Process configuration of \<^verbatim>\<open>internal/config/config.go\<close>: the sections as records, the defaults,
  loading and validation. The file system, the values of environment variables and the YAML decoder,
  which calls \<open>UnmarshalYAML\<close> for every duration, are parameters of \<open>Load\<close>.
\<close>

text \<open>The callback of the decoder: what a node must hold to become a \<^verbatim>\<open>Duration\<close>.\<close>

definition UnmarshalYAML :: "fpu \<Rightarrow> (real \<Rightarrow> nat) \<Rightarrow> string \<Rightarrow> string + duration" where
  "UnmarshalYAML F out_of_range node =
     (case ParseDuration F out_of_range node of None \<Rightarrow> Inl node | Some d \<Rightarrow> Inr d)"

record grpc_tls =
  tls_CertificateFile :: string
  tls_PrivateKeyFile :: string
  tls_ClientCAFile :: string

record service_config =
  svc_ManagementAddress :: string
  svc_GRPCAddress :: string
  svc_GRPCTLS :: grpc_tls
  svc_ShutdownTimeout :: duration

record registry_config =
  reg_Address :: string
  reg_Insecure :: bool
  reg_PublishInterval :: duration
  reg_RequestTimeout :: duration
  reg_LeaseDuration :: duration
  reg_RetryDelay :: duration
  reg_BatchSize :: int

record influx_config =
  ifx_Host :: string
  ifx_Token :: string
  ifx_Database :: string
  ifx_PollInterval :: duration
  ifx_OverlapWindow :: duration
  ifx_SettleDelay :: duration
  ifx_AircraftBatchSize :: int
  ifx_MaxRows :: int

record worker_section =
  wkr_ID :: string
  wkr_LeaseDuration :: duration
  wkr_RenewInterval :: duration
  wkr_ClaimBatchSize :: int

record policy_section =
  plc_Version :: string
  plc_HorizontalToleranceM :: f64
  plc_VerticalToleranceM :: f64
  plc_OpenAfterSamples :: int
  plc_RecoverAfterSamples :: int
  plc_TelemetryFreshness :: duration

record logging_config =
  log_Level :: string
  log_Format :: string

record config =
  cfg_Service :: service_config
  cfg_PostgresURL :: string
  cfg_Influx :: influx_config
  cfg_Registry :: registry_config
  cfg_Worker :: worker_section
  cfg_Policy :: policy_section
  cfg_Logging :: logging_config

definition Default :: config where
  "Default =
     \<lparr>cfg_Service = \<lparr>svc_ManagementAddress = '':2112'', svc_GRPCAddress = '':50052'',
        svc_GRPCTLS = \<lparr>tls_CertificateFile = [], tls_PrivateKeyFile = [], tls_ClientCAFile = []\<rparr>,
        svc_ShutdownTimeout = 15 * Second\<rparr>,
      cfg_PostgresURL = [],
      cfg_Influx = \<lparr>ifx_Host = [], ifx_Token = [], ifx_Database = [], ifx_PollInterval = Second,
        ifx_OverlapWindow = 30 * Second, ifx_SettleDelay = 2 * Second, ifx_AircraftBatchSize = 100,
        ifx_MaxRows = 10000\<rparr>,
      cfg_Registry = \<lparr>reg_Address = [], reg_Insecure = True, reg_PublishInterval = Second,
        reg_RequestTimeout = 3 * Second, reg_LeaseDuration = 10 * Second, reg_RetryDelay = 5 * Second,
        reg_BatchSize = 20\<rparr>,
      cfg_Worker = \<lparr>wkr_ID = [], wkr_LeaseDuration = 30 * Second, wkr_RenewInterval = 10 * Second,
        wkr_ClaimBatchSize = 20\<rparr>,
      cfg_Policy = \<lparr>plc_Version = ''standard-v1'', plc_HorizontalToleranceM = Fin 5,
        plc_VerticalToleranceM = Fin 3, plc_OpenAfterSamples = 3, plc_RecoverAfterSamples = 3,
        plc_TelemetryFreshness = 15 * Second\<rparr>,
      cfg_Logging = \<lparr>log_Level = ''info'', log_Format = ''json''\<rparr>\<rparr>"

definition finiteNonnegative :: "f64 \<Rightarrow> bool" where
  "finiteNonnegative x \<longleftrightarrow> finite64 x \<and> f_le (Fin 0) x"

datatype config_error =
  ReadFailed | DecodeFailed | SeveralDocuments | TrailingInvalid
  | ServiceInvalid | TLSInvalid | PostgresInvalid | InfluxInvalid | RegistryInvalid | WorkerInvalid
  | PolicyInvalid | LogFormatInvalid | LogLevelInvalid

definition cfg_Validate :: "config \<Rightarrow> config_error + unit" where
  "cfg_Validate c =
     (let s = cfg_Service c; t = svc_GRPCTLS s; i = cfg_Influx c; r = cfg_Registry c; w = cfg_Worker c;
          p = cfg_Policy c; l = cfg_Logging c in
      ebind (ensure (\<not> (blank (svc_ManagementAddress s) \<or> blank (svc_GRPCAddress s) \<or> svc_ShutdownTimeout s \<le> 0))
               ServiceInvalid) (\<lambda>_.
      ebind (ensure (\<not> (blank (tls_CertificateFile t) \<or> blank (tls_PrivateKeyFile t) \<or> blank (tls_ClientCAFile t)))
               TLSInvalid) (\<lambda>_.
      ebind (ensure (\<not> blank (cfg_PostgresURL c)) PostgresInvalid) (\<lambda>_.
      ebind (ensure (\<not> (blank (ifx_Host i) \<or> blank (ifx_Database i) \<or> ifx_PollInterval i \<le> 0 \<or>
                        ifx_OverlapWindow i \<le> 0 \<or> ifx_SettleDelay i < 0 \<or> ifx_AircraftBatchSize i < 1 \<or>
                        ifx_MaxRows i < 1)) InfluxInvalid) (\<lambda>_.
      ebind (ensure (\<not> (blank (reg_Address r) \<or> reg_PublishInterval r \<le> 0 \<or> reg_RequestTimeout r \<le> 0 \<or>
                        reg_LeaseDuration r \<le> reg_RequestTimeout r \<or> reg_RetryDelay r \<le> 0 \<or> reg_BatchSize r < 1))
               RegistryInvalid) (\<lambda>_.
      ebind (ensure (\<not> (blank (wkr_ID w) \<or> wkr_LeaseDuration w \<le> 0 \<or> wkr_RenewInterval w \<le> 0 \<or>
                        wkr_LeaseDuration w \<le> wkr_RenewInterval w \<or> wkr_ClaimBatchSize w < 1)) WorkerInvalid) (\<lambda>_.
      ebind (ensure (\<not> (blank (plc_Version p) \<or> \<not> finiteNonnegative (plc_HorizontalToleranceM p) \<or>
                        \<not> finiteNonnegative (plc_VerticalToleranceM p) \<or> plc_OpenAfterSamples p < 1 \<or>
                        plc_RecoverAfterSamples p < 1 \<or> plc_TelemetryFreshness p \<le> 0)) PolicyInvalid) (\<lambda>_.
      ebind (ensure (log_Format l = ''json'' \<or> log_Format l = ''text'') LogFormatInvalid) (\<lambda>_.
      ensure (log_Level l = ''debug'' \<or> log_Level l = ''info'' \<or> log_Level l = ''warn'' \<or> log_Level l = ''error'')
        LogLevelInvalid)))))))))"

text \<open>
  What the decoder finds after the first document: the end of the input, another document, or
  text it cannot decode.
\<close>

datatype yaml_tail = EndOfInput | AnotherDocument | Undecodable

type_synonym yaml_decoder = "(string \<Rightarrow> string + duration) \<Rightarrow> config \<Rightarrow> string \<Rightarrow> (config \<times> yaml_tail) option"

definition Load ::
  "fpu \<Rightarrow> (real \<Rightarrow> nat) \<Rightarrow> (string \<Rightarrow> string option) \<Rightarrow> (string \<Rightarrow> string) \<Rightarrow> yaml_decoder \<Rightarrow> string \<Rightarrow> config_error + config" where
  "Load F out_of_range readFile getenv decode path =
     (case readFile path of None \<Rightarrow> Inl ReadFailed
      | Some contents \<Rightarrow>
         (case decode (UnmarshalYAML F out_of_range) Default (Expand getenv contents) of
            None \<Rightarrow> Inl DecodeFailed
          | Some (cfg, AnotherDocument) \<Rightarrow> Inl SeveralDocuments
          | Some (cfg, Undecodable) \<Rightarrow> Inl TrailingInvalid
          | Some (cfg, EndOfInput) \<Rightarrow> ebind (cfg_Validate cfg) (\<lambda>_. Inr cfg)))"

end
