(* ===== verification/Migrations.thy ===== *)
theory Migrations
  imports Reader
begin

text \<open>
  The migration runner of \<^verbatim>\<open>internal/store/postgres/migrations.go\<close>: the embedded files in name
  order, the ledger of applied versions, and one transaction per file. The effect of the SQL
  text and the digest are parameters; the advisory lock makes the run one process at a time.
\<close>

record entry =
  en_Name :: string
  en_IsDir :: bool
  en_Contents :: string

datatype migration_error =
  NoNumericPrefix string | VersionInvalid string | DuplicateVersion string | ChecksumChanged string
  | ApplyFailed string

definition HasSuffix :: "string \<Rightarrow> string \<Rightarrow> bool" where
  "HasSuffix s suffix \<longleftrightarrow> length suffix \<le> length s \<and> drop (length s - length suffix) s = suffix"

text \<open>The text before the first underscore.\<close>

definition Cut :: "string \<Rightarrow> string option" where
  "Cut s = (if CHR ''_'' \<in> set s then Some (takeWhile (\<lambda>c. c \<noteq> CHR ''_'') s) else None)"

text \<open>\<^verbatim>\<open>strconv.ParseInt(s, 10, 64)\<close>: an optional sign and decimal digits within range.\<close>

definition ParseInt :: "string \<Rightarrow> int option" where
  "ParseInt s =
     (case s of [] \<Rightarrow> None
      | c # rest \<Rightarrow>
          (let digits = (if c = CHR ''+'' \<or> c = CHR ''-'' then rest else s) in
           if digits = [] \<or> \<not> list_all digit digits then None
           else if c = CHR ''-''
             then if decimal digits \<le> 2 ^ 63 then Some (- int (decimal digits)) else None
             else if decimal digits < 2 ^ 63 then Some (int (decimal digits)) else None))"

text \<open>
  The durable state: the ledger from version to checksum, and the schema the migrations have
  built. \<open>seen\<close> holds the versions met in this run.
\<close>

type_synonym 'schema ledger = "(int \<rightharpoonup> string) \<times> 'schema"

definition apply_migration ::
  "(string \<Rightarrow> string) \<Rightarrow> (string \<Rightarrow> 'schema \<Rightarrow> 'schema option) \<Rightarrow> entry \<Rightarrow> int \<Rightarrow> 'schema ledger \<Rightarrow>
   migration_error + 'schema ledger" where
  "apply_migration checksum exec e version st =
     (case fst st version of
        Some applied \<Rightarrow>
          if applied \<noteq> checksum (en_Contents e) then Inl (ChecksumChanged (en_Name e)) else Inr st
      | None \<Rightarrow>
         (case exec (en_Contents e) (snd st) of
            None \<Rightarrow> Inl (ApplyFailed (en_Name e))
          | Some schema \<Rightarrow> Inr ((fst st)(version \<mapsto> checksum (en_Contents e)), schema)))"

fun migrate_entries ::
  "(string \<Rightarrow> string) \<Rightarrow> (string \<Rightarrow> 'schema \<Rightarrow> 'schema option) \<Rightarrow> entry list \<Rightarrow> int set \<Rightarrow> 'schema ledger \<Rightarrow>
   migration_error option \<times> 'schema ledger" where
  "migrate_entries checksum exec [] seen st = (None, st)"
| "migrate_entries checksum exec (e # es) seen st =
     (if en_IsDir e \<or> \<not> HasSuffix (en_Name e) ''.sql'' then migrate_entries checksum exec es seen st
      else
        case Cut (en_Name e) of None \<Rightarrow> (Some (NoNumericPrefix (en_Name e)), st)
        | Some prefix \<Rightarrow>
           (case ParseInt prefix of None \<Rightarrow> (Some (VersionInvalid (en_Name e)), st)
            | Some version \<Rightarrow>
                if version \<in> seen then (Some (DuplicateVersion (en_Name e)), st)
                else
                  (case apply_migration checksum exec e version st of
                     Inl err \<Rightarrow> (Some err, st)
                   | Inr st' \<Rightarrow> migrate_entries checksum exec es (insert version seen) st')))"

definition migrate ::
  "(string \<Rightarrow> string) \<Rightarrow> (string \<Rightarrow> 'schema \<Rightarrow> 'schema option) \<Rightarrow> entry list \<Rightarrow> 'schema ledger \<Rightarrow>
   migration_error option \<times> 'schema ledger" where
  "migrate checksum exec entries st =
     migrate_entries checksum exec (sort_key en_Name entries) {} st"

end
