(* ===== verification/Service.thy ===== *)
theory Service
  imports Config Worker Publisher Handlers Migrations
begin

text \<open>
  Assembly and shutdown of the process, \<^verbatim>\<open>internal/conformance/conformance.go\<close>. The resources
  the service opens are recorded in the list of those still open. What the outside answers (key
  files, the database, the telemetry client, the Registry client, the listener, the servers) is
  a parameter.
\<close>

datatype resource = StorePool | InfluxClient | RegistryConnection

datatype service_error =
  CredentialsInvalid | StoreOpenFailed | InfluxClientFailed | ReaderInvalid | HandlerInvalid
  | RegistryClientFailed | PublisherInvalid | EvaluatorInvalid eval_error | EvaluationWorkerInvalid
  | ListenFailed | ManagementServerFailed string | GRPCServerFailed string | EvaluationWorkerFailed worker_error

text \<open>The answers of the outside world during construction.\<close>

record outside =
  ow_certificate :: "string \<Rightarrow> string \<Rightarrow> bool"
  ow_file :: "string \<Rightarrow> string option"
  ow_pem :: "string \<Rightarrow> bool"
  ow_store :: "string \<Rightarrow> bool"
  ow_influx :: "string \<Rightarrow> string \<Rightarrow> string \<Rightarrow> influx_client option"
  ow_registry :: "string \<Rightarrow> bool \<Rightarrow> bool"

text \<open>What shutting down does, in the order in which it is done.\<close>

datatype action =
  WithdrawReady | CancelRun | ShutdownManagement | GracefulStopGRPC | StopGRPC | CloseRegistry | CloseReader | CloseStore

record service =
  sv_runner :: runner
  sv_reader :: reader
  sv_handler :: handler
  sv_publisher :: publisher_config
  sv_policy :: policy
  sv_worker :: worker_config
  sv_ready :: bool
  sv_runCancel :: bool
  sv_open :: "resource list"
  sv_shutdown :: "string list option"
  sv_actions :: "action list"

definition newAssignmentServerCredentials :: "outside \<Rightarrow> grpc_tls \<Rightarrow> service_error + unit" where
  "newAssignmentServerCredentials ow tls =
     ebind (ensure (ow_certificate ow (tls_CertificateFile tls) (tls_PrivateKeyFile tls)) CredentialsInvalid) (\<lambda>_.
     case ow_file ow (tls_ClientCAFile tls) of None \<Rightarrow> Inl CredentialsInvalid
     | Some pem \<Rightarrow> ensure (ow_pem ow pem) CredentialsInvalid)"

definition publisher_section :: "config \<Rightarrow> publisher_config" where
  "publisher_section cfg =
     \<lparr>pc_WorkerID = wkr_ID (cfg_Worker cfg) @ '':registry'',
      pc_PollInterval = reg_PublishInterval (cfg_Registry cfg),
      pc_RequestTimeout = reg_RequestTimeout (cfg_Registry cfg),
      pc_LeaseDuration = reg_LeaseDuration (cfg_Registry cfg),
      pc_RetryDelay = reg_RetryDelay (cfg_Registry cfg), pc_BatchSize = reg_BatchSize (cfg_Registry cfg)\<rparr>"

definition policy_of :: "config \<Rightarrow> policy" where
  "policy_of cfg =
     \<lparr>pol_Version = plc_Version (cfg_Policy cfg), pol_HorizontalToleranceM = plc_HorizontalToleranceM (cfg_Policy cfg),
      pol_VerticalToleranceM = plc_VerticalToleranceM (cfg_Policy cfg),
      pol_OpenAfterSamples = plc_OpenAfterSamples (cfg_Policy cfg),
      pol_RecoverAfterSamples = plc_RecoverAfterSamples (cfg_Policy cfg),
      pol_TelemetryFreshness = plc_TelemetryFreshness (cfg_Policy cfg)\<rparr>"

definition worker_of :: "config \<Rightarrow> worker_config" where
  "worker_of cfg =
     \<lparr>wc_WorkerID = wkr_ID (cfg_Worker cfg), wc_PollInterval = ifx_PollInterval (cfg_Influx cfg),
      wc_LeaseDuration = wkr_LeaseDuration (cfg_Worker cfg), wc_RenewInterval = wkr_RenewInterval (cfg_Worker cfg),
      wc_SettleDelay = ifx_SettleDelay (cfg_Influx cfg), wc_OverlapWindow = ifx_OverlapWindow (cfg_Influx cfg),
      wc_ClaimBatchSize = wkr_ClaimBatchSize (cfg_Worker cfg)\<rparr>"

text \<open>\<open>close rs open\<close>: the resources that remain after closing \<open>rs\<close>.\<close>

definition close_all :: "resource list \<Rightarrow> resource list \<Rightarrow> resource list" where
  "close_all rs opened = filter (\<lambda>r. r \<notin> set rs) opened"

text \<open>
  The result with the resources left open. The process passes itself as the store, the client
  and the logger, so those dependencies are present.
\<close>

definition service_New :: "outside \<Rightarrow> config \<Rightarrow> (service_error + service) \<times> resource list" where
  "service_New ow cfg =
     (case newAssignmentServerCredentials ow (svc_GRPCTLS (cfg_Service cfg)) of
        Inl e \<Rightarrow> (Inl e, [])
      | Inr _ \<Rightarrow>
     if \<not> ow_store ow (cfg_PostgresURL cfg) then (Inl StoreOpenFailed, [])
     else let open1 = [StorePool]; ifx = cfg_Influx cfg in
     (case reader_New (ow_influx ow (ifx_Host ifx) (ifx_Token ifx) (ifx_Database ifx))
             (ifx_AircraftBatchSize ifx) (ifx_MaxRows ifx) of
        Inl ClientRefused \<Rightarrow> (Inl InfluxClientFailed, close_all [StorePool] open1)
      | Inl ReaderRefused \<Rightarrow> (Inl ReaderInvalid, close_all [StorePool] (InfluxClient # open1))
      | Inr (runner, rd) \<Rightarrow> let open2 = InfluxClient # open1 in
     (case NewAssignmentHandler True True (plc_Version (cfg_Policy cfg)) of
        Inl _ \<Rightarrow> (Inl HandlerInvalid, close_all [InfluxClient, StorePool] open2)
      | Inr h \<Rightarrow>
     if \<not> ow_registry ow (reg_Address (cfg_Registry cfg)) (reg_Insecure (cfg_Registry cfg))
     then (Inl RegistryClientFailed, close_all [InfluxClient, StorePool] open2)
     else let open3 = RegistryConnection # open2;
              cleaned = close_all [RegistryConnection, InfluxClient, StorePool] open3 in
     (case publisher_New True True True (publisher_section cfg) of
        Inl _ \<Rightarrow> (Inl PublisherInvalid, cleaned)
      | Inr p \<Rightarrow>
     (case New (policy_of cfg) of
        Inl e \<Rightarrow> (Inl (EvaluatorInvalid e), cleaned)
      | Inr pol \<Rightarrow>
     (case worker_New True True True True (worker_of cfg) of
        Inl _ \<Rightarrow> (Inl EvaluationWorkerInvalid, cleaned)
      | Inr w \<Rightarrow>
         (Inr \<lparr>sv_runner = runner, sv_reader = rd, sv_handler = h, sv_publisher = p, sv_policy = pol, sv_worker = w,
               sv_ready = True, sv_runCancel = False, sv_open = open3, sv_shutdown = None, sv_actions = []\<rparr>, open3)))))))"

section \<open>Shutdown and readiness\<close>

text \<open>
  The errors of the three closers, where they fail, and whether the gRPC server stops gracefully
  before the shutdown timeout.
\<close>

record closers =
  cl_management :: "string option"
  cl_connection :: "string option"
  cl_reader :: "string option"
  cl_graceful :: bool

text \<open>\<^verbatim>\<open>errors.Join\<close>: the errors that are not nil, and nil if there are none.\<close>

definition join_errors :: "string option list \<Rightarrow> string list" where
  "join_errors es = map the (filter (\<lambda>e. e \<noteq> None) es)"

text \<open>\<^verbatim>\<open>sync.Once\<close>: the body runs on the first call only, later calls return its error.\<close>

definition Shutdown :: "closers \<Rightarrow> service \<Rightarrow> string list \<times> service" where
  "Shutdown K s =
     (case sv_shutdown s of
        Some errs \<Rightarrow> (errs, s)
      | None \<Rightarrow>
          (let errs = join_errors [cl_management K, cl_connection K, cl_reader K] in
           (errs, s\<lparr>sv_ready := False,
                    sv_open := close_all [StorePool] (close_all [InfluxClient] (close_all [RegistryConnection] (sv_open s))),
                    sv_shutdown := Some errs,
                    sv_actions := sv_actions s @ [WithdrawReady] @ (if sv_runCancel s then [CancelRun] else []) @
                      [ShutdownManagement, GracefulStopGRPC] @ (if cl_graceful K then [] else [StopGRPC]) @
                      [CloseRegistry, CloseReader, CloseStore]\<rparr>)))"

datatype http_status = StatusOK | StatusServiceUnavailable

definition handleReady :: "bool \<Rightarrow> service \<Rightarrow> http_status" where
  "handleReady ping s =
     (if \<not> sv_ready s then StatusServiceUnavailable
      else if \<not> ping then StatusServiceUnavailable else StatusOK)"

section \<open>Running\<close>

text \<open>
  What the goroutines of \<^verbatim>\<open>Run\<close> report: a server returns without error, because it was closed or
  stopped, or with another error; the publisher returns; the worker returns with or without an
  error; the context of the run ends. \<^verbatim>\<open>Run\<close> waits for the end of the context or for the first
  error on its channel, which has room for every sender, so no goroutine blocks on it. The
  list holds what happens in the order in which \<^verbatim>\<open>Run\<close> comes to see it.
\<close>

datatype serve_result = Served | ServerClosed | ServeError string

datatype run_event =
  ManagementReturned serve_result | GRPCReturned serve_result | PublisherReturned
  | WorkerReturned "worker_error option" | RunContextDone

definition reported :: "run_event \<Rightarrow> service_error option" where
  "reported ev =
     (case ev of
        ManagementReturned (ServeError e) \<Rightarrow> Some (ManagementServerFailed e)
      | GRPCReturned (ServeError e) \<Rightarrow> Some (GRPCServerFailed e)
      | WorkerReturned (Some e) \<Rightarrow> Some (EvaluationWorkerFailed e)
      | _ \<Rightarrow> None)"

fun await :: "run_event list \<Rightarrow> service_error option option" where
  "await [] = None"
| "await (ev # evs) =
     (if ev = RunContextDone then Some None
      else case reported ev of None \<Rightarrow> await evs | Some e \<Rightarrow> Some (Some e))"

text \<open>
  The service is still running, or \<^verbatim>\<open>Run\<close> has returned: with the error that ended it, or with
  the errors of the shutdown after the context has ended.
\<close>

datatype service_end = Serving service | Stopped "service_error option" "string list" service

definition service_Run :: "closers \<Rightarrow> bool \<Rightarrow> run_event list \<Rightarrow> service \<Rightarrow> service_end" where
  "service_Run K listens evs s =
     (let s1 = s\<lparr>sv_runCancel := True\<rparr> in
      if \<not> listens then Stopped (Some ListenFailed) [] (snd (Shutdown K s1))
      else
        case await evs of
          None \<Rightarrow> Serving s1
        | Some None \<Rightarrow> (let (errs, s2) = Shutdown K s1 in Stopped None errs s2)
        | Some (Some e) \<Rightarrow> Stopped (Some e) [] (snd (Shutdown K s1)))"

end
