(* ===== verification/Command.thy ===== *)
theory Command
  imports Service
begin

text \<open>
  The command of \<^verbatim>\<open>cmd/aero-arc-conformance/main.go\<close>: load the configuration, choose the logger,
  construct the service, run it, and turn the outcome into an exit code. The value of the flag
  is what the command line library gives; signals end the context of the run and are among the
  events of \<open>service_Run\<close>.
\<close>

definition config_path :: "string option \<Rightarrow> string" where
  "config_path flag = (case flag of None \<Rightarrow> ''configs/config.yaml'' | Some path \<Rightarrow> path)"

text \<open>The levels of \<^verbatim>\<open>slog\<close>; a name that is not a key of the map gives zero, the level of info.\<close>

definition log_level :: "string \<Rightarrow> int" where
  "log_level name =
     (if name = ''debug'' then - 4 else if name = ''info'' then 0 else if name = ''warn'' then 4
      else if name = ''error'' then 8 else 0)"

datatype log_handler = TextHandler int | JSONHandler int

definition log_handler_of :: "logging_config \<Rightarrow> log_handler" where
  "log_handler_of l =
     (if log_Format l = ''text'' then TextHandler (log_level (log_Level l)) else JSONHandler (log_level (log_Level l)))"

datatype command_error =
  LoadConfigurationFailed config_error | InitializeFailed service_error | RunFailed service_error
  | ShutdownFailed "string list"

text \<open>The environment of a process: files, variables, the YAML decoder, float arithmetic and the answers of the outside.\<close>

record process =
  pr_readFile :: "string \<Rightarrow> string option"
  pr_getenv :: "string \<Rightarrow> string"
  pr_decode :: yaml_decoder
  pr_fpu :: fpu
  pr_out_of_range :: "real \<Rightarrow> nat"
  pr_outside :: outside
  pr_closers :: closers
  pr_listens :: bool
  pr_events :: "run_event list"

text \<open>
  The command is still running, or it has returned; with the resources that are still open and
  what the service has done to shut down.
\<close>

datatype command_end = CommandRunning "resource list" | CommandReturned "command_error option" "resource list" "action list"

abbreviation load_configuration :: "process \<Rightarrow> string option \<Rightarrow> config_error + config" where
  "load_configuration P flag \<equiv>
     Load (pr_fpu P) (pr_out_of_range P) (pr_readFile P) (pr_getenv P) (pr_decode P) (config_path flag)"

definition runConformance :: "process \<Rightarrow> string option \<Rightarrow> command_end" where
  "runConformance P flag =
     (case load_configuration P flag of
        Inl e \<Rightarrow> CommandReturned (Some (LoadConfigurationFailed e)) [] []
      | Inr cfg \<Rightarrow>
         (case service_New (pr_outside P) cfg of
            (Inl e, opened) \<Rightarrow> CommandReturned (Some (InitializeFailed e)) opened []
          | (Inr service, opened) \<Rightarrow>
             (case service_Run (pr_closers P) (pr_listens P) (pr_events P) service of
                Serving s \<Rightarrow> CommandRunning (sv_open s)
              | Stopped (Some e) _ s \<Rightarrow> CommandReturned (Some (RunFailed e)) (sv_open s) (sv_actions s)
              | Stopped None errs s \<Rightarrow>
                  CommandReturned (if errs = [] then None else Some (ShutdownFailed errs)) (sv_open s) (sv_actions s))))"

definition main :: "process \<Rightarrow> string option \<Rightarrow> int option" where
  "main P flag =
     (case runConformance P flag of
        CommandRunning _ \<Rightarrow> None
      | CommandReturned None _ _ \<Rightarrow> Some 0
      | CommandReturned (Some e) _ _ \<Rightarrow> Some 1)"

end
