(* ===== verification/Lifecycle.thy ===== *)
theory Lifecycle
  imports Command "HOL-Library.Code_Target_Nat"
begin

text \<open>
  The process around the components: schema migrations that can be run again, and a service
  that starts whenever its configuration is valid and its outside answers, and that leaves
  nothing open behind.
\<close>

section \<open>Migrations\<close>

definition migration_file :: "entry \<Rightarrow> bool" where
  "migration_file e \<longleftrightarrow> \<not> en_IsDir e \<and> HasSuffix (en_Name e) ''.sql''"

lemma apply_migration_Inr:
  "apply_migration checksum exec e v st = Inr st' \<Longrightarrow>
     fst st \<subseteq>\<^sub>m fst st' \<and> fst st' v = Some (checksum (en_Contents e))"
  by (auto simp: apply_migration_def map_le_def split: option.splits if_splits)

lemma migrate_entries_step:
  assumes "migrate_entries checksum exec (e # es) seen st = (None, st')" "migration_file e"
  obtains prefix v st1 where "Cut (en_Name e) = Some prefix" "ParseInt prefix = Some v" "v \<notin> seen"
    "apply_migration checksum exec e v st = Inr st1" "migrate_entries checksum exec es (insert v seen) st1 = (None, st')"
  using assms by (auto simp: migration_file_def split: option.splits if_splits sum.splits)

lemma migrate_entries_skip:
  "\<not> migration_file e \<Longrightarrow> migrate_entries checksum exec (e # es) seen st = migrate_entries checksum exec es seen st"
  by (auto simp: migration_file_def)

declare migrate_entries.simps(2) [simp del]

lemma migrate_entries_mono:
  "migrate_entries checksum exec es seen st = (None, st') \<Longrightarrow> fst st \<subseteq>\<^sub>m fst st'"
proof (induction es arbitrary: seen st)
  case (Cons e es)
  show ?case
  proof (cases "migration_file e")
    case True
    from migrate_entries_step [OF Cons.prems True] show ?thesis
      using Cons.IH apply_migration_Inr map_le_trans by metis
  next
    case False
    with Cons show ?thesis by (simp add: migrate_entries_skip)
  qed
qed simp

definition edited :: "entry \<Rightarrow> string \<Rightarrow> entry \<Rightarrow> entry" where
  "edited e text x = (if x = e then x\<lparr>en_Contents := text\<rparr> else x)"

lemma edited_simps [simp]:
  "en_Name (edited e text x) = en_Name x" "en_IsDir (edited e text x) = en_IsDir x"
  "migration_file (edited e text x) = migration_file x"
  by (simp_all add: edited_def migration_file_def)

text \<open>Any ledger that has recorded a completed run accepts it again and refuses an edit of it.\<close>

lemma migrate_entries_known:
  fixes exec :: "string \<Rightarrow> 'schema \<Rightarrow> 'schema option" and L :: "int \<rightharpoonup> string"
  assumes "migrate_entries checksum exec (x # es) seen st = (None, st')" "fst st' \<subseteq>\<^sub>m L" "migration_file x"
  obtains v st1 where "migrate_entries checksum exec es (insert v seen) st1 = (None, st')"
    "\<And>exec' y ys (s :: 'schema). en_Name y = en_Name x \<Longrightarrow> en_IsDir y = en_IsDir x \<Longrightarrow>
       migrate_entries checksum exec' (y # ys) seen (L, s) =
         (if checksum (en_Contents y) = checksum (en_Contents x) then migrate_entries checksum exec' ys (insert v seen) (L, s)
          else (Some (ChecksumChanged (en_Name x)), (L, s)))"
proof -
  from migrate_entries_step [OF assms(1,3)] obtain prefix v st1 where
    x: "Cut (en_Name x) = Some prefix" "ParseInt prefix = Some v" "v \<notin> seen"
    and one: "apply_migration checksum exec x v st = Inr st1"
    and rest: "migrate_entries checksum exec es (insert v seen) st1 = (None, st')" by blast
  have "fst st1 v = Some (checksum (en_Contents x))" using apply_migration_Inr [OF one] by simp
  then have "L v = Some (checksum (en_Contents x))"
    using migrate_entries_mono [OF rest] assms(2) by (metis domI map_le_def)
  with x assms(3) show thesis
    by (intro that [OF rest]) (auto simp: migrate_entries.simps(2) apply_migration_def migration_file_def)
qed

lemma migrate_entries_again:
  fixes exec exec' :: "string \<Rightarrow> 'schema \<Rightarrow> 'schema option"
  assumes "migrate_entries checksum exec es seen st = (None, st')" "fst st' \<subseteq>\<^sub>m L"
  shows "migrate_entries checksum exec' es seen (L, s) = (None, (L, s))"
  using assms(1)
proof (induction es arbitrary: seen st)
  case (Cons x es)
  show ?case
  proof (cases "migration_file x")
    case True
    from Cons.prems assms(2) True show ?thesis by (rule migrate_entries_known) (simp add: Cons.IH)
  qed (use Cons in \<open>simp add: migrate_entries_skip\<close>)
qed simp

lemma migrate_entries_edited:
  fixes exec exec' :: "string \<Rightarrow> 'schema \<Rightarrow> 'schema option"
  assumes "migrate_entries checksum exec es seen st = (None, st')" "fst st' \<subseteq>\<^sub>m L" "e \<in> set es" "migration_file e"
    and new: "checksum text \<noteq> checksum (en_Contents e)"
  shows "migrate_entries checksum exec' (map (edited e text) es) seen (L, s) = (Some (ChecksumChanged (en_Name e)), (L, s))"
  using assms(1,3)
proof (induction es arbitrary: seen st)
  case (Cons x es)
  show ?case
  proof (cases "migration_file x")
    case True
    from Cons.prems(1) assms(2) True show ?thesis
    proof (rule migrate_entries_known)
      fix v st1
      assume rest: "migrate_entries checksum exec es (insert v seen) st1 = (None, st')"
        and known: "\<And>exec' y ys (s :: 'schema). en_Name y = en_Name x \<Longrightarrow> en_IsDir y = en_IsDir x \<Longrightarrow>
          migrate_entries checksum exec' (y # ys) seen (L, s) =
            (if checksum (en_Contents y) = checksum (en_Contents x) then migrate_entries checksum exec' ys (insert v seen) (L, s)
             else (Some (ChecksumChanged (en_Name x)), (L, s)))"
      show ?thesis using known Cons.IH [OF rest] Cons.prems(2) new by (cases "x = e") (auto simp: edited_def)
    qed
  next
    case False
    with assms(4) Cons.prems Cons.IH [of seen st] show ?thesis by (auto simp: migrate_entries_skip)
  qed
qed simp

lemma sort_key_edited: "sort_key en_Name (map (edited e text) es) = map (edited e text) (sort_key en_Name es)"
proof -
  have "insort_key en_Name (edited e text x) (map (edited e text) xs) = map (edited e text) (insort_key en_Name x xs)" for x xs
    by (induction xs) auto
  then show ?thesis by (induction es) simp_all
qed

text \<open>
  C32: Migrations can be run again. After a completed run the same files, run again by any
  process, change neither ledger nor schema, whatever executing them would do; and if the
  contents of one of them have changed since, the run is refused with the name of that file
  and changes nothing.
\<close>

theorem migrations_run_again:
  fixes exec exec' :: "string \<Rightarrow> 'schema \<Rightarrow> 'schema option"
  assumes "migrate checksum exec entries st = (None, st')"
  shows "migrate checksum exec' entries st' = (None, st') \<and>
    (\<forall>e\<in>set entries. \<forall>text. migration_file e \<and> checksum text \<noteq> checksum (en_Contents e) \<longrightarrow>
       migrate checksum exec' (map (edited e text) entries) st' = (Some (ChecksumChanged (en_Name e)), st'))"
  using migrate_entries_again [OF assms [unfolded migrate_def], of "fst st'" exec' "snd st'"]
    migrate_entries_edited [OF assms [unfolded migrate_def], of "fst st'" _ _ exec' "snd st'"]
  by (simp add: migrate_def sort_key_edited)

definition files_demo :: "entry list" where
  "files_demo =
     [\<lparr>en_Name = ''002_b.sql'', en_IsDir = False, en_Contents = ''b''\<rparr>,
      \<lparr>en_Name = ''001_a.sql'', en_IsDir = False, en_Contents = ''a''\<rparr>]"

theorem migrations_run_again_witness:
  "\<exists>st'. migrate (\<lambda>s. s) (\<lambda>s schema. Some (schema @ s)) files_demo (Map.empty, []) = (None, st') \<and> snd st' = ''ab'' \<and>
     migrate (\<lambda>s. s) (\<lambda>s schema. None) files_demo st' = (None, st') \<and>
     migrate (\<lambda>s. s) (\<lambda>s schema. None) (map (edited (hd files_demo) ''c'') files_demo) st' =
       (Some (ChecksumChanged ''002_b.sql''), st')"
proof -
  let ?m = "migrate (\<lambda>s. s) (\<lambda>s schema. Some (schema @ s)) files_demo (Map.empty, [])"
  have ok: "fst ?m = None" "snd (snd ?m) = ''ab''" by code_simp+
  then have run: "?m = (None, snd ?m)" by (simp add: prod_eq_iff)
  have sql: "migration_file (hd files_demo)" by code_simp
  from migrations_run_again [OF run, of "\<lambda>s schema. None"] sql ok(2) run show ?thesis
    by (intro exI [of _ "snd ?m"]) (auto simp: files_demo_def)
qed

section \<open>Start and stop\<close>

text \<open>What the components of a running service rely on.\<close>

definition assembled :: "service \<Rightarrow> bool" where
  "assembled s \<longleftrightarrow>
     0 < rd_chunkSize (sv_reader s) \<and> 0 < rd_maxRows (sv_reader s) \<and> \<not> blank (hd_policyVersion (sv_handler s)) \<and>
     publisher_New True True True (sv_publisher s) = Inr (sv_publisher s) \<and> Validate (sv_policy s) = Inr () \<and>
     hd_policyVersion (sv_handler s) = pol_Version (sv_policy s) \<and> Config_Validate (sv_worker s)"

definition started :: "service \<Rightarrow> bool" where
  "started s \<longleftrightarrow> sv_ready s \<and> sv_shutdown s = None \<and> sv_actions s = [] \<and> set (sv_open s) = {RegistryConnection, InfluxClient, StorePool}"

definition outside_failure :: "service_error \<Rightarrow> bool" where
  "outside_failure e \<longleftrightarrow> e \<in> {CredentialsInvalid, StoreOpenFailed, InfluxClientFailed, RegistryClientFailed}"

text \<open>A valid configuration satisfies the constructor of every component.\<close>

lemma validated_sections:
  assumes "cfg_Validate cfg = Inr ()"
  shows "\<not> blank (plc_Version (cfg_Policy cfg))" "1 \<le> ifx_AircraftBatchSize (cfg_Influx cfg)" "1 \<le> ifx_MaxRows (cfg_Influx cfg)"
    and "publisher_New True True True (publisher_section cfg) = Inr (publisher_section cfg)"
    and "Validate (policy_of cfg) = Inr ()" "Config_Validate (worker_of cfg)"
  using assms
  by (auto simp: cfg_Validate_def monad_splits Let_def publisher_New_def publisher_section_def Validate_def policy_of_def
      Config_Validate_def worker_of_def Config.finiteNonnegative_def Geometry.finiteNonnegative_def finite_def finite64_iff not_blank_not_empty)

lemma reader_New_valid:
  "1 \<le> chunkSize \<Longrightarrow> 1 \<le> maxRows \<Longrightarrow>
     reader_New client chunkSize maxRows =
       (case client of None \<Rightarrow> Inl ClientRefused
        | Some c \<Rightarrow> Inr (clientRunner_Query c, \<lparr>rd_chunkSize = nat chunkSize, rd_maxRows = nat maxRows\<rparr>))"
  by (auto simp: reader_New_def NewWithRunner_def split: option.splits)

lemma service_New_valid:
  assumes "cfg_Validate cfg = Inr ()"
  shows "case service_New ow cfg of
      (Inl e, opened) \<Rightarrow> outside_failure e \<and> opened = []
    | (Inr s, opened) \<Rightarrow> assembled s \<and> started s \<and> opened = sv_open s"
  using validated_sections [OF assms]
  by (auto simp: service_New_def reader_New_valid NewAssignmentHandler_def New_def worker_New_def outside_failure_def close_all_def
      assembled_def started_def policy_of_def newAssignmentServerCredentials_def monad_splits Let_def split: sum.splits option.splits if_splits)

lemma close_everything: "close_all [StorePool] (close_all [InfluxClient] (close_all [RegistryConnection] opened)) = []"
  by (auto simp: close_all_def filter_empty_conv) (metis resource.exhaust)

text \<open>After the first call: nothing is open, the service is not ready, and further calls change nothing.\<close>

definition finished :: "service \<Rightarrow> bool" where
  "finished s \<longleftrightarrow> \<not> sv_ready s \<and> sv_open s = [] \<and> sv_shutdown s \<noteq> None"

lemma Shutdown_started:
  assumes "sv_shutdown s = None" "Shutdown K s = (errs, s')"
  shows "finished s'" "sv_shutdown s' = Some errs" "errs = join_errors [cl_management K, cl_connection K, cl_reader K]"
  using assms by (auto simp: Shutdown_def finished_def Let_def close_everything)

lemma Shutdown_finished: "sv_shutdown s = Some errs \<Longrightarrow> Shutdown K s = (errs, s)"
  by (simp add: Shutdown_def)

lemma service_Run_started:
  assumes "sv_shutdown s = None"
  shows "case service_Run K listens evs s of
      Serving s' \<Rightarrow> listens \<and> await evs = None \<and> s' = s\<lparr>sv_runCancel := True\<rparr>
    | Stopped e errs s' \<Rightarrow> finished s' \<and> sv_actions s' = sv_actions (snd (Shutdown K (s\<lparr>sv_runCancel := True\<rparr>))) \<and>
        (e = None \<longleftrightarrow> listens \<and> await evs = Some None) \<and>
        (e = None \<longrightarrow> errs = join_errors [cl_management K, cl_connection K, cl_reader K])"
proof -
  obtain errs s' where sh: "Shutdown K (s\<lparr>sv_runCancel := True\<rparr>) = (errs, s')" by fastforce
  have "sv_shutdown (s\<lparr>sv_runCancel := True\<rparr>) = None" using assms by simp
  from Shutdown_started [OF this sh] sh show ?thesis
    by (auto simp: service_Run_def Let_def split: option.splits)
qed

lemma join_errors_empty: "join_errors es = [] \<longleftrightarrow> (\<forall>e\<in>set es. e = None)"
  by (auto simp: join_errors_def filter_empty_conv)

text \<open>
  C31: The life of the process. Whatever the configuration file, the environment and the outside
  do, when the command returns nothing is left open. It returns success exactly when the
  configuration loads, the service can be constructed and can listen, the run is ended by its context before any
  server or the worker fails, and all closers succeed; otherwise it returns an error. Every
  shutdown withdraws readiness first, then cancels worker and publisher, stops the servers, and
  closes the database last.
\<close>

theorem process_leaves_nothing_open:
  assumes "runConformance P flag = CommandReturned err opened actions"
  shows "opened = [] \<and>
    (err = None \<longleftrightarrow> (\<exists>cfg s opened'.
        load_configuration P flag = Inr cfg \<and>
        service_New (pr_outside P) cfg = (Inr s, opened') \<and> pr_listens P \<and> await (pr_events P) = Some None \<and>
        cl_management (pr_closers P) = None \<and> cl_connection (pr_closers P) = None \<and> cl_reader (pr_closers P) = None)) \<and>
    (actions = [] \<or> actions = [WithdrawReady, CancelRun, ShutdownManagement, GracefulStopGRPC] @
        (if cl_graceful (pr_closers P) then [] else [StopGRPC]) @ [CloseRegistry, CloseReader, CloseStore])"
proof (cases "load_configuration P flag")
  case (Inl e)
  with assms show ?thesis by (auto simp: runConformance_def)
next
  case (Inr cfg)
  then have "cfg_Validate cfg = Inr ()"
    by (auto simp: Load_def monad_splits split: option.splits yaml_tail.splits prod.splits)
  note new = service_New_valid [OF this, of "pr_outside P"]
  obtain res opened' where New: "service_New (pr_outside P) cfg = (res, opened')" by fastforce
  show ?thesis
  proof (cases res)
    case (Inl e)
    with assms Inr New new show ?thesis by (auto simp: runConformance_def)
  next
    case (Inr s)
    then have s: "sv_shutdown s = None" "sv_actions s = []" using New new by (auto simp: started_def)
    note run = service_Run_started [OF s(1), where K = "pr_closers P" and listens = "pr_listens P" and evs = "pr_events P"]
    have acts: "sv_actions (snd (Shutdown (pr_closers P) (s\<lparr>sv_runCancel := True\<rparr>))) =
        [WithdrawReady, CancelRun, ShutdownManagement, GracefulStopGRPC] @
        (if cl_graceful (pr_closers P) then [] else [StopGRPC]) @ [CloseRegistry, CloseReader, CloseStore]"
      using s by (simp add: Shutdown_def Let_def)
    show ?thesis
      using assms \<open>load_configuration P flag = Inr cfg\<close> New Inr run acts
      by (cases "service_Run (pr_closers P) (pr_listens P) (pr_events P) s")
        (auto simp: runConformance_def finished_def join_errors_empty split: option.splits if_splits)
  qed
qed

text \<open>
  C30: Start and stop. With a validated configuration, constructing the service fails only
  because key files, database, telemetry client or Registry client fail, and then leaves
  nothing open; otherwise every component has the parameters it relies on, and the handler accepts
  exactly the policy the evaluator runs. A service that has not stopped stays ready; however it
  stops, it is no longer ready, and shutting down again answers the same and changes nothing.
\<close>

theorem service_starts_and_stops:
  assumes "cfg_Validate cfg = Inr ()"
  shows "case service_New ow cfg of
      (Inl e, opened) \<Rightarrow> outside_failure e \<and> opened = []
    | (Inr s, opened) \<Rightarrow> assembled s \<and> opened = sv_open s \<and> handleReady True s = StatusOK \<and>
        (\<forall>K K' listens evs ping.
           case service_Run K listens evs s of
             Serving s' \<Rightarrow> handleReady True s' = StatusOK
           | Stopped e errs s' \<Rightarrow> sv_open s' = [] \<and> handleReady ping s' = StatusServiceUnavailable \<and>
               (\<exists>result. sv_shutdown s' = Some result \<and> Shutdown K' s' = (result, s')))"
proof (cases "service_New ow cfg")
  case (Pair res opened)
  show ?thesis
  proof (cases res)
    case (Inl e)
    then show ?thesis using service_New_valid [OF assms, of ow] Pair by simp
  next
    case (Inr s)
    then have s: "assembled s" "started s" "opened = sv_open s" using service_New_valid [OF assms, of ow] Pair by auto
    then have "sv_shutdown s = None" "sv_ready s" by (simp_all add: started_def)
    note run = service_Run_started [OF this(1)]
    show ?thesis
      using Pair Inr s \<open>sv_ready s\<close> run
      by (fastforce simp: handleReady_def finished_def Shutdown_finished split: service_end.splits)
  qed
qed

text \<open>A process whose context is cancelled after the publisher has returned.\<close>

definition outside_demo :: outside where
  "outside_demo =
     \<lparr>ow_certificate = (\<lambda>_ _. True), ow_file = (\<lambda>_. Some ''pem''), ow_pem = (\<lambda>_. True), ow_store = (\<lambda>_. True),
      ow_influx = (\<lambda>_ _ _. Some (\<lambda>_. Inr ([], None))), ow_registry = (\<lambda>_ _. True)\<rparr>"

definition config_demo :: config where
  "config_demo =
     Default\<lparr>cfg_Service := (cfg_Service Default)\<lparr>svc_GRPCTLS := \<lparr>tls_CertificateFile = ''c'', tls_PrivateKeyFile = ''k'',
         tls_ClientCAFile = ''a''\<rparr>\<rparr>, cfg_PostgresURL := ''u'',
       cfg_Influx := (cfg_Influx Default)\<lparr>ifx_Host := ''h'', ifx_Database := ''d''\<rparr>,
       cfg_Registry := (cfg_Registry Default)\<lparr>reg_Address := ''r''\<rparr>, cfg_Worker := (cfg_Worker Default)\<lparr>wkr_ID := ''w''\<rparr>\<rparr>"

definition process_demo :: process where
  "process_demo =
     \<lparr>pr_readFile = (\<lambda>_. Some ''${TIMEOUT}s''), pr_getenv = (\<lambda>name. if name = ''TIMEOUT'' then ''15'' else []),
      pr_decode = (\<lambda>unmarshal cfg text. case unmarshal text of Inl _ \<Rightarrow> None
        | Inr d \<Rightarrow> Some (config_demo\<lparr>cfg_Service := (cfg_Service config_demo)\<lparr>svc_ShutdownTimeout := d\<rparr>\<rparr>, EndOfInput)),
      pr_fpu = exact_fpu, pr_out_of_range = (\<lambda>_. 0),
      pr_outside = outside_demo,
      pr_closers = \<lparr>cl_management = None, cl_connection = None, cl_reader = None, cl_graceful = False\<rparr>,
      pr_listens = True, pr_events = [PublisherReturned, RunContextDone]\<rparr>"

lemma config_demo_valid: "cfg_Validate config_demo = Inr ()"
proof -
  have "\<not> blank ''c''" "\<not> blank ''k''" "\<not> blank ''a''" "\<not> blank ''u''" "\<not> blank ''h''" "\<not> blank ''d''" "\<not> blank ''r''"
    "\<not> blank ''w''" "\<not> blank ''standard-v1''" "\<not> blank '':2112''" "\<not> blank '':50052''" by code_simp+
  then show ?thesis
    by (simp add: cfg_Validate_def config_demo_def Default_def Second_def Config.finiteNonnegative_def)
qed

text \<open>Its file names the shutdown timeout by a variable of the environment.\<close>

lemma config_demo_loads: "load_configuration process_demo None = Inr config_demo"
proof -
  have "Expand (pr_getenv process_demo) ''${TIMEOUT}s'' = ''15s''"
    using Expand_braced [of "[]" "''TIMEOUT''" "pr_getenv process_demo" "''s''"] by (simp add: process_demo_def)
  moreover have "list_all digit ''15''" "decimal ''15'' = 15" "unit_of ''s'' = Some 1000000000" by code_simp+
  then have "ParseDuration F oor ''15s'' = Some (15 * Second)" for F oor
    using ParseDuration_whole [of "''15''" "''s''" 1000000000 F oor] by (simp add: Second_def)
  moreover have "config_demo\<lparr>cfg_Service := (cfg_Service config_demo)\<lparr>svc_ShutdownTimeout := 15 * Second\<rparr>\<rparr> = config_demo"
    by (simp add: config_demo_def Default_def)
  ultimately show ?thesis
    using config_demo_valid by (simp add: Load_def UnmarshalYAML_def process_demo_def config_path_def)
qed

theorem process_leaves_nothing_open_witness:
  "\<exists>opened. runConformance process_demo None = CommandReturned None opened
     [WithdrawReady, CancelRun, ShutdownManagement, GracefulStopGRPC, StopGRPC, CloseRegistry, CloseReader, CloseStore] \<and> opened = []"
proof -
  let ?ow = "pr_outside process_demo"
  have load: "load_configuration process_demo None = Inr config_demo" by (rule config_demo_loads)
  have "\<exists>s opened. service_New ?ow config_demo = (Inr s, opened)"
    using validated_sections [OF config_demo_valid]
    by (simp add: service_New_def process_demo_def outside_demo_def newAssignmentServerCredentials_def reader_New_valid
        NewAssignmentHandler_def New_def worker_New_def Let_def)
  then obtain s where new: "service_New ?ow config_demo = (Inr s, sv_open s)" "sv_shutdown s = None"
    using service_New_valid [OF config_demo_valid, of ?ow] by (auto simp: started_def)
  have ends: "pr_listens process_demo" "await (pr_events process_demo) = Some None"
    by (simp_all add: process_demo_def reported_def)
  have "\<exists>err opened actions. runConformance process_demo None = CommandReturned err opened actions \<and> actions \<noteq> []"
    using load new ends
    by (auto simp: runConformance_def service_Run_def Shutdown_def Let_def)
  then obtain err opened actions where run: "runConformance process_demo None = CommandReturned err opened actions" "actions \<noteq> []"
    by blast
  from process_leaves_nothing_open [OF run(1)] run load new(1) ends show ?thesis
    by (auto simp: process_demo_def)
qed

theorem service_starts_and_stops_witness:
  "\<exists>s. service_New outside_demo config_demo = (Inr s, sv_open s) \<and> assembled s \<and> handleReady True s = StatusOK"
proof -
  have "\<exists>s opened. service_New outside_demo config_demo = (Inr s, opened)"
    using validated_sections [OF config_demo_valid]
    by (simp add: service_New_def outside_demo_def newAssignmentServerCredentials_def reader_New_valid
        NewAssignmentHandler_def New_def worker_New_def Let_def)
  with service_starts_and_stops [OF config_demo_valid, of outside_demo] show ?thesis by auto
qed

end
