(* ===== verification/Spec2Isabelle.thy ===== *)
theory Spec2Isabelle
  imports Evaluator_Properties Store_Authority Store_Claims Store_Recovery Delivery History_Pages Handler_Properties
    Flight_Progress Lifecycle
begin

text \<open>
  A verification of Aero Arc Conformance, the Go service that joins mission assignments with UAV
  telemetry, evaluates conformance and records incident evidence.

  \<^bold>\<open>The program.\<close> Assignments arrive over gRPC (\<^verbatim>\<open>internal/transport/grpc\<close>) and are kept, generation
  by generation, in PostgreSQL (\<^verbatim>\<open>internal/store/postgres\<close>): prepared, armed, cut over, superseded.
  Workers (\<^verbatim>\<open>internal/worker\<close>) lease due assignments, read positions from InfluxDB
  (\<^verbatim>\<open>internal/telemetry/influx\<close>), run the evaluator (\<^verbatim>\<open>internal/evaluator\<close>) from the last checkpoint and
  commit incidents, immutable events, checkpoint, summary and an outbox message in one fenced
  transaction. A publisher (\<^verbatim>\<open>internal/projection/registry\<close>) delivers the messages to the Registry in
  order; a history query pages through the events. \<^verbatim>\<open>internal/conformance\<close> assembles the process
  from \<^verbatim>\<open>internal/config\<close>.

  \<^bold>\<open>Model and source.\<close> Each theory opens with what it holds.
  \<^item> \<open>Prelude\<close>: instants (nanoseconds, unbounded, with \<^verbatim>\<open>UnixNano\<close> wrapping at 64 bits), saturating
    durations, byte strings, \<^verbatim>\<open>float64\<close> as a datatype of reals, infinities and NaN, results as sums.
  \<^item> \<open>Domain\<close>: the records and enumerations of \<^verbatim>\<open>internal/domain/types.go\<close>.
  \<^item> \<open>Geometry\<close>, \<open>Evaluator\<close>: \<^verbatim>\<open>internal/evaluator/evaluator.go\<close>, with counters wrapping at 64 bits.
  \<^item> \<open>Store_Schema\<close>: the tables, constraints and indexes of the migrations as rows and checks.
    \<open>Store_Assignments\<close>, \<open>Store_Leases\<close>, \<open>Store_Evaluation\<close>, \<open>Store_Outbox\<close>: the operations of
    \<^verbatim>\<open>store.go\<close>, one definition each from a database to an error or a database; \<open>History\<close>:
    \<^verbatim>\<open>history.go\<close>; \<open>Migrations\<close>: \<^verbatim>\<open>migrations.go\<close>.
  \<^item> \<open>Reader\<close>: \<^verbatim>\<open>influx/reader.go\<close>; \<open>Worker\<close>: \<^verbatim>\<open>worker/evaluation.go\<close>; \<open>Publisher\<close>:
    \<^verbatim>\<open>registry/publisher.go\<close>; \<open>Handlers\<close>: the gRPC adapter; \<open>Environment\<close>, \<open>Config\<close>,
    \<open>Service\<close>, \<open>Command\<close>: configuration (with \<^verbatim>\<open>os.Expand\<close> and \<^verbatim>\<open>time.ParseDuration\<close>), assembly
    and shutdown, and the command line.

  \<^bold>\<open>Concurrency.\<close> A store operation is one transaction and one step; \<open>store_step\<close> is any operation
  with any arguments and any clock, and \<open>reachable\<close> its closure from the empty database, so a
  theorem about reachable databases holds under every interleaving of replicas. What others do
  between the store calls of one claim is the argument \<open>interference\<close> of \<open>processClaim\<close>; row locks
  held by others are an argument of the claim operations; a lost connection, before or after
  the commit, is the argument \<open>fault\<close> of the RPCs.

  \<^bold>\<open>Parameters.\<close> Rounding and \<^verbatim>\<open>math\<close> functions (\<open>fpu\<close>), the digests, JSON hashes, rounding and
  collation of the database (\<open>store_env\<close>), the telemetry store (\<open>runner\<close>), the Registry (\<open>client\<close>),
  \<^verbatim>\<open>timestamppb\<close>, the JSON of the history cursor, the YAML decoder, the effect of SQL files, and
  the conversion of a \<^verbatim>\<open>float64\<close> outside \<^verbatim>\<open>uint64\<close>. Hypotheses on them are named in the theorems
  that need them and met by a concrete instance in the witness.

  \<^bold>\<open>Abstract specifications and interfaces.\<close> The evaluator refines a four-phase hysteresis machine
  (\<open>Incidents\<close>, \<open>Evaluation\<close>); the worker refines a set of new frames in cursor order
  (\<open>Worker_Selection\<close>); the bisecting read refines a read without limit (\<open>Reading\<close>). The locale
  \<open>ordered_by\<close> (\<open>Ordering\<close>) is the contract of a comparison that sorts by a key, interpreted on
  the comparisons of reader, worker and evaluator; \<open>monotone_fence\<close> that of a lease generation that never
  decreases, and its extension \<open>fenced_operation\<close> (\<open>Store_Fencing\<close>) that of a
  write fenced by a lease generation, interpreted on the evaluation writes and, in \<open>Delivery\<close>,
  on the outbox writes.

  \<^bold>\<open>What is shown.\<close>
  \<^item> Evaluator (\<open>Evaluator_Properties\<close>): hysteresis as a refinement, when incidents open and resolve,
    episodes, the state invariant, replay from a checkpoint, what a conforming verdict means, that
    missing evidence changes nothing, the terminal overrun, distance to a ring, closing vertices.
  \<^item> Authority (\<open>Store_Timeline\<close>, \<open>Store_Authority\<close>): at most one generation is responsible for an instant
    and the lookup finds it; a cutover splits the timeline; candidates never disturb it.
  \<^item> Evidence (\<open>Store_Watermarks\<close>, \<open>Store_Ledger\<close>, \<open>Store_Evidence\<close>): append-only, revisions without gaps, one
    Registry message per live commit. Leases (\<open>Store_Claims\<close>, \<open>Store_Fencing\<close>): exclusive claims,
    overtaken claims are fenced. \<open>Store_Recovery\<close>: what a take-over restores, and when a collation
    prevents it. \<open>Store_Redelivery\<close>, \<open>Handler_Properties\<close>: commands and preparations can be sent again;
    what the adapter accepts is storable, evaluable and read back unchanged.
  \<^item> Worker (\<open>Reading\<close>, \<open>Decoding\<close>, \<open>Worker_Selection\<close>, \<open>Worker_Safety\<close>): complete reads, sound rows, exactly the
    new frames, one write per claim, no evidence after a failure, a stop without WAL identity.
    \<open>Flight\<close> puts reader, worker, evaluator and store together: however a flight is cut into polls,
    what is stored is the evaluation of the whole flight. \<open>Transition_Log\<close>, \<open>Store_Incidents\<close>,
    \<open>Incident_Book\<close>, \<open>Commit_Progress\<close> and \<open>Flight_Progress\<close> show that a flight is never stuck: the rows of
    its generation are the book of its transitions, so no constraint refuses the next commit.
  \<^item> Delivery (\<open>Delivery\<close>): in order, only when acknowledged, fenced. History (\<open>History_Pages\<close>): pages are complete.
    \<open>Identifiers\<close>: digested identities are unambiguous. \<open>Lifecycle\<close>: start, stop, exit code, migrations.

  \<^bold>\<open>Termination and bounds.\<close> All definitions are total. The bisection of \<open>readComplete\<close> terminates by the
  length of the window; \<open>Expand\<close> and \<open>duration_loop\<close> by the length of the text; the loops of worker and publisher, which have no end of their own, run
  over a list of iterations; following history pages uses fuel above the number of events, which
  the theorem shows to be enough.

  \<^bold>\<open>Not modelled.\<close> Fused multiply-add and the sign of zero in \<^verbatim>\<open>float64\<close>; failures of the database driver
  inside a transaction other than its rollback; the text of JSON and of error messages beyond
  what the code inspects; Unicode beyond the white space of \<^verbatim>\<open>TrimSpace\<close>; the columns
  \<^verbatim>\<open>created_at\<close>; the order in which the unstable sort of Go leaves elements that compare equal
  (fixed here, and irrelevant in the theorems by their hypotheses); what the HTTP and gRPC
  server libraries do between the events they report; log output; the test containers of
  \<^verbatim>\<open>internal/testsupport\<close>, which only start Docker for integration tests.
\<close>

end
